theory Spec2Isabelle
  imports Main
begin

section \<open>Attribute truncation\<close>

text \<open>
  \<^verbatim>\<open>truncateAttribute\<close> is defined identically at the top of
  \<^verbatim>\<open>telemetryHooksSingleTrace.ts\<close>, \<^verbatim>\<open>telemetryHooksByAgent.ts\<close> and
  \<^verbatim>\<open>telemetryHooksIndividualTraces.ts\<close> (lines 4-14 of each). A JavaScript string is
  modelled as the list of its code units, so \<^verbatim>\<open>value.length\<close> is \<open>length\<close> and
  \<^verbatim>\<open>value.substring(0, n)\<close> is \<open>take n\<close>.
\<close>

definition MAX_ATTRIBUTE_LENGTH :: nat where
  "MAX_ATTRIBUTE_LENGTH = 10000"

definition truncateAttribute :: "string \<Rightarrow> nat \<Rightarrow> string" where
  "truncateAttribute v maxLength =
     (if length v \<le> maxLength then v
      else take maxLength v @ ''... [truncated]'')"

section \<open>JavaScript values that reach the hooks\<close>

text \<open>
  The hooks take \<^verbatim>\<open>input: any\<close>. A string-valued field of a hook input is a
  \<open>field\<close>: \<open>None\<close> is a missing field (\<^verbatim>\<open>undefined\<close>). Ids are fields too, and a
  JavaScript \<^verbatim>\<open>Map\<close> accepts \<^verbatim>\<open>undefined\<close> as a key.
\<close>

type_synonym field = "string option"

datatype js_error = TypeError

text \<open>
  The tool input and the tool response are arbitrary values, told apart by what
  \<^verbatim>\<open>JSON.stringify\<close> and \<^verbatim>\<open>String\<close> do with them.
\<close>

datatype payload =
    Absent                  \<comment> \<open>missing field: \<^verbatim>\<open>JSON.stringify(undefined)\<close> returns \<^verbatim>\<open>undefined\<close>\<close>
  | Serializable string     \<comment> \<open>\<^verbatim>\<open>JSON.stringify\<close> returns this string\<close>
  | Unserializable string   \<comment> \<open>\<^verbatim>\<open>JSON.stringify\<close> throws, \<^verbatim>\<open>String\<close> returns this string\<close>
  | Hostile                 \<comment> \<open>\<^verbatim>\<open>JSON.stringify\<close> throws and \<^verbatim>\<open>String\<close> throws\<close>

definition truthy :: "field \<Rightarrow> bool" where
  "truthy f = (case f of None \<Rightarrow> False | Some v \<Rightarrow> v \<noteq> [])"

definition js_or :: "field \<Rightarrow> field \<Rightarrow> field" where
  \<comment> \<open>\<^verbatim>\<open>a || b\<close>\<close>
  "js_or a b = (if truthy a then a else b)"

definition js_or_str :: "field \<Rightarrow> string \<Rightarrow> string" where
  \<comment> \<open>\<^verbatim>\<open>a || "literal"\<close>\<close>
  "js_or_str a d = (case a of None \<Rightarrow> d | Some v \<Rightarrow> if v = [] then d else v)"

definition template :: "field \<Rightarrow> string" where
  \<comment> \<open>a field inside a template literal: \<^verbatim>\<open>`${x}`\<close>\<close>
  "template f = (case f of None \<Rightarrow> ''undefined'' | Some v \<Rightarrow> v)"

definition truncateAttribute_any :: "field \<Rightarrow> nat \<Rightarrow> js_error + string" where
  \<comment> \<open>\<^verbatim>\<open>truncateAttribute\<close> called with a value of type \<^verbatim>\<open>any\<close>: reading
      \<^verbatim>\<open>value.length\<close> of \<^verbatim>\<open>undefined\<close> throws a TypeError\<close>
  "truncateAttribute_any f maxLength =
     (case f of None \<Rightarrow> Inl TypeError | Some v \<Rightarrow> Inr (truncateAttribute v maxLength))"

definition toolInputStr :: "payload \<Rightarrow> js_error + field" where
  \<comment> \<open>\<^verbatim>\<open>try { toolInputStr = JSON.stringify(x) } catch { toolInputStr = String(x) }\<close>\<close>
  "toolInputStr p =
     (case p of
        Absent \<Rightarrow> Inr None
      | Serializable v \<Rightarrow> Inr (Some v)
      | Unserializable v \<Rightarrow> Inr (Some v)
      | Hostile \<Rightarrow> Inl TypeError)"

definition responseSize :: "payload \<Rightarrow> js_error + int" where
  \<comment> \<open>\<^verbatim>\<open>try { JSON.stringify(x).length } catch { String(x).length }\<close>: for a missing
      response the \<^verbatim>\<open>.length\<close> of \<^verbatim>\<open>undefined\<close> throws inside the \<^verbatim>\<open>try\<close>, and
      \<^verbatim>\<open>String(undefined)\<close> has 9 characters\<close>
  "responseSize p =
     (case p of
        Absent \<Rightarrow> Inr (int (length ''undefined''))
      | Serializable v \<Rightarrow> Inr (int (length v))
      | Unserializable v \<Rightarrow> Inr (int (length v))
      | Hostile \<Rightarrow> Inl TypeError)"

record hook_input =
  hook_event_name :: field
  session_id :: field
  prompt :: field
  cwd :: field
  permission_mode :: field
  agent_id :: field
  agent_type :: field
  agent_transcript_path :: field
  tool_name :: field
  tool_use_id :: field
  tool_input :: payload
  tool_response :: payload
  error :: field

datatype hook_output = HookOutput (continue: bool)

type_synonym 's hook_result = "(js_error + hook_output) \<times> 's"

section \<open>The tracing backend, as a recorder of calls\<close>

text \<open>
  The tracer is an external collaborator. It is modelled as the list of the spans it has
  started, a span's handle being its index, and each span keeps the calls made on it in
  order. \<open>ActiveContext\<close> is \<^verbatim>\<open>context.active()\<close>, which is also the parent of a span
  started without a context; \<open>SpanContext h\<close> is \<^verbatim>\<open>trace.setSpan(context.active(), span)\<close>.
\<close>

datatype otel_context = ActiveContext | SpanContext nat

datatype attr_value = AStr field | ANum int | ABool bool

datatype status_code = OK | ERROR

datatype span_call =
    SetAttribute string attr_value
  | SetStatus status_code "string option"
  | RecordException string
  | End

record otel_span =
  span_name :: string
  span_parent :: otel_context
  calls :: "span_call list"

record tracked =
  tracer :: "otel_span list"

definition tr_start :: "string \<Rightarrow> otel_context \<Rightarrow> otel_span list \<Rightarrow> otel_span list" where
  "tr_start nm ctx tr = tr @ [\<lparr>span_name = nm, span_parent = ctx, calls = []\<rparr>]"

definition tr_call :: "nat \<Rightarrow> span_call \<Rightarrow> otel_span list \<Rightarrow> otel_span list" where
  "tr_call h c tr = tr[h := (tr ! h)\<lparr>calls := calls (tr ! h) @ [c]\<rparr>]"

definition startSpan ::
  "string \<Rightarrow> otel_context \<Rightarrow> 'a tracked_scheme \<Rightarrow> nat \<times> 'a tracked_scheme" where
  \<comment> \<open>\<^verbatim>\<open>tracer.startSpan(name, undefined, context)\<close>: the new span's handle and the tracer
      that holds it\<close>
  "startSpan nm ctx s = (length (tracer s), s\<lparr>tracer := tr_start nm ctx (tracer s)\<rparr>)"

definition on_span :: "nat \<Rightarrow> span_call \<Rightarrow> 'a tracked_scheme \<Rightarrow> 'a tracked_scheme" where
  \<comment> \<open>one call on the span with handle \<open>h\<close>\<close>
  "on_span h c s = s\<lparr>tracer := tr_call h c (tracer s)\<rparr>"

definition setAttributes ::
  "nat \<Rightarrow> (string \<times> attr_value) list \<Rightarrow> 'a tracked_scheme \<Rightarrow> 'a tracked_scheme" where
  "setAttributes h kvs s = fold (\<lambda>(k, v). on_span h (SetAttribute k v)) kvs s"

subsection \<open>What a recorded span shows\<close>

definition ends :: "otel_span \<Rightarrow> nat" where
  \<comment> \<open>how many times \<^verbatim>\<open>end()\<close> was called on the span\<close>
  "ends sp = count_list (calls sp) End"

fun status_before_end :: "span_call list \<Rightarrow> (status_code \<times> string option) option" where
  \<comment> \<open>the last \<^verbatim>\<open>setStatus\<close> made before the first \<^verbatim>\<open>end()\<close>\<close>
  "status_before_end [] = None"
| "status_before_end (End # cs) = None"
| "status_before_end (SetStatus c m # cs) =
     (case status_before_end cs of None \<Rightarrow> Some (c, m) | Some st \<Rightarrow> Some st)"
| "status_before_end (_ # cs) = status_before_end cs"

definition closed_with :: "otel_span \<Rightarrow> (status_code \<times> string option) option" where
  \<comment> \<open>the status a span was closed with; \<open>None\<close> when it was never closed or closed
      with no status set\<close>
  "closed_with sp = (if End \<in> set (calls sp) then status_before_end (calls sp) else None)"

definition attributes :: "otel_span \<Rightarrow> string \<Rightarrow> attr_value option" where
  \<comment> \<open>the value an attribute key holds: the last one set\<close>
  "attributes sp k =
     fold (\<lambda>c r. case c of SetAttribute k' v \<Rightarrow> (if k' = k then Some v else r) | _ \<Rightarrow> r)
       (calls sp) None"

definition exceptions :: "otel_span \<Rightarrow> string list" where
  "exceptions sp = concat (map (\<lambda>c. case c of RecordException m \<Rightarrow> [m] | _ \<Rightarrow> []) (calls sp))"

section \<open>JavaScript \<^verbatim>\<open>Map\<close>: an association list in insertion order\<close>

definition Map_get :: "('k \<times> 'v) list \<Rightarrow> 'k \<Rightarrow> 'v option" where
  "Map_get m k = map_of m k"

fun Map_set :: "('k \<times> 'v) list \<Rightarrow> 'k \<Rightarrow> 'v \<Rightarrow> ('k \<times> 'v) list" where
  \<comment> \<open>a key already present keeps its place; a new key goes last\<close>
  "Map_set [] k v = [(k, v)]"
| "Map_set ((k', v') # m) k v = (if k' = k then (k, v) # m else (k', v') # Map_set m k v)"

definition Map_delete :: "('k \<times> 'v) list \<Rightarrow> 'k \<Rightarrow> ('k \<times> 'v) list" where
  "Map_delete m k = filter (\<lambda>e. fst e \<noteq> k) m"

definition Map_values :: "('k \<times> 'v) list \<Rightarrow> 'v list" where
  "Map_values m = map snd m"

section \<open>Single-trace strategy (\<^verbatim>\<open>telemetryHooksSingleTrace.ts\<close>)\<close>

record st_entry =
  st_span :: nat
  st_context :: otel_context

record st_tracker = tracked +
  st_agentSpans :: "(field \<times> st_entry) list"
  st_toolSpans :: "(field \<times> st_entry) list"
  st_rootSpan :: nat
  st_rootSpanContext :: otel_context
  st_sessionSpan :: nat
  st_sessionSpanContext :: otel_context

definition st_withAgentTelemetry :: "otel_span list \<Rightarrow> st_tracker" where
  \<comment> \<open>lines 25-36: the root span is started and ended at once, the session span stays open\<close>
  "st_withAgentTelemetry tr =
     (let s0 = \<lparr>tracer = tr, st_agentSpans = [], st_toolSpans = [],
                 st_rootSpan = 0, st_rootSpanContext = ActiveContext,
                 st_sessionSpan = 0, st_sessionSpanContext = ActiveContext\<rparr>;
          (rootSpan, s1) = startSpan ''agent.root'' ActiveContext s0;
          rootSpanContext = SpanContext rootSpan;
          s2 = on_span rootSpan End s1;
          (sessionSpan, s3) = startSpan ''agent.session'' rootSpanContext s2;
          sessionSpanContext = SpanContext sessionSpan
      in s3\<lparr>st_rootSpan := rootSpan, st_rootSpanContext := rootSpanContext,
             st_sessionSpan := sessionSpan, st_sessionSpanContext := sessionSpanContext\<rparr>)"

definition st_UserPromptSubmit :: "hook_input \<Rightarrow> st_tracker \<Rightarrow> st_tracker hook_result" where
  "st_UserPromptSubmit inp s =
     (if hook_event_name inp = Some ''UserPromptSubmit'' then
        (let s1 = on_span (st_sessionSpan s) (SetAttribute ''session.id'' (AStr (session_id inp))) s
         in case truncateAttribute_any (prompt inp) MAX_ATTRIBUTE_LENGTH of
              Inl e \<Rightarrow> (Inl e, s1)
            | Inr p \<Rightarrow>
               (let s2 = on_span (st_sessionSpan s) (SetAttribute ''prompt'' (AStr (Some p))) s1;
                    s3 = on_span (st_sessionSpan s) (SetAttribute ''cwd'' (AStr (cwd inp))) s2;
                    s4 = on_span (st_sessionSpan s)
                           (SetAttribute ''permission_mode''
                              (AStr (Some (js_or_str (permission_mode inp) [])))) s3;
                    (span, s5) = startSpan ''hook.user_prompt_submit'' (st_sessionSpanContext s) s4
                in case prompt inp of
                     None \<Rightarrow> (Inl TypeError, s5)
                   | Some v \<Rightarrow>
                      (let s6 = setAttributes span
                                  [(''hook.event_name'', AStr (Some ''UserPromptSubmit'')),
                                   (''session.id'', AStr (session_id inp)),
                                   (''prompt.length'', ANum (int (length v)))] s5;
                           s7 = on_span span End s6
                       in (Inr (HookOutput True), s7))))
      else (Inr (HookOutput True), s))"

definition st_SubagentStart :: "hook_input \<Rightarrow> st_tracker \<Rightarrow> st_tracker hook_result" where
  "st_SubagentStart inp s =
     (if hook_event_name inp = Some ''SubagentStart'' then
        (let (span, s1) = startSpan (''agent.'' @ template (agent_type inp))
                            (st_sessionSpanContext s) s;
             s2 = setAttributes span
                    [(''agent.id'', AStr (agent_id inp)),
                     (''agent.type'', AStr (agent_type inp)),
                     (''session.id'', AStr (session_id inp))] s1;
             spanContext = SpanContext span;
             s3 = s2\<lparr>st_agentSpans :=
                       Map_set (st_agentSpans s2) (agent_id inp)
                         \<lparr>st_span = span, st_context = spanContext\<rparr>\<rparr>
         in (Inr (HookOutput True), s3))
      else (Inr (HookOutput True), s))"

definition st_SubagentStop :: "hook_input \<Rightarrow> st_tracker \<Rightarrow> st_tracker hook_result" where
  "st_SubagentStop inp s =
     (if hook_event_name inp = Some ''SubagentStop'' then
        (case Map_get (st_agentSpans s) (agent_id inp) of
           None \<Rightarrow> (Inr (HookOutput True), s)
         | Some agentData \<Rightarrow>
            (let s1 = on_span (st_span agentData)
                        (SetAttribute ''agent.transcript_path''
                           (AStr (agent_transcript_path inp))) s;
                 s2 = on_span (st_span agentData) (SetStatus OK None) s1;
                 s3 = on_span (st_span agentData) End s2;
                 s4 = s3\<lparr>st_agentSpans := Map_delete (st_agentSpans s3) (agent_id inp)\<rparr>
             in (Inr (HookOutput True), s4)))
      else (Inr (HookOutput True), s))"

definition st_parentContext :: "st_tracker \<Rightarrow> otel_context" where
  \<comment> \<open>lines 122-129: the context of the last entry of \<^verbatim>\<open>agentSpans\<close>, or the session's\<close>
  "st_parentContext s =
     (let agentEntries = Map_values (st_agentSpans s)
      in if length agentEntries > 0 then st_context (last agentEntries)
         else st_sessionSpanContext s)"

definition st_PreToolUse :: "hook_input \<Rightarrow> st_tracker \<Rightarrow> st_tracker hook_result" where
  "st_PreToolUse inp s =
     (if hook_event_name inp = Some ''PreToolUse'' then
        (let parentContext = st_parentContext s;
             (span, s1) = startSpan (''tool.'' @ template (tool_name inp)) parentContext s
         in case toolInputStr (tool_input inp) of
              Inl e \<Rightarrow> (Inl e, s1)
            | Inr str \<Rightarrow>
               (case truncateAttribute_any str MAX_ATTRIBUTE_LENGTH of
                  Inl e \<Rightarrow> (Inl e, s1)
                | Inr v \<Rightarrow>
                   (let s2 = setAttributes span
                               [(''tool.name'', AStr (tool_name inp)),
                                (''tool.use_id'', AStr (tool_use_id inp)),
                                (''tool.input'', AStr (Some v)),
                                (''session.id'', AStr (session_id inp))] s1;
                        spanContext = SpanContext span;
                        s3 = s2\<lparr>st_toolSpans :=
                                  Map_set (st_toolSpans s2) (tool_use_id inp)
                                    \<lparr>st_span = span, st_context = spanContext\<rparr>\<rparr>
                    in (Inr (HookOutput True), s3))))
      else (Inr (HookOutput True), s))"

definition st_PostToolUse :: "hook_input \<Rightarrow> st_tracker \<Rightarrow> st_tracker hook_result" where
  "st_PostToolUse inp s =
     (if hook_event_name inp = Some ''PostToolUse'' then
        (case Map_get (st_toolSpans s) (tool_use_id inp) of
           None \<Rightarrow> (Inr (HookOutput True), s)
         | Some toolData \<Rightarrow>
            (case responseSize (tool_response inp) of
               Inl e \<Rightarrow> (Inl e, s)
             | Inr n \<Rightarrow>
                (let s1 = on_span (st_span toolData)
                            (SetAttribute ''tool.response.size_bytes'' (ANum n)) s;
                     s2 = on_span (st_span toolData) (SetAttribute ''tool.success'' (ABool True)) s1;
                     s3 = on_span (st_span toolData) (SetStatus OK None) s2;
                     s4 = on_span (st_span toolData) End s3;
                     s5 = s4\<lparr>st_toolSpans := Map_delete (st_toolSpans s4) (tool_use_id inp)\<rparr>
                 in (Inr (HookOutput True), s5))))
      else (Inr (HookOutput True), s))"

definition st_PostToolUseFailure :: "hook_input \<Rightarrow> st_tracker \<Rightarrow> st_tracker hook_result" where
  "st_PostToolUseFailure inp s =
     (if hook_event_name inp = Some ''PostToolUseFailure'' then
        (case Map_get (st_toolSpans s) (tool_use_id inp) of
           None \<Rightarrow> (Inr (HookOutput True), s)
         | Some toolData \<Rightarrow>
            (let errorMessage = js_or_str (error inp) ''Unknown error'';
                 s1 = on_span (st_span toolData) (SetAttribute ''tool.success'' (ABool False)) s;
                 s2 = on_span (st_span toolData)
                        (SetAttribute ''tool.error''
                           (AStr (Some (truncateAttribute errorMessage MAX_ATTRIBUTE_LENGTH)))) s1;
                 s3 = on_span (st_span toolData) (RecordException errorMessage) s2;
                 s4 = on_span (st_span toolData)
                        (SetStatus ERROR (Some (truncateAttribute errorMessage 256))) s3;
                 s5 = on_span (st_span toolData) End s4;
                 s6 = s5\<lparr>st_toolSpans := Map_delete (st_toolSpans s5) (tool_use_id inp)\<rparr>
             in (Inr (HookOutput True), s6)))
      else (Inr (HookOutput True), s))"

definition hook_marker ::
  "string \<Rightarrow> string \<Rightarrow> otel_context \<Rightarrow> hook_input \<Rightarrow> 'a tracked_scheme
     \<Rightarrow> 'a tracked_scheme hook_result" where
  \<comment> \<open>the seven point-in-time hooks of the single-trace and by-agent modules share this
      body, up to the event name and the span name\<close>
  "hook_marker event nm sessionSpanContext inp s =
     (if hook_event_name inp = Some event then
        (let (span, s1) = startSpan nm sessionSpanContext s;
             s2 = setAttributes span
                    [(''hook.event_name'', AStr (Some event)),
                     (''session.id'', AStr (session_id inp))] s1;
             s3 = on_span span End s2
         in (Inr (HookOutput True), s3))
      else (Inr (HookOutput True), s))"

definition st_SessionStart :: "hook_input \<Rightarrow> st_tracker \<Rightarrow> st_tracker hook_result" where
  "st_SessionStart inp s =
     hook_marker ''SessionStart'' ''hook.session_start'' (st_sessionSpanContext s) inp s"

definition st_SessionEnd :: "hook_input \<Rightarrow> st_tracker \<Rightarrow> st_tracker hook_result" where
  "st_SessionEnd inp s =
     hook_marker ''SessionEnd'' ''hook.session_end'' (st_sessionSpanContext s) inp s"

definition st_Notification :: "hook_input \<Rightarrow> st_tracker \<Rightarrow> st_tracker hook_result" where
  "st_Notification inp s =
     hook_marker ''Notification'' ''hook.notification'' (st_sessionSpanContext s) inp s"

definition st_PermissionRequest :: "hook_input \<Rightarrow> st_tracker \<Rightarrow> st_tracker hook_result" where
  "st_PermissionRequest inp s =
     hook_marker ''PermissionRequest'' ''hook.permission_request'' (st_sessionSpanContext s) inp s"

definition st_PreCompact :: "hook_input \<Rightarrow> st_tracker \<Rightarrow> st_tracker hook_result" where
  "st_PreCompact inp s =
     hook_marker ''PreCompact'' ''hook.pre_compact'' (st_sessionSpanContext s) inp s"

definition st_Stop :: "hook_input \<Rightarrow> st_tracker \<Rightarrow> st_tracker hook_result" where
  "st_Stop inp s = hook_marker ''Stop'' ''hook.stop'' (st_sessionSpanContext s) inp s"

definition st_Setup :: "hook_input \<Rightarrow> st_tracker \<Rightarrow> st_tracker hook_result" where
  "st_Setup inp s = hook_marker ''Setup'' ''hook.setup'' (st_sessionSpanContext s) inp s"

definition st_hooks ::
  "(string \<times> (hook_input \<Rightarrow> st_tracker \<Rightarrow> st_tracker hook_result)) list" where
  \<comment> \<open>the \<^verbatim>\<open>hooks\<close> object: one callback under each event name\<close>
  "st_hooks =
     [(''UserPromptSubmit'', st_UserPromptSubmit),
      (''SubagentStart'', st_SubagentStart),
      (''SubagentStop'', st_SubagentStop),
      (''PreToolUse'', st_PreToolUse),
      (''PostToolUse'', st_PostToolUse),
      (''PostToolUseFailure'', st_PostToolUseFailure),
      (''SessionStart'', st_SessionStart),
      (''SessionEnd'', st_SessionEnd),
      (''Notification'', st_Notification),
      (''PermissionRequest'', st_PermissionRequest),
      (''PreCompact'', st_PreCompact),
      (''Stop'', st_Stop),
      (''Setup'', st_Setup)]"

function st_sweep_tools :: "st_tracker \<Rightarrow> st_tracker" where
  \<comment> \<open>lines 374-381: each turn of the loop closes the first remaining entry and deletes it\<close>
  "st_sweep_tools s =
     (case st_toolSpans s of
        [] \<Rightarrow> s
      | (id', d) # rest \<Rightarrow>
          (let s1 = on_span (st_span d) (SetStatus ERROR (Some ''Orphaned span'')) s;
               s2 = on_span (st_span d) End s1
           in st_sweep_tools (s2\<lparr>st_toolSpans := Map_delete (st_toolSpans s2) id'\<rparr>)))"
  by pat_completeness auto
termination
  by (relation "measure (\<lambda>s. length (st_toolSpans s))")
     (auto simp: on_span_def Map_delete_def less_Suc_eq_le)

function st_sweep_agents :: "st_tracker \<Rightarrow> st_tracker" where
  \<comment> \<open>lines 383-390\<close>
  "st_sweep_agents s =
     (case st_agentSpans s of
        [] \<Rightarrow> s
      | (id', d) # rest \<Rightarrow>
          (let s1 = on_span (st_span d) (SetStatus ERROR (Some ''Orphaned span'')) s;
               s2 = on_span (st_span d) End s1
           in st_sweep_agents (s2\<lparr>st_agentSpans := Map_delete (st_agentSpans s2) id'\<rparr>)))"
  by pat_completeness auto
termination
  by (relation "measure (\<lambda>s. length (st_agentSpans s))")
     (auto simp: on_span_def Map_delete_def less_Suc_eq_le)

definition st_cleanup :: "st_tracker \<Rightarrow> st_tracker" where
  \<comment> \<open>lines 372-394\<close>
  "st_cleanup s =
     (let s1 = st_sweep_tools s;
          s2 = st_sweep_agents s1;
          s3 = on_span (st_sessionSpan s2) (SetStatus OK None) s2
      in on_span (st_sessionSpan s3) End s3)"

section \<open>By-agent strategy (\<^verbatim>\<open>telemetryHooksByAgent.ts\<close>)\<close>

record AgentTrace =
  rootSpan :: nat
  sessionSpanContext :: otel_context
  agentId :: field
  agentType :: field

record ba_tool =
  ba_span :: nat
  ba_context :: otel_context
  ba_agentId :: field

record ba_tracker = tracked +
  ba_agentTraces :: "(field \<times> AgentTrace) list"
  ba_toolSpans :: "(field \<times> ba_tool) list"
  ba_sessionSpan :: nat
  ba_sessionSpanContext :: otel_context
  ba_currentAgentId :: field

definition ba_withAgentTelemetry :: "otel_span list \<Rightarrow> ba_tracker" where
  \<comment> \<open>lines 31-40\<close>
  "ba_withAgentTelemetry tr =
     (let s0 = \<lparr>tracer = tr, ba_agentTraces = [], ba_toolSpans = [],
                 ba_sessionSpan = 0, ba_sessionSpanContext = ActiveContext,
                 ba_currentAgentId = None\<rparr>;
          (sessionSpan, s1) = startSpan ''session'' ActiveContext s0
      in s1\<lparr>ba_sessionSpan := sessionSpan, ba_sessionSpanContext := SpanContext sessionSpan\<rparr>)"

definition ba_UserPromptSubmit :: "hook_input \<Rightarrow> ba_tracker \<Rightarrow> ba_tracker hook_result" where
  "ba_UserPromptSubmit inp s =
     (if hook_event_name inp = Some ''UserPromptSubmit'' then
        (let s1 = on_span (ba_sessionSpan s) (SetAttribute ''session.id'' (AStr (session_id inp))) s
         in case truncateAttribute_any (prompt inp) MAX_ATTRIBUTE_LENGTH of
              Inl e \<Rightarrow> (Inl e, s1)
            | Inr p \<Rightarrow>
               (let s2 = on_span (ba_sessionSpan s) (SetAttribute ''prompt'' (AStr (Some p))) s1;
                    s3 = on_span (ba_sessionSpan s) (SetAttribute ''cwd'' (AStr (cwd inp))) s2;
                    s4 = on_span (ba_sessionSpan s)
                           (SetAttribute ''permission_mode''
                              (AStr (Some (js_or_str (permission_mode inp) [])))) s3;
                    (span, s5) = startSpan ''hook.user_prompt_submit'' (ba_sessionSpanContext s) s4
                in case prompt inp of
                     None \<Rightarrow> (Inl TypeError, s5)
                   | Some v \<Rightarrow>
                      (let s6 = setAttributes span
                                  [(''hook.event_name'', AStr (Some ''UserPromptSubmit'')),
                                   (''session.id'', AStr (session_id inp)),
                                   (''prompt.length'', ANum (int (length v)))] s5;
                           s7 = on_span span End s6
                       in (Inr (HookOutput True), s7))))
      else (Inr (HookOutput True), s))"

definition ba_SubagentStart :: "hook_input \<Rightarrow> ba_tracker \<Rightarrow> ba_tracker hook_result" where
  "ba_SubagentStart inp s =
     (if hook_event_name inp = Some ''SubagentStart'' then
        (let (root, s1) = startSpan (''agent.'' @ template (agent_type inp)) ActiveContext s;
             s2 = setAttributes root
                    [(''agent.id'', AStr (agent_id inp)),
                     (''agent.type'', AStr (agent_type inp)),
                     (''session.id'', AStr (session_id inp))] s1;
             agentTrace = \<lparr>rootSpan = root, sessionSpanContext = SpanContext root,
                           agentId = agent_id inp, agentType = agent_type inp\<rparr>;
             s3 = s2\<lparr>ba_agentTraces := Map_set (ba_agentTraces s2) (agent_id inp) agentTrace\<rparr>;
             s4 = s3\<lparr>ba_currentAgentId := agent_id inp\<rparr>
         in (Inr (HookOutput True), s4))
      else (Inr (HookOutput True), s))"

definition ba_SubagentStop :: "hook_input \<Rightarrow> ba_tracker \<Rightarrow> ba_tracker hook_result" where
  "ba_SubagentStop inp s =
     (if hook_event_name inp = Some ''SubagentStop'' then
        (case Map_get (ba_agentTraces s) (agent_id inp) of
           None \<Rightarrow> (Inr (HookOutput True), s)
         | Some agentTrace \<Rightarrow>
            (let s1 = on_span (rootSpan agentTrace)
                        (SetAttribute ''agent.transcript_path''
                           (AStr (agent_transcript_path inp))) s;
                 s2 = on_span (rootSpan agentTrace) (SetStatus OK None) s1;
                 s3 = on_span (rootSpan agentTrace) End s2;
                 s4 = s3\<lparr>ba_agentTraces := Map_delete (ba_agentTraces s3) (agent_id inp)\<rparr>;
                 s5 = (if ba_currentAgentId s4 = agent_id inp
                       then s4\<lparr>ba_currentAgentId := None\<rparr> else s4)
             in (Inr (HookOutput True), s5)))
      else (Inr (HookOutput True), s))"

definition ba_parentContext :: "hook_input \<Rightarrow> ba_tracker \<Rightarrow> otel_context" where
  \<comment> \<open>lines 139-141\<close>
  "ba_parentContext inp s =
     (let agentId = js_or (agent_id inp) (ba_currentAgentId s);
          agentTrace = (if truthy agentId then Map_get (ba_agentTraces s) agentId else None)
      in case agentTrace of
           Some t \<Rightarrow> sessionSpanContext t
         | None \<Rightarrow> ba_sessionSpanContext s)"

definition ba_PreToolUse :: "hook_input \<Rightarrow> ba_tracker \<Rightarrow> ba_tracker hook_result" where
  "ba_PreToolUse inp s =
     (if hook_event_name inp = Some ''PreToolUse'' then
        (let agentId = js_or (agent_id inp) (ba_currentAgentId s);
             parentContext = ba_parentContext inp s;
             (span, s1) = startSpan (''tool.'' @ template (tool_name inp)) parentContext s
         in case toolInputStr (tool_input inp) of
              Inl e \<Rightarrow> (Inl e, s1)
            | Inr str \<Rightarrow>
               (case truncateAttribute_any str MAX_ATTRIBUTE_LENGTH of
                  Inl e \<Rightarrow> (Inl e, s1)
                | Inr v \<Rightarrow>
                   (let s2 = setAttributes span
                               [(''tool.name'', AStr (tool_name inp)),
                                (''tool.use_id'', AStr (tool_use_id inp)),
                                (''tool.input'', AStr (Some v)),
                                (''session.id'', AStr (session_id inp))] s1;
                        s3 = (if truthy agentId
                              then on_span span (SetAttribute ''agent.id'' (AStr agentId)) s2
                              else s2);
                        spanContext = SpanContext span;
                        s4 = s3\<lparr>ba_toolSpans :=
                                  Map_set (ba_toolSpans s3) (tool_use_id inp)
                                    \<lparr>ba_span = span, ba_context = spanContext,
                                     ba_agentId = agentId\<rparr>\<rparr>
                    in (Inr (HookOutput True), s4))))
      else (Inr (HookOutput True), s))"

definition ba_PostToolUse :: "hook_input \<Rightarrow> ba_tracker \<Rightarrow> ba_tracker hook_result" where
  "ba_PostToolUse inp s =
     (if hook_event_name inp = Some ''PostToolUse'' then
        (case Map_get (ba_toolSpans s) (tool_use_id inp) of
           None \<Rightarrow> (Inr (HookOutput True), s)
         | Some toolData \<Rightarrow>
            (case responseSize (tool_response inp) of
               Inl e \<Rightarrow> (Inl e, s)
             | Inr n \<Rightarrow>
                (let s1 = on_span (ba_span toolData)
                            (SetAttribute ''tool.response.size_bytes'' (ANum n)) s;
                     s2 = on_span (ba_span toolData) (SetAttribute ''tool.success'' (ABool True)) s1;
                     s3 = on_span (ba_span toolData) (SetStatus OK None) s2;
                     s4 = on_span (ba_span toolData) End s3;
                     s5 = s4\<lparr>ba_toolSpans := Map_delete (ba_toolSpans s4) (tool_use_id inp)\<rparr>
                 in (Inr (HookOutput True), s5))))
      else (Inr (HookOutput True), s))"

definition ba_PostToolUseFailure :: "hook_input \<Rightarrow> ba_tracker \<Rightarrow> ba_tracker hook_result" where
  "ba_PostToolUseFailure inp s =
     (if hook_event_name inp = Some ''PostToolUseFailure'' then
        (case Map_get (ba_toolSpans s) (tool_use_id inp) of
           None \<Rightarrow> (Inr (HookOutput True), s)
         | Some toolData \<Rightarrow>
            (let errorMessage = js_or_str (error inp) ''Unknown error'';
                 s1 = on_span (ba_span toolData) (SetAttribute ''tool.success'' (ABool False)) s;
                 s2 = on_span (ba_span toolData)
                        (SetAttribute ''tool.error''
                           (AStr (Some (truncateAttribute errorMessage MAX_ATTRIBUTE_LENGTH)))) s1;
                 s3 = on_span (ba_span toolData) (RecordException errorMessage) s2;
                 s4 = on_span (ba_span toolData)
                        (SetStatus ERROR (Some (truncateAttribute errorMessage 256))) s3;
                 s5 = on_span (ba_span toolData) End s4;
                 s6 = s5\<lparr>ba_toolSpans := Map_delete (ba_toolSpans s5) (tool_use_id inp)\<rparr>
             in (Inr (HookOutput True), s6)))
      else (Inr (HookOutput True), s))"

definition ba_SessionStart :: "hook_input \<Rightarrow> ba_tracker \<Rightarrow> ba_tracker hook_result" where
  "ba_SessionStart inp s =
     hook_marker ''SessionStart'' ''hook.session_start'' (ba_sessionSpanContext s) inp s"

definition ba_SessionEnd :: "hook_input \<Rightarrow> ba_tracker \<Rightarrow> ba_tracker hook_result" where
  "ba_SessionEnd inp s =
     hook_marker ''SessionEnd'' ''hook.session_end'' (ba_sessionSpanContext s) inp s"

definition ba_Notification :: "hook_input \<Rightarrow> ba_tracker \<Rightarrow> ba_tracker hook_result" where
  "ba_Notification inp s =
     hook_marker ''Notification'' ''hook.notification'' (ba_sessionSpanContext s) inp s"

definition ba_PermissionRequest :: "hook_input \<Rightarrow> ba_tracker \<Rightarrow> ba_tracker hook_result" where
  "ba_PermissionRequest inp s =
     hook_marker ''PermissionRequest'' ''hook.permission_request'' (ba_sessionSpanContext s) inp s"

definition ba_PreCompact :: "hook_input \<Rightarrow> ba_tracker \<Rightarrow> ba_tracker hook_result" where
  "ba_PreCompact inp s =
     hook_marker ''PreCompact'' ''hook.pre_compact'' (ba_sessionSpanContext s) inp s"

definition ba_Stop :: "hook_input \<Rightarrow> ba_tracker \<Rightarrow> ba_tracker hook_result" where
  "ba_Stop inp s = hook_marker ''Stop'' ''hook.stop'' (ba_sessionSpanContext s) inp s"

definition ba_Setup :: "hook_input \<Rightarrow> ba_tracker \<Rightarrow> ba_tracker hook_result" where
  "ba_Setup inp s = hook_marker ''Setup'' ''hook.setup'' (ba_sessionSpanContext s) inp s"

definition ba_hooks ::
  "(string \<times> (hook_input \<Rightarrow> ba_tracker \<Rightarrow> ba_tracker hook_result)) list" where
  "ba_hooks =
     [(''UserPromptSubmit'', ba_UserPromptSubmit),
      (''SubagentStart'', ba_SubagentStart),
      (''SubagentStop'', ba_SubagentStop),
      (''PreToolUse'', ba_PreToolUse),
      (''PostToolUse'', ba_PostToolUse),
      (''PostToolUseFailure'', ba_PostToolUseFailure),
      (''SessionStart'', ba_SessionStart),
      (''SessionEnd'', ba_SessionEnd),
      (''Notification'', ba_Notification),
      (''PermissionRequest'', ba_PermissionRequest),
      (''PreCompact'', ba_PreCompact),
      (''Stop'', ba_Stop),
      (''Setup'', ba_Setup)]"

function ba_sweep_tools :: "ba_tracker \<Rightarrow> ba_tracker" where
  \<comment> \<open>lines 390-397\<close>
  "ba_sweep_tools s =
     (case ba_toolSpans s of
        [] \<Rightarrow> s
      | (id', d) # rest \<Rightarrow>
          (let s1 = on_span (ba_span d) (SetStatus ERROR (Some ''Orphaned span'')) s;
               s2 = on_span (ba_span d) End s1
           in ba_sweep_tools (s2\<lparr>ba_toolSpans := Map_delete (ba_toolSpans s2) id'\<rparr>)))"
  by pat_completeness auto
termination
  by (relation "measure (\<lambda>s. length (ba_toolSpans s))")
     (auto simp: on_span_def Map_delete_def less_Suc_eq_le)

function ba_sweep_agents :: "ba_tracker \<Rightarrow> ba_tracker" where
  \<comment> \<open>lines 399-406\<close>
  "ba_sweep_agents s =
     (case ba_agentTraces s of
        [] \<Rightarrow> s
      | (id', t) # rest \<Rightarrow>
          (let s1 = on_span (rootSpan t) (SetStatus ERROR (Some ''Orphaned agent trace'')) s;
               s2 = on_span (rootSpan t) End s1
           in ba_sweep_agents (s2\<lparr>ba_agentTraces := Map_delete (ba_agentTraces s2) id'\<rparr>)))"
  by pat_completeness auto
termination
  by (relation "measure (\<lambda>s. length (ba_agentTraces s))")
     (auto simp: on_span_def Map_delete_def less_Suc_eq_le)

definition ba_cleanup :: "ba_tracker \<Rightarrow> ba_tracker" where
  \<comment> \<open>lines 388-407: the two sweeps, and nothing for the session span\<close>
  "ba_cleanup s = ba_sweep_agents (ba_sweep_tools s)"

section \<open>Individual-traces strategy (\<^verbatim>\<open>telemetryHooksIndividualTraces.ts\<close>)\<close>

text \<open>
  This module keeps a start time with each span. \<^verbatim>\<open>Date.now()\<close> is an environment
  function: the \<open>n\<close>-th call made by the tracker returns \<open>clock n\<close>, for a clock that the
  hooks take as a parameter, and the tracker counts its calls.
\<close>

record SpanData =
  span :: nat
  startTime :: int

record it_tracker = tracked +
  it_agentSpans :: "(field \<times> SpanData) list"
  it_toolSpans :: "(field \<times> SpanData) list"
  it_now_calls :: nat

definition Date_now :: "(nat \<Rightarrow> int) \<Rightarrow> it_tracker \<Rightarrow> int \<times> it_tracker" where
  "Date_now clock s = (clock (it_now_calls s), s\<lparr>it_now_calls := Suc (it_now_calls s)\<rparr>)"

definition it_withAgentTelemetry :: "otel_span list \<Rightarrow> it_tracker" where
  \<comment> \<open>lines 26-28: no span is started at construction\<close>
  "it_withAgentTelemetry tr =
     \<lparr>tracer = tr, it_agentSpans = [], it_toolSpans = [], it_now_calls = 0\<rparr>"

definition it_UserPromptSubmit :: "hook_input \<Rightarrow> it_tracker \<Rightarrow> it_tracker hook_result" where
  "it_UserPromptSubmit inp s =
     (if hook_event_name inp = Some ''UserPromptSubmit'' then
        (let (span, s1) = startSpan ''user_prompt_submit'' ActiveContext s
         in case truncateAttribute_any (prompt inp) MAX_ATTRIBUTE_LENGTH of
              Inl e \<Rightarrow> (Inl e, s1)
            | Inr p \<Rightarrow>
               (case prompt inp of
                  None \<Rightarrow> (Inl TypeError, s1)
                | Some v \<Rightarrow>
                   (let s2 = setAttributes span
                               [(''session.id'', AStr (session_id inp)),
                                (''prompt'', AStr (Some p)),
                                (''prompt.length'', ANum (int (length v))),
                                (''cwd'', AStr (cwd inp)),
                                (''permission_mode'',
                                   AStr (Some (js_or_str (permission_mode inp) [])))] s1;
                        s3 = on_span span (SetStatus OK None) s2;
                        s4 = on_span span End s3
                    in (Inr (HookOutput True), s4))))
      else (Inr (HookOutput True), s))"

definition it_SubagentStart ::
  "(nat \<Rightarrow> int) \<Rightarrow> hook_input \<Rightarrow> it_tracker \<Rightarrow> it_tracker hook_result" where
  "it_SubagentStart clock inp s =
     (if hook_event_name inp = Some ''SubagentStart'' then
        (let (sp, s1) = startSpan (''agent.'' @ template (agent_type inp)) ActiveContext s;
             s2 = setAttributes sp
                    [(''agent.id'', AStr (agent_id inp)),
                     (''agent.type'', AStr (agent_type inp)),
                     (''session.id'', AStr (session_id inp))] s1;
             (now, s3) = Date_now clock s2;
             s4 = s3\<lparr>it_agentSpans :=
                       Map_set (it_agentSpans s3) (agent_id inp) \<lparr>span = sp, startTime = now\<rparr>\<rparr>
         in (Inr (HookOutput True), s4))
      else (Inr (HookOutput True), s))"

definition it_SubagentStop ::
  "(nat \<Rightarrow> int) \<Rightarrow> hook_input \<Rightarrow> it_tracker \<Rightarrow> it_tracker hook_result" where
  "it_SubagentStop clock inp s =
     (if hook_event_name inp = Some ''SubagentStop'' then
        (case Map_get (it_agentSpans s) (agent_id inp) of
           None \<Rightarrow> (Inr (HookOutput True), s)
         | Some agentData \<Rightarrow>
            (let (now, s0) = Date_now clock s;
                 duration = now - startTime agentData;
                 s1 = on_span (span agentData)
                        (SetAttribute ''agent.transcript_path''
                           (AStr (agent_transcript_path inp))) s0;
                 s2 = on_span (span agentData) (SetAttribute ''duration_ms'' (ANum duration)) s1;
                 s3 = on_span (span agentData) (SetStatus OK None) s2;
                 s4 = on_span (span agentData) End s3;
                 s5 = s4\<lparr>it_agentSpans := Map_delete (it_agentSpans s4) (agent_id inp)\<rparr>
             in (Inr (HookOutput True), s5)))
      else (Inr (HookOutput True), s))"

definition it_PreToolUse ::
  "(nat \<Rightarrow> int) \<Rightarrow> hook_input \<Rightarrow> it_tracker \<Rightarrow> it_tracker hook_result" where
  "it_PreToolUse clock inp s =
     (if hook_event_name inp = Some ''PreToolUse'' then
        (let (sp, s1) = startSpan (''tool.'' @ template (tool_name inp)) ActiveContext s
         in case toolInputStr (tool_input inp) of
              Inl e \<Rightarrow> (Inl e, s1)
            | Inr str \<Rightarrow>
               (case truncateAttribute_any str MAX_ATTRIBUTE_LENGTH of
                  Inl e \<Rightarrow> (Inl e, s1)
                | Inr v \<Rightarrow>
                   (let s2 = setAttributes sp
                               [(''tool.name'', AStr (tool_name inp)),
                                (''tool.use_id'', AStr (tool_use_id inp)),
                                (''tool.input'', AStr (Some v)),
                                (''session.id'', AStr (session_id inp))] s1;
                        (now, s3) = Date_now clock s2;
                        s4 = s3\<lparr>it_toolSpans :=
                                  Map_set (it_toolSpans s3) (tool_use_id inp)
                                    \<lparr>span = sp, startTime = now\<rparr>\<rparr>
                    in (Inr (HookOutput True), s4))))
      else (Inr (HookOutput True), s))"

definition it_PostToolUse ::
  "(nat \<Rightarrow> int) \<Rightarrow> hook_input \<Rightarrow> it_tracker \<Rightarrow> it_tracker hook_result" where
  "it_PostToolUse clock inp s =
     (if hook_event_name inp = Some ''PostToolUse'' then
        (case Map_get (it_toolSpans s) (tool_use_id inp) of
           None \<Rightarrow> (Inr (HookOutput True), s)
         | Some toolData \<Rightarrow>
            (let (now, s0) = Date_now clock s;
                 duration = now - startTime toolData
             in case responseSize (tool_response inp) of
                  Inl e \<Rightarrow> (Inl e, s0)
                | Inr n \<Rightarrow>
                   (let s1 = on_span (span toolData) (SetAttribute ''duration_ms'' (ANum duration)) s0;
                        s2 = on_span (span toolData)
                               (SetAttribute ''tool.response.size_bytes'' (ANum n)) s1;
                        s3 = on_span (span toolData) (SetAttribute ''tool.success'' (ABool True)) s2;
                        s4 = on_span (span toolData) (SetStatus OK None) s3;
                        s5 = on_span (span toolData) End s4;
                        s6 = s5\<lparr>it_toolSpans := Map_delete (it_toolSpans s5) (tool_use_id inp)\<rparr>
                    in (Inr (HookOutput True), s6))))
      else (Inr (HookOutput True), s))"

definition it_PostToolUseFailure ::
  "(nat \<Rightarrow> int) \<Rightarrow> hook_input \<Rightarrow> it_tracker \<Rightarrow> it_tracker hook_result" where
  \<comment> \<open>lines 163-185: the input's \<^verbatim>\<open>error\<close> field is not read\<close>
  "it_PostToolUseFailure clock inp s =
     (if hook_event_name inp = Some ''PostToolUseFailure'' then
        (case Map_get (it_toolSpans s) (tool_use_id inp) of
           None \<Rightarrow> (Inr (HookOutput True), s)
         | Some toolData \<Rightarrow>
            (let (now, s0) = Date_now clock s;
                 duration = now - startTime toolData;
                 s1 = on_span (span toolData) (SetAttribute ''duration_ms'' (ANum duration)) s0;
                 s2 = on_span (span toolData) (SetAttribute ''tool.success'' (ABool False)) s1;
                 s3 = on_span (span toolData)
                        (SetStatus ERROR (Some ''Tool execution failed'')) s2;
                 s4 = on_span (span toolData) End s3;
                 s5 = s4\<lparr>it_toolSpans := Map_delete (it_toolSpans s4) (tool_use_id inp)\<rparr>
             in (Inr (HookOutput True), s5)))
      else (Inr (HookOutput True), s))"

definition it_marker ::
  "string \<Rightarrow> string \<Rightarrow> hook_input \<Rightarrow> it_tracker \<Rightarrow> it_tracker hook_result" where
  \<comment> \<open>the seven point-in-time hooks of this module, up to the event name and the span name\<close>
  "it_marker event nm inp s =
     (if hook_event_name inp = Some event then
        (let (sp, s1) = startSpan nm ActiveContext s;
             s2 = setAttributes sp [(''session.id'', AStr (session_id inp))] s1;
             s3 = on_span sp (SetStatus OK None) s2;
             s4 = on_span sp End s3
         in (Inr (HookOutput True), s4))
      else (Inr (HookOutput True), s))"

definition it_SessionStart :: "hook_input \<Rightarrow> it_tracker \<Rightarrow> it_tracker hook_result" where
  "it_SessionStart = it_marker ''SessionStart'' ''session_start''"

definition it_SessionEnd :: "hook_input \<Rightarrow> it_tracker \<Rightarrow> it_tracker hook_result" where
  "it_SessionEnd = it_marker ''SessionEnd'' ''session_end''"

definition it_Notification :: "hook_input \<Rightarrow> it_tracker \<Rightarrow> it_tracker hook_result" where
  "it_Notification = it_marker ''Notification'' ''notification''"

definition it_PermissionRequest :: "hook_input \<Rightarrow> it_tracker \<Rightarrow> it_tracker hook_result" where
  "it_PermissionRequest = it_marker ''PermissionRequest'' ''permission_request''"

definition it_PreCompact :: "hook_input \<Rightarrow> it_tracker \<Rightarrow> it_tracker hook_result" where
  "it_PreCompact = it_marker ''PreCompact'' ''pre_compact''"

definition it_Stop :: "hook_input \<Rightarrow> it_tracker \<Rightarrow> it_tracker hook_result" where
  "it_Stop = it_marker ''Stop'' ''stop''"

definition it_Setup :: "hook_input \<Rightarrow> it_tracker \<Rightarrow> it_tracker hook_result" where
  "it_Setup = it_marker ''Setup'' ''setup''"

definition it_hooks ::
  "(nat \<Rightarrow> int) \<Rightarrow> (string \<times> (hook_input \<Rightarrow> it_tracker \<Rightarrow> it_tracker hook_result)) list" where
  "it_hooks clock =
     [(''UserPromptSubmit'', it_UserPromptSubmit),
      (''SubagentStart'', it_SubagentStart clock),
      (''SubagentStop'', it_SubagentStop clock),
      (''PreToolUse'', it_PreToolUse clock),
      (''PostToolUse'', it_PostToolUse clock),
      (''PostToolUseFailure'', it_PostToolUseFailure clock),
      (''SessionStart'', it_SessionStart),
      (''SessionEnd'', it_SessionEnd),
      (''Notification'', it_Notification),
      (''PermissionRequest'', it_PermissionRequest),
      (''PreCompact'', it_PreCompact),
      (''Stop'', it_Stop),
      (''Setup'', it_Setup)]"

function it_sweep_tools :: "(nat \<Rightarrow> int) \<Rightarrow> it_tracker \<Rightarrow> it_tracker" where
  \<comment> \<open>lines 316-325\<close>
  "it_sweep_tools clock s =
     (case it_toolSpans s of
        [] \<Rightarrow> s
      | (id', d) # rest \<Rightarrow>
          (let (now, s0) = Date_now clock s;
               duration = now - startTime d;
               s1 = on_span (span d) (SetAttribute ''duration_ms'' (ANum duration)) s0;
               s2 = on_span (span d) (SetStatus ERROR (Some ''Orphaned span'')) s1;
               s3 = on_span (span d) End s2
           in it_sweep_tools clock (s3\<lparr>it_toolSpans := Map_delete (it_toolSpans s3) id'\<rparr>)))"
  by pat_completeness auto
termination
  by (relation "measure (\<lambda>(clock, s). length (it_toolSpans s))")
     (auto simp: on_span_def Date_now_def Map_delete_def less_Suc_eq_le)

function it_sweep_agents :: "(nat \<Rightarrow> int) \<Rightarrow> it_tracker \<Rightarrow> it_tracker" where
  \<comment> \<open>lines 327-336\<close>
  "it_sweep_agents clock s =
     (case it_agentSpans s of
        [] \<Rightarrow> s
      | (id', d) # rest \<Rightarrow>
          (let (now, s0) = Date_now clock s;
               duration = now - startTime d;
               s1 = on_span (span d) (SetAttribute ''duration_ms'' (ANum duration)) s0;
               s2 = on_span (span d) (SetStatus ERROR (Some ''Orphaned span'')) s1;
               s3 = on_span (span d) End s2
           in it_sweep_agents clock (s3\<lparr>it_agentSpans := Map_delete (it_agentSpans s3) id'\<rparr>)))"
  by pat_completeness auto
termination
  by (relation "measure (\<lambda>(clock, s). length (it_agentSpans s))")
     (auto simp: on_span_def Date_now_def Map_delete_def less_Suc_eq_le)

definition it_cleanup :: "(nat \<Rightarrow> int) \<Rightarrow> it_tracker \<Rightarrow> it_tracker" where
  \<comment> \<open>lines 314-337\<close>
  "it_cleanup clock s = it_sweep_agents clock (it_sweep_tools clock s)"

section \<open>The engine and the entry points\<close>

text \<open>
  The agent engine is an external collaborator: for each lifecycle event it calls the
  callback registered under the event's name. \<open>deliver\<close> keeps the tracker's state
  whether the callback returns or throws, and \<open>run\<close> delivers a sequence of events.
\<close>

definition deliver ::
  "(string \<times> (hook_input \<Rightarrow> 's \<Rightarrow> 's hook_result)) list \<Rightarrow> hook_input \<Rightarrow> 's \<Rightarrow> 's" where
  "deliver hooks inp s =
     (case hook_event_name inp of
        None \<Rightarrow> s
      | Some event \<Rightarrow>
          (case map_of hooks event of
             None \<Rightarrow> s
           | Some hook \<Rightarrow> snd (hook inp s)))"

definition run ::
  "(string \<times> (hook_input \<Rightarrow> 's \<Rightarrow> 's hook_result)) list \<Rightarrow> hook_input list \<Rightarrow> 's \<Rightarrow> 's" where
  "run hooks events s = fold (deliver hooks) events s"

datatype query_outcome =
    Completed        \<comment> \<open>the \<^verbatim>\<open>for await\<close> loop over \<^verbatim>\<open>query(...)\<close> ran to its end\<close>
  | Failed string    \<comment> \<open>it threw; the string is the error message the \<^verbatim>\<open>catch\<close> block computes\<close>

definition agentSingleTrace_main ::
  "otel_span list \<Rightarrow> hook_input list \<Rightarrow> query_outcome \<Rightarrow> st_tracker" where
  \<comment> \<open>\<^verbatim>\<open>main\<close> of \<^verbatim>\<open>agentSingleTrace.ts\<close>, lines 18-63, on the events the engine delivers\<close>
  "agentSingleTrace_main tr events outcome =
     (let telemetry = st_withAgentTelemetry tr;
          s1 = run st_hooks events telemetry;
          s2 = (case outcome of
                  Completed \<Rightarrow> on_span (st_rootSpan s1) (SetStatus OK None) s1
                | Failed errorMessage \<Rightarrow>
                    on_span (st_rootSpan s1) (RecordException errorMessage)
                      (on_span (st_rootSpan s1) (SetStatus ERROR (Some errorMessage)) s1));
          s3 = st_cleanup s2
      in on_span (st_rootSpan s3) End s3)"

definition agentWithTracesByAgent_main ::
  "otel_span list \<Rightarrow> hook_input list \<Rightarrow> query_outcome \<Rightarrow> ba_tracker" where
  \<comment> \<open>the entry point that imports \<^verbatim>\<open>telemetryHooksByAgent.js\<close>: on failure it starts,
      marks and ends an \<^verbatim>\<open>agent.error\<close> span; in every case it calls \<^verbatim>\<open>cleanup()\<close>\<close>
  "agentWithTracesByAgent_main tr events outcome =
     (let telemetry = ba_withAgentTelemetry tr;
          s1 = run ba_hooks events telemetry;
          s2 = (case outcome of
                  Completed \<Rightarrow> s1
                | Failed errorMessage \<Rightarrow>
                    (let (errorSpan, e1) = startSpan ''agent.error'' ActiveContext s1;
                         e2 = on_span errorSpan (SetStatus ERROR (Some errorMessage)) e1;
                         e3 = on_span errorSpan (RecordException errorMessage) e2
                     in on_span errorSpan End e3))
      in ba_cleanup s2)"

section \<open>Reading the recorded calls\<close>

definition orphan_calls :: "string \<Rightarrow> span_call list" where
  \<comment> \<open>the two calls a sweep makes on a span it finds in a registry\<close>
  "orphan_calls msg = [SetStatus ERROR (Some msg), End]"

definition closes ::
  "otel_span list \<Rightarrow> otel_span list \<Rightarrow> nat \<Rightarrow> status_code \<times> string option \<Rightarrow> bool" where
  \<comment> \<open>from tracer state \<open>tr\<close> to \<open>tr'\<close> the open span \<open>h\<close> is closed, once, and the status
      it is closed with is \<open>st\<close>\<close>
  "closes tr tr' h st =
     (h < length tr \<and> ends (tr ! h) = 0 \<and> ends (tr' ! h) = 1 \<and> closed_with (tr' ! h) = Some st)"

definition it_orphan :: "span_call list \<Rightarrow> span_call list \<Rightarrow> bool" where
  \<comment> \<open>the individual-traces sweep records a duration first\<close>
  "it_orphan old new =
     (\<exists>d. new = old @ SetAttribute ''duration_ms'' (ANum d) # orphan_calls ''Orphaned span'')"

section \<open>Invariants of the registries\<close>

definition all_open :: "nat set \<Rightarrow> otel_span list \<Rightarrow> bool" where
  \<comment> \<open>every handle of \<open>H\<close> is a span of the tracer that has not been ended\<close>
  "all_open H tr = (\<forall>h\<in>H. h < length tr \<and> ends (tr ! h) = 0)"

definition grows :: "otel_span list \<Rightarrow> otel_span list \<Rightarrow> bool" where
  \<comment> \<open>\<open>tr'\<close> has the spans of \<open>tr\<close>, none of them ended in between, and maybe new ones\<close>
  "grows tr tr' =
     (length tr \<le> length tr' \<and> (\<forall>h<length tr. ends (tr' ! h) = ends (tr ! h)))"

definition reg_inv ::
  "nat list \<Rightarrow> (field \<times> nat) list \<Rightarrow> (field \<times> nat) list \<Rightarrow> otel_span list \<Rightarrow> bool" where
  \<comment> \<open>two registries, seen as maps from ids to span handles, next to the tracker's
      long-lived spans \<open>fixed\<close>: keys are unique, no span is held twice, and every
      registered span is open\<close>
  "reg_inv fixed tools agents tr =
     (distinct (map fst tools) \<and> distinct (map fst agents) \<and> distinct fixed \<and>
      distinct (map snd tools) \<and> distinct (map snd agents) \<and>
      snd ` set tools \<inter> snd ` set agents = {} \<and>
      set fixed \<inter> (snd ` set tools \<union> snd ` set agents) = {} \<and>
      all_open (snd ` set tools \<union> snd ` set agents) tr \<and>
      (\<forall>h\<in>set fixed. h < length tr))"

definition st_tools :: "st_tracker \<Rightarrow> (field \<times> nat) list" where
  "st_tools s = map (map_prod id st_span) (st_toolSpans s)"

definition st_agents :: "st_tracker \<Rightarrow> (field \<times> nat) list" where
  "st_agents s = map (map_prod id st_span) (st_agentSpans s)"

definition st_inv :: "st_tracker \<Rightarrow> bool" where
  "st_inv s =
     (reg_inv [st_rootSpan s, st_sessionSpan s] (st_tools s) (st_agents s) (tracer s) \<and>
      ends (tracer s ! st_sessionSpan s) = 0 \<and>
      ends (tracer s ! st_rootSpan s) = 1 \<and>
      st_sessionSpanContext s = SpanContext (st_sessionSpan s))"

definition ba_tools :: "ba_tracker \<Rightarrow> (field \<times> nat) list" where
  "ba_tools s = map (map_prod id ba_span) (ba_toolSpans s)"

definition ba_agents :: "ba_tracker \<Rightarrow> (field \<times> nat) list" where
  "ba_agents s = map (map_prod id rootSpan) (ba_agentTraces s)"

definition ba_inv :: "ba_tracker \<Rightarrow> bool" where
  "ba_inv s =
     (reg_inv [ba_sessionSpan s] (ba_tools s) (ba_agents s) (tracer s) \<and>
      ends (tracer s ! ba_sessionSpan s) = 0 \<and>
      ba_sessionSpanContext s = SpanContext (ba_sessionSpan s))"

definition it_tools :: "it_tracker \<Rightarrow> (field \<times> nat) list" where
  "it_tools s = map (map_prod id span) (it_toolSpans s)"

definition it_agents :: "it_tracker \<Rightarrow> (field \<times> nat) list" where
  "it_agents s = map (map_prod id span) (it_agentSpans s)"

definition it_inv :: "it_tracker \<Rightarrow> bool" where
  "it_inv s = reg_inv [] (it_tools s) (it_agents s) (tracer s)"

subsection \<open>Spans the tracker has let go\<close>

definition st_settled :: "nat \<Rightarrow> st_tracker \<Rightarrow> bool" where
  \<comment> \<open>\<open>h\<close> is a span of the tracer that the tracker no longer holds\<close>
  "st_settled h s =
     (h < length (tracer s) \<and> h \<noteq> st_rootSpan s \<and> h \<noteq> st_sessionSpan s \<and>
      h \<notin> (st_span \<circ> snd) ` set (st_toolSpans s) \<and>
      h \<notin> (st_span \<circ> snd) ` set (st_agentSpans s))"

definition ba_settled :: "nat \<Rightarrow> ba_tracker \<Rightarrow> bool" where
  \<comment> \<open>\<open>h\<close> is a span of the tracer that the tracker no longer holds\<close>
  "ba_settled h s =
     (h < length (tracer s) \<and> h \<noteq> ba_sessionSpan s \<and>
      h \<notin> (ba_span \<circ> snd) ` set (ba_toolSpans s) \<and>
      h \<notin> (rootSpan \<circ> snd) ` set (ba_agentTraces s))"

definition it_settled :: "nat \<Rightarrow> it_tracker \<Rightarrow> bool" where
  \<comment> \<open>\<open>h\<close> is a span of the tracer that the tracker no longer holds\<close>
  "it_settled h s =
     (h < length (tracer s) \<and>
      h \<notin> (span \<circ> snd) ` set (it_toolSpans s) \<and>
      h \<notin> (span \<circ> snd) ` set (it_agentSpans s))"

section \<open>The claims' own words, for comparison with the code\<close>

definition ba_spec_parentContext :: "hook_input \<Rightarrow> ba_tracker \<Rightarrow> otel_context" where
  \<comment> \<open>the parent resolution as claim C4 words it, read on the by-agent tracker: the
      explicit agent id when it is in the registry, otherwise the current agent when one
      is open, otherwise the session\<close>
  "ba_spec_parentContext inp s =
     (case (case agent_id inp of
              None \<Rightarrow> None
            | Some a \<Rightarrow> Map_get (ba_agentTraces s) (Some a)) of
        Some t \<Rightarrow> sessionSpanContext t
      | None \<Rightarrow>
          (case (case ba_currentAgentId s of
                   None \<Rightarrow> None
                 | Some c \<Rightarrow> Map_get (ba_agentTraces s) (Some c)) of
             Some t \<Rightarrow> sessionSpanContext t
           | None \<Rightarrow> ba_sessionSpanContext s))"

definition st_spec_parentContext :: "hook_input \<Rightarrow> st_tracker \<Rightarrow> otel_context" where
  \<comment> \<open>the same words read on the single-trace tracker, whose current agent is the open
      agent that was started last\<close>
  "st_spec_parentContext inp s =
     (case (case agent_id inp of
              None \<Rightarrow> None
            | Some a \<Rightarrow> Map_get (st_agentSpans s) (Some a)) of
        Some e \<Rightarrow> st_context e
      | None \<Rightarrow>
          (case st_agentSpans s of
             [] \<Rightarrow> st_sessionSpanContext s
           | e # es \<Rightarrow> st_context (snd (last (e # es)))))"

definition agent_never_started :: "hook_input list \<Rightarrow> field \<Rightarrow> bool" where
  \<comment> \<open>no event of the sequence is the start of an agent with this id\<close>
  "agent_never_started events k =
     (\<forall>e\<in>set events. \<not> (hook_event_name e = Some ''SubagentStart'' \<and> agent_id e = k))"

definition tool_never_started :: "hook_input list \<Rightarrow> field \<Rightarrow> bool" where
  \<comment> \<open>no event of the sequence is the start of a tool use with this id\<close>
  "tool_never_started events k =
     (\<forall>e\<in>set events. \<not> (hook_event_name e = Some ''PreToolUse'' \<and> tool_use_id e = k))"


definition no_agent_start :: "hook_input list \<Rightarrow> bool" where
  \<comment> \<open>no event of the sequence is the start of an agent\<close>
  "no_agent_start events = (\<forall>e\<in>set events. hook_event_name e \<noteq> Some ''SubagentStart'')"

definition no_stop_of :: "field \<Rightarrow> hook_input list \<Rightarrow> bool" where
  \<comment> \<open>no event of the sequence is the stop of the agent with this id\<close>
  "no_stop_of k events =
     (\<forall>e\<in>set events. \<not> (hook_event_name e = Some ''SubagentStop'' \<and> agent_id e = k))"

section \<open>Example inputs\<close>

definition no_input :: hook_input where
  \<comment> \<open>a payload with every field missing\<close>
  "no_input =
     \<lparr>hook_event_name = None, session_id = None, prompt = None, cwd = None,
      permission_mode = None, agent_id = None, agent_type = None,
      agent_transcript_path = None, tool_name = None, tool_use_id = None,
      tool_input = Absent, tool_response = Absent, error = None\<rparr>"

definition start_agent :: "string \<Rightarrow> hook_input" where
  "start_agent a =
     no_input\<lparr>hook_event_name := Some ''SubagentStart'', session_id := Some ''S1'',
              agent_id := Some a, agent_type := Some ''code-reviewer''\<rparr>"

definition stop_agent :: "string \<Rightarrow> hook_input" where
  "stop_agent a =
     no_input\<lparr>hook_event_name := Some ''SubagentStop'', session_id := Some ''S1'',
              agent_id := Some a, agent_transcript_path := Some ''/tmp/t.jsonl''\<rparr>"

definition start_tool :: "string \<Rightarrow> field \<Rightarrow> hook_input" where
  \<comment> \<open>a tool start with use id \<open>u\<close> and the explicit agent id \<open>a\<close>, if any\<close>
  "start_tool u a =
     no_input\<lparr>hook_event_name := Some ''PreToolUse'', session_id := Some ''S1'',
              tool_name := Some ''Bash'', tool_use_id := Some u,
              tool_input := Serializable ''{}'', agent_id := a\<rparr>"

definition complete_tool :: "string \<Rightarrow> hook_input" where
  "complete_tool u =
     no_input\<lparr>hook_event_name := Some ''PostToolUse'', session_id := Some ''S1'',
              tool_name := Some ''Bash'', tool_use_id := Some u,
              tool_response := Serializable ''ok''\<rparr>"

definition fail_tool :: "string \<Rightarrow> string \<Rightarrow> hook_input" where
  "fail_tool u msg =
     no_input\<lparr>hook_event_name := Some ''PostToolUseFailure'', session_id := Some ''S1'',
              tool_name := Some ''Bash'', tool_use_id := Some u, error := Some msg\<rparr>"

definition wall_clock :: "nat \<Rightarrow> int" where
  \<comment> \<open>an example clock: ten milliseconds pass between two readings\<close>
  "wall_clock n = 1000 + 10 * int n"




section \<open>Lemmas about the model\<close>

subsection \<open>Maps\<close>

lemma Map_delete_set: "set (Map_delete m k) = {e \<in> set m. fst e \<noteq> k}"
  by (auto simp: Map_delete_def)

lemma Map_delete_distinct: "distinct (map f m) \<Longrightarrow> distinct (map f (Map_delete m k))"
  by (simp add: Map_delete_def distinct_map_filter)

lemma Map_delete_image: "f ` set (Map_delete m k) \<subseteq> f ` set m"
  by (auto simp: Map_delete_set)

lemma Map_get_in: "Map_get m k = Some d \<Longrightarrow> (k, d) \<in> set m"
  by (simp add: Map_get_def map_of_SomeD)

lemma Map_get_None: "Map_get m k = None \<longleftrightarrow> k \<notin> fst ` set m"
  by (simp add: Map_get_def map_of_eq_None_iff)

lemma Map_get_delete: "Map_get (Map_delete m k) k = None"
  by (auto simp: Map_get_None Map_delete_set)

lemma Map_get_deleted:
  assumes "Map_get m k = Some d" and "distinct (map (f \<circ> snd) m)"
  shows "f d \<notin> (f \<circ> snd) ` set (Map_delete m k)"
proof
  assume "f d \<in> (f \<circ> snd) ` set (Map_delete m k)"
  then obtain e where e: "e \<in> set m" "fst e \<noteq> k" "f (snd e) = f d"
    by (auto simp: Map_delete_set)
  have inj: "inj_on (f \<circ> snd) (set m)"
    using assms(2) by (simp add: distinct_map)
  have kd: "(k, d) \<in> set m"
    using assms(1) by (rule Map_get_in)
  have "(f \<circ> snd) e = (f \<circ> snd) (k, d)"
    using e by simp
  then have "e = (k, d)"
    using inj_onD [OF inj _ e(1) kd] by simp
  with e show False by simp
qed

lemma Map_set_set: "set (Map_set m k v) \<subseteq> insert (k, v) (set m)"
  by (induction m) (auto split: if_splits)

lemma Map_set_image: "f ` set (Map_set m k v) \<subseteq> insert (f (k, v)) (f ` set m)"
  using Map_set_set [of m k v] by auto

lemma Map_set_keys: "distinct (map fst m) \<Longrightarrow> distinct (map fst (Map_set m k v))"
proof (induction m)
  case Nil
  then show ?case by simp
next
  case (Cons e m)
  have "fst ` set (Map_set m k v) \<subseteq> insert k (fst ` set m)"
    using Map_set_image [of fst m k v] by simp
  with Cons show ?case by (cases e) auto
qed

lemma Map_set_vals:
  "distinct (map f m) \<Longrightarrow> f (k, v) \<notin> f ` set m \<Longrightarrow> distinct (map f (Map_set m k v))"
proof (induction m)
  case Nil
  then show ?case by simp
next
  case (Cons e m)
  have "f ` set (Map_set m k v) \<subseteq> insert (f (k, v)) (f ` set m)"
    by (rule Map_set_image)
  with Cons show ?case by (cases e) auto
qed

lemma Map_get_set_same: "Map_get (Map_set m k v) k = Some v"
  by (induction m) (auto simp: Map_get_def)

subsection \<open>The tracer\<close>

lemma length_tr_call [simp]: "length (tr_call h c tr) = length tr"
  by (simp add: tr_call_def)

lemma length_tr_start [simp]: "length (tr_start n p tr) = Suc (length tr)"
  by (simp add: tr_start_def)

lemma calls_tr_call:
  "calls (tr_call h c tr ! h') =
     (if h' = h \<and> h < length tr then calls (tr ! h) @ [c] else calls (tr ! h'))"
  by (auto simp: tr_call_def nth_list_update list_update_beyond not_less)

lemma nth_tr_start: "h < length tr \<Longrightarrow> tr_start n p tr ! h = tr ! h"
  by (simp add: tr_start_def nth_append)

lemma nth_tr_start_new:
  "h = length tr \<Longrightarrow> tr_start n p tr ! h = \<lparr>span_name = n, span_parent = p, calls = []\<rparr>"
  by (simp add: tr_start_def)

lemma Map_set_mem: "e \<in> set (Map_set m k v) \<Longrightarrow> e = (k, v) \<or> e \<in> set m"
  using Map_set_set [of m k v] by auto

lemma Map_delete_mem: "e \<in> set (Map_delete m k) \<Longrightarrow> e \<in> set m \<and> fst e \<noteq> k"
  by (simp add: Map_delete_set)

lemma ends_tr_call:
  "ends (tr_call h c tr ! h') =
     (if h' = h \<and> h < length tr \<and> c = End then Suc (ends (tr ! h')) else ends (tr ! h'))"
  by (simp add: ends_def calls_tr_call)

lemma ends_tr_start: "h < length tr \<Longrightarrow> ends (tr_start n p tr ! h) = ends (tr ! h)"
  by (simp add: nth_tr_start)

lemma ends_tr_start_new: "h = length tr \<Longrightarrow> ends (tr_start n p tr ! h) = 0"
  by (simp add: nth_tr_start_new ends_def)

lemma ends_0_iff: "ends sp = 0 \<longleftrightarrow> End \<notin> set (calls sp)"
  by (simp add: ends_def count_list_0_iff)

lemma grows_refl [simp]: "grows tr tr"
  by (simp add: grows_def)

lemma grows_start: "grows tr0 tr \<Longrightarrow> grows tr0 (tr_start n p tr)"
  by (simp add: grows_def ends_tr_start)

lemma grows_call:
  "grows tr0 tr \<Longrightarrow> c \<noteq> End \<or> length tr0 \<le> h \<Longrightarrow> grows tr0 (tr_call h c tr)"
  by (auto simp: grows_def ends_tr_call)

lemma all_open_grows: "all_open H tr \<Longrightarrow> grows tr tr' \<Longrightarrow> all_open H tr'"
  by (fastforce simp: all_open_def grows_def)

lemma all_open_mono: "all_open H tr \<Longrightarrow> H' \<subseteq> H \<Longrightarrow> all_open H' tr"
  by (auto simp: all_open_def)

lemma all_open_End: "all_open H tr \<Longrightarrow> H' \<subseteq> H - {h} \<Longrightarrow> all_open H' (tr_call h End tr)"
  by (auto simp: all_open_def ends_tr_call)

lemma Map_set_map: "map (map_prod id f) (Map_set m k v) = Map_set (map (map_prod id f) m) k (f v)"
  by (induction m) auto

lemma Map_delete_map: "map (map_prod id f) (Map_delete m k) = Map_delete (map (map_prod id f) m) k"
  by (induction m) (auto simp: Map_delete_def)

lemma Map_get_map: "Map_get (map (map_prod id f) m) k = map_option f (Map_get m k)"
  by (induction m) (auto simp: Map_get_def)

lemma reg_inv_grows: "reg_inv F T A tr \<Longrightarrow> grows tr tr' \<Longrightarrow> reg_inv F T A tr'"
  by (auto simp: reg_inv_def grows_def elim: all_open_grows [unfolded grows_def])

lemma reg_inv_lt:
  "reg_inv F T A tr \<Longrightarrow> h \<in> set F \<union> snd ` set T \<union> snd ` set A \<Longrightarrow> h < length tr"
  by (auto simp: reg_inv_def all_open_def)

lemma reg_inv_parts:
  assumes "reg_inv F T A tr"
  shows "distinct (map fst T)" "distinct (map fst A)" "distinct F"
    "distinct (map snd T)" "distinct (map snd A)"
    "snd ` set T \<inter> snd ` set A = {}" "set F \<inter> (snd ` set T \<union> snd ` set A) = {}"
    "all_open (snd ` set T \<union> snd ` set A) tr" "\<forall>h\<in>set F. h < length tr"
  using assms by (simp_all add: reg_inv_def)

lemma reg_inv_intro:
  assumes "distinct (map fst T)" "distinct (map fst A)" "distinct F"
    "distinct (map snd T)" "distinct (map snd A)"
    "snd ` set T \<inter> snd ` set A = {}" "set F \<inter> (snd ` set T \<union> snd ` set A) = {}"
    "all_open (snd ` set T \<union> snd ` set A) tr" "\<forall>h\<in>set F. h < length tr"
  shows "reg_inv F T A tr"
  using assms by (simp add: reg_inv_def)

lemma reg_inv_set_tool:
  assumes inv: "reg_inv F T A tr" and fresh: "h \<notin> set F \<union> snd ` set T \<union> snd ` set A"
    and lt: "h < length tr" and op: "ends (tr ! h) = 0"
  shows "reg_inv F (Map_set T k h) A tr"
proof (rule reg_inv_intro)
  note p = reg_inv_parts [OF inv]
  have sub: "snd ` set (Map_set T k h) \<subseteq> insert h (snd ` set T)"
    using Map_set_image [of snd T k h] by simp
  show "distinct (map fst (Map_set T k h))" using p(1) by (rule Map_set_keys)
  show "distinct (map fst A)" by (rule p(2))
  show "distinct F" by (rule p(3))
  show "distinct (map snd (Map_set T k h))"
    using Map_set_vals [of snd T k h] p(4) fresh by simp
  show "distinct (map snd A)" by (rule p(5))
  show "snd ` set (Map_set T k h) \<inter> snd ` set A = {}"
    using sub p(6) fresh by blast
  show "set F \<inter> (snd ` set (Map_set T k h) \<union> snd ` set A) = {}"
    using sub p(7) fresh by blast
  have "all_open (insert h (snd ` set T \<union> snd ` set A)) tr"
    using p(8) lt op by (simp add: all_open_def)
  then show "all_open (snd ` set (Map_set T k h) \<union> snd ` set A) tr"
    by (rule all_open_mono) (use sub in blast)
  show "\<forall>h\<in>set F. h < length tr" by (rule p(9))
qed

lemma reg_inv_set_agent:
  assumes inv: "reg_inv F T A tr" and fresh: "h \<notin> set F \<union> snd ` set T \<union> snd ` set A"
    and lt: "h < length tr" and op: "ends (tr ! h) = 0"
  shows "reg_inv F T (Map_set A k h) tr"
proof (rule reg_inv_intro)
  note p = reg_inv_parts [OF inv]
  have sub: "snd ` set (Map_set A k h) \<subseteq> insert h (snd ` set A)"
    using Map_set_image [of snd A k h] by simp
  show "distinct (map fst T)" by (rule p(1))
  show "distinct (map fst (Map_set A k h))" using p(2) by (rule Map_set_keys)
  show "distinct F" by (rule p(3))
  show "distinct (map snd T)" by (rule p(4))
  show "distinct (map snd (Map_set A k h))"
    using Map_set_vals [of snd A k h] p(5) fresh by simp
  show "snd ` set T \<inter> snd ` set (Map_set A k h) = {}"
    using sub p(6) fresh by blast
  show "set F \<inter> (snd ` set T \<union> snd ` set (Map_set A k h)) = {}"
    using sub p(7) fresh by blast
  have "all_open (insert h (snd ` set T \<union> snd ` set A)) tr"
    using p(8) lt op by (simp add: all_open_def)
  then show "all_open (snd ` set T \<union> snd ` set (Map_set A k h)) tr"
    by (rule all_open_mono) (use sub in blast)
  show "\<forall>h\<in>set F. h < length tr" by (rule p(9))
qed

lemma reg_inv_close_tool:
  assumes inv: "reg_inv F T A tr" and get: "Map_get T k = Some h"
  shows "reg_inv F (Map_delete T k) A (tr_call h End tr)"
proof (rule reg_inv_intro)
  note p = reg_inv_parts [OF inv]
  have nin: "h \<notin> snd ` set (Map_delete T k)"
    using Map_get_deleted [of T k h id] get p(4) by simp
  have hT: "h \<in> snd ` set T"
    using Map_get_in [OF get] by force
  have sub: "snd ` set (Map_delete T k) \<subseteq> snd ` set T"
    by (rule Map_delete_image)
  have hA: "h \<notin> snd ` set A"
    using p(6) hT by blast
  show "distinct (map fst (Map_delete T k))" using p(1) by (rule Map_delete_distinct)
  show "distinct (map fst A)" by (rule p(2))
  show "distinct F" by (rule p(3))
  show "distinct (map snd (Map_delete T k))" using p(4) by (rule Map_delete_distinct)
  show "distinct (map snd A)" by (rule p(5))
  show "snd ` set (Map_delete T k) \<inter> snd ` set A = {}"
    using sub p(6) by blast
  show "set F \<inter> (snd ` set (Map_delete T k) \<union> snd ` set A) = {}"
    using sub p(7) by blast
  show "all_open (snd ` set (Map_delete T k) \<union> snd ` set A) (tr_call h End tr)"
    using p(8) by (rule all_open_End) (use nin sub hA in blast)
  show "\<forall>h'\<in>set F. h' < length (tr_call h End tr)" using p(9) by simp
qed

lemma reg_inv_close_agent:
  assumes inv: "reg_inv F T A tr" and get: "Map_get A k = Some h"
  shows "reg_inv F T (Map_delete A k) (tr_call h End tr)"
proof (rule reg_inv_intro)
  note p = reg_inv_parts [OF inv]
  have nin: "h \<notin> snd ` set (Map_delete A k)"
    using Map_get_deleted [of A k h id] get p(5) by simp
  have hA: "h \<in> snd ` set A"
    using Map_get_in [OF get] by force
  have sub: "snd ` set (Map_delete A k) \<subseteq> snd ` set A"
    by (rule Map_delete_image)
  have hT: "h \<notin> snd ` set T"
    using p(6) hA by blast
  show "distinct (map fst T)" by (rule p(1))
  show "distinct (map fst (Map_delete A k))" using p(2) by (rule Map_delete_distinct)
  show "distinct F" by (rule p(3))
  show "distinct (map snd T)" by (rule p(4))
  show "distinct (map snd (Map_delete A k))" using p(5) by (rule Map_delete_distinct)
  show "snd ` set T \<inter> snd ` set (Map_delete A k) = {}"
    using sub p(6) by blast
  show "set F \<inter> (snd ` set T \<union> snd ` set (Map_delete A k)) = {}"
    using sub p(7) by blast
  show "all_open (snd ` set T \<union> snd ` set (Map_delete A k)) (tr_call h End tr)"
    using p(8) by (rule all_open_End) (use nin sub hT in blast)
  show "\<forall>h'\<in>set F. h' < length (tr_call h End tr)" using p(9) by simp
qed

lemma st_withAgentTelemetry_eq:
  "st_withAgentTelemetry tr =
     \<lparr>tracer = tr_start ''agent.session'' (SpanContext (length tr))
                 (tr_call (length tr) End (tr_start ''agent.root'' ActiveContext tr)),
      st_agentSpans = [], st_toolSpans = [],
      st_rootSpan = length tr, st_rootSpanContext = SpanContext (length tr),
      st_sessionSpan = Suc (length tr), st_sessionSpanContext = SpanContext (Suc (length tr))\<rparr>"
  by (simp add: st_withAgentTelemetry_def startSpan_def on_span_def Let_def)

lemma st_inv_init: "st_inv (st_withAgentTelemetry tr)"
  unfolding st_inv_def st_withAgentTelemetry_eq
  by (simp add: st_tools_def st_agents_def reg_inv_def all_open_def
      ends_tr_start ends_tr_call ends_tr_start_new)

lemma reg_inv_fresh: "reg_inv F T A tr \<Longrightarrow> length tr \<notin> set F \<union> snd ` set T \<union> snd ` set A"
  using reg_inv_lt [of F T A tr "length tr"] by blast

lemma st_views [simp]:
  "st_tools (s\<lparr>tracer := tr\<rparr>) = st_tools s"
  "st_agents (s\<lparr>tracer := tr\<rparr>) = st_agents s"
  "st_tools (s\<lparr>st_agentSpans := m\<rparr>) = st_tools s"
  "st_agents (s\<lparr>st_toolSpans := m\<rparr>) = st_agents s"
  "st_tools (s\<lparr>st_toolSpans := Map_set (st_toolSpans s') k v\<rparr>) = Map_set (st_tools s') k (st_span v)"
  "st_agents (s\<lparr>st_agentSpans := Map_set (st_agentSpans s') k v\<rparr>) = Map_set (st_agents s') k (st_span v)"
  "st_tools (s\<lparr>st_toolSpans := Map_delete (st_toolSpans s') k\<rparr>) = Map_delete (st_tools s') k"
  "st_agents (s\<lparr>st_agentSpans := Map_delete (st_agentSpans s') k\<rparr>) = Map_delete (st_agents s') k"
  by (simp_all add: st_tools_def st_agents_def Map_set_map Map_delete_map)

lemma st_inv_lt:
  assumes "st_inv s"
  shows "st_rootSpan s < length (tracer s)" "st_sessionSpan s < length (tracer s)"
    "st_rootSpan s \<noteq> st_sessionSpan s"
  using assms by (simp_all add: st_inv_def reg_inv_def)

lemma st_inv_grows:
  assumes "st_inv s" and "grows (tracer s) tr'"
  shows "st_inv (s\<lparr>tracer := tr'\<rparr>)"
  using assms st_inv_lt [OF assms(1)]
  by (auto simp: st_inv_def grows_def intro: reg_inv_grows [unfolded grows_def])

lemma st_inv_register_tool:
  assumes "st_inv s" and "grows (tracer s) tr'" and "length (tracer s) < length tr'"
    and "ends (tr' ! length (tracer s)) = 0" and "st_span e = length (tracer s)"
  shows "st_inv (s\<lparr>tracer := tr', st_toolSpans := Map_set (st_toolSpans s) k e\<rparr>)"
proof -
  have r: "reg_inv [st_rootSpan s, st_sessionSpan s] (st_tools s) (st_agents s) (tracer s)"
    using assms(1) by (simp add: st_inv_def)
  have "reg_inv [st_rootSpan s, st_sessionSpan s] (Map_set (st_tools s) k (length (tracer s)))
          (st_agents s) tr'"
    using reg_inv_grows [OF r assms(2)] reg_inv_fresh [OF r] assms(3,4)
    by (rule reg_inv_set_tool)
  then show ?thesis
    using st_inv_grows [OF assms(1,2)] assms(5) by (simp add: st_inv_def)
qed

lemma st_inv_register_agent:
  assumes "st_inv s" and "grows (tracer s) tr'" and "length (tracer s) < length tr'"
    and "ends (tr' ! length (tracer s)) = 0" and "st_span e = length (tracer s)"
  shows "st_inv (s\<lparr>tracer := tr', st_agentSpans := Map_set (st_agentSpans s) k e\<rparr>)"
proof -
  have r: "reg_inv [st_rootSpan s, st_sessionSpan s] (st_tools s) (st_agents s) (tracer s)"
    using assms(1) by (simp add: st_inv_def)
  have "reg_inv [st_rootSpan s, st_sessionSpan s] (st_tools s)
          (Map_set (st_agents s) k (length (tracer s))) tr'"
    using reg_inv_grows [OF r assms(2)] reg_inv_fresh [OF r] assms(3,4)
    by (rule reg_inv_set_agent)
  then show ?thesis
    using st_inv_grows [OF assms(1,2)] assms(5) by (simp add: st_inv_def)
qed

lemma st_inv_close_tool:
  assumes "st_inv s" and "grows (tracer s) tr'" and "Map_get (st_toolSpans s) k = Some d"
  shows "st_inv (s\<lparr>tracer := tr_call (st_span d) End tr',
                   st_toolSpans := Map_delete (st_toolSpans s) k\<rparr>)"
proof -
  have r: "reg_inv [st_rootSpan s, st_sessionSpan s] (st_tools s) (st_agents s) (tracer s)"
    using assms(1) by (simp add: st_inv_def)
  have g: "Map_get (st_tools s) k = Some (st_span d)"
    using assms(3) by (simp add: st_tools_def Map_get_map)
  have c: "reg_inv [st_rootSpan s, st_sessionSpan s] (Map_delete (st_tools s) k) (st_agents s)
          (tr_call (st_span d) End tr')"
    using reg_inv_grows [OF r assms(2)] g by (rule reg_inv_close_tool)
  have "st_span d \<in> snd ` set (st_tools s)"
    using Map_get_in [OF g] by force
  then have "st_span d \<notin> set [st_rootSpan s, st_sessionSpan s]"
    using reg_inv_parts(7) [OF r] by blast
  then have "st_span d \<noteq> st_rootSpan s" "st_span d \<noteq> st_sessionSpan s"
    by simp_all
  then show ?thesis
    using st_inv_grows [OF assms(1,2)] c by (simp add: st_inv_def ends_tr_call)
qed

lemma st_inv_close_agent:
  assumes "st_inv s" and "grows (tracer s) tr'" and "Map_get (st_agentSpans s) k = Some d"
  shows "st_inv (s\<lparr>tracer := tr_call (st_span d) End tr',
                   st_agentSpans := Map_delete (st_agentSpans s) k\<rparr>)"
proof -
  have r: "reg_inv [st_rootSpan s, st_sessionSpan s] (st_tools s) (st_agents s) (tracer s)"
    using assms(1) by (simp add: st_inv_def)
  have g: "Map_get (st_agents s) k = Some (st_span d)"
    using assms(3) by (simp add: st_agents_def Map_get_map)
  have c: "reg_inv [st_rootSpan s, st_sessionSpan s] (st_tools s) (Map_delete (st_agents s) k)
          (tr_call (st_span d) End tr')"
    using reg_inv_grows [OF r assms(2)] g by (rule reg_inv_close_agent)
  have "st_span d \<in> snd ` set (st_agents s)"
    using Map_get_in [OF g] by force
  then have "st_span d \<notin> set [st_rootSpan s, st_sessionSpan s]"
    using reg_inv_parts(7) [OF r] by blast
  then have "st_span d \<noteq> st_rootSpan s" "st_span d \<noteq> st_sessionSpan s"
    by simp_all
  then show ?thesis
    using st_inv_grows [OF assms(1,2)] c by (simp add: st_inv_def ends_tr_call)
qed

lemmas grows_intros = grows_start grows_call grows_refl

lemma st_SubagentStart_inv: "st_inv s \<Longrightarrow> st_inv (snd (st_SubagentStart inp s))"
  by (auto simp: st_SubagentStart_def Let_def startSpan_def setAttributes_def on_span_def
      ends_tr_call ends_tr_start_new
      intro!: st_inv_register_agent grows_intros)

lemma st_SubagentStop_inv: "st_inv s \<Longrightarrow> st_inv (snd (st_SubagentStop inp s))"
  by (auto simp: st_SubagentStop_def Let_def on_span_def
      split: option.splits intro!: st_inv_close_agent grows_intros)

lemma st_PreToolUse_inv: "st_inv s \<Longrightarrow> st_inv (snd (st_PreToolUse inp s))"
  by (auto simp: st_PreToolUse_def Let_def startSpan_def setAttributes_def on_span_def
      ends_tr_call ends_tr_start_new
      split: sum.splits intro!: st_inv_register_tool st_inv_grows grows_intros)

lemma st_PostToolUse_inv: "st_inv s \<Longrightarrow> st_inv (snd (st_PostToolUse inp s))"
  by (auto simp: st_PostToolUse_def Let_def on_span_def
      split: option.splits sum.splits intro!: st_inv_close_tool grows_intros)

lemma st_PostToolUseFailure_inv: "st_inv s \<Longrightarrow> st_inv (snd (st_PostToolUseFailure inp s))"
  by (auto simp: st_PostToolUseFailure_def Let_def on_span_def
      split: option.splits intro!: st_inv_close_tool grows_intros)

lemma st_UserPromptSubmit_inv: "st_inv s \<Longrightarrow> st_inv (snd (st_UserPromptSubmit inp s))"
  by (auto simp: st_UserPromptSubmit_def Let_def startSpan_def setAttributes_def on_span_def
      split: sum.splits option.splits intro!: st_inv_grows grows_intros)

lemma hook_marker_grows:
  "\<exists>tr'. snd (hook_marker ev nm ctx inp s) = s\<lparr>tracer := tr'\<rparr> \<and> grows (tracer s) tr'"
proof (cases "hook_event_name inp = Some ev")
  case True
  then show ?thesis
    by (auto simp: hook_marker_def Let_def startSpan_def setAttributes_def on_span_def
        intro!: exI grows_intros)
next
  case False
  have "s\<lparr>tracer := tracer s\<rparr> = s" by simp
  with False show ?thesis
    by (auto simp: hook_marker_def intro!: exI [of _ "tracer s"])
qed

lemma st_marker_inv: "st_inv s \<Longrightarrow> st_inv (snd (hook_marker ev nm ctx inp s))"
  using hook_marker_grows [of ev nm ctx inp s] by (auto intro: st_inv_grows)

lemma st_hooks_inv:
  assumes "(n, hook) \<in> set st_hooks" and "st_inv s"
  shows "st_inv (snd (hook inp s))"
  using assms
  by (auto simp: st_hooks_def st_SessionStart_def st_SessionEnd_def st_Notification_def
      st_PermissionRequest_def st_PreCompact_def st_Stop_def st_Setup_def
      intro: st_UserPromptSubmit_inv st_SubagentStart_inv st_SubagentStop_inv st_PreToolUse_inv
        st_PostToolUse_inv st_PostToolUseFailure_inv st_marker_inv)

lemma st_deliver_inv: "st_inv s \<Longrightarrow> st_inv (deliver st_hooks inp s)"
  by (auto simp: deliver_def split: option.splits dest!: map_of_SomeD intro: st_hooks_inv)

lemma st_run_inv: "st_inv s \<Longrightarrow> st_inv (run st_hooks events s)"
  unfolding run_def by (induction events arbitrary: s) (simp_all add: st_deliver_inv)

lemma Map_delete_head: "distinct (map fst ((k, d) # m)) \<Longrightarrow> Map_delete ((k, d) # m) k = m"
  by (auto simp: Map_delete_def filter_id_conv)

declare st_sweep_tools.simps [simp del] st_sweep_agents.simps [simp del]

lemma st_sweep_tools_effect:
  "distinct (map fst (st_toolSpans s)) \<Longrightarrow> distinct (map (st_span \<circ> snd) (st_toolSpans s)) \<Longrightarrow>
   \<forall>e\<in>set (st_toolSpans s). st_span (snd e) < length (tracer s) \<Longrightarrow>
   \<exists>tr'. st_sweep_tools s = s\<lparr>tracer := tr', st_toolSpans := []\<rparr> \<and>
         length tr' = length (tracer s) \<and>
         (\<forall>h. calls (tr' ! h) =
            (if h \<in> (st_span \<circ> snd) ` set (st_toolSpans s)
             then calls (tracer s ! h) @ orphan_calls ''Orphaned span'' else calls (tracer s ! h)))"
proof (induction s rule: st_sweep_tools.induct)
  case (1 s)
  show ?case
  proof (cases "st_toolSpans s")
    case Nil
    have "s\<lparr>tracer := tracer s, st_toolSpans := []\<rparr> = s" using Nil by simp
    then show ?thesis
      using Nil by (subst st_sweep_tools.simps) (auto intro!: exI [of _ "tracer s"])
  next
    case (Cons e rest)
    obtain k d where e: "e = (k, d)" by (cases e)
    let ?tr1 = "tr_call (st_span d) End (tr_call (st_span d) (SetStatus ERROR (Some ''Orphaned span'')) (tracer s))"
    let ?s' = "s\<lparr>tracer := ?tr1, st_toolSpans := rest\<rparr>"
    have del: "Map_delete (st_toolSpans s) k = rest"
      using "1.prems"(1) Cons e by (simp add: Map_delete_head)
    have step: "st_sweep_tools s = st_sweep_tools ?s'"
      using Cons e del by (subst st_sweep_tools.simps) (simp add: Let_def on_span_def)
    have lt: "st_span d < length (tracer s)"
      using "1.prems"(3) Cons e by simp
    have nin: "st_span d \<notin> (st_span \<circ> snd) ` set rest"
      using "1.prems"(2) Cons e by auto
    have "\<exists>tr'. st_sweep_tools ?s' = ?s'\<lparr>tracer := tr', st_toolSpans := []\<rparr> \<and>
         length tr' = length (tracer ?s') \<and>
         (\<forall>h. calls (tr' ! h) =
            (if h \<in> (st_span \<circ> snd) ` set (st_toolSpans ?s')
             then calls (tracer ?s' ! h) @ orphan_calls ''Orphaned span'' else calls (tracer ?s' ! h)))"
      using "1.IH" [OF Cons e [symmetric] refl refl] "1.prems" Cons e del
      by (simp add: on_span_def cong: if_cong)
    then obtain tr' where tr': "st_sweep_tools ?s' = ?s'\<lparr>tracer := tr', st_toolSpans := []\<rparr>"
      "length tr' = length (tracer s)"
      "\<forall>h. calls (tr' ! h) =
            (if h \<in> (st_span \<circ> snd) ` set rest
             then calls (?tr1 ! h) @ orphan_calls ''Orphaned span'' else calls (?tr1 ! h))"
      by auto
    have "\<forall>h. calls (tr' ! h) =
            (if h \<in> (st_span \<circ> snd) ` set (st_toolSpans s)
             then calls (tracer s ! h) @ orphan_calls ''Orphaned span'' else calls (tracer s ! h))"
      using tr'(3) nin lt Cons e by (auto simp: calls_tr_call orphan_calls_def)
    then show ?thesis
      using step tr'(1,2) by (intro exI [of _ tr']) simp
  qed
qed

lemma st_sweep_agents_effect:
  "distinct (map fst (st_agentSpans s)) \<Longrightarrow> distinct (map (st_span \<circ> snd) (st_agentSpans s)) \<Longrightarrow>
   \<forall>e\<in>set (st_agentSpans s). st_span (snd e) < length (tracer s) \<Longrightarrow>
   \<exists>tr'. st_sweep_agents s = s\<lparr>tracer := tr', st_agentSpans := []\<rparr> \<and>
         length tr' = length (tracer s) \<and>
         (\<forall>h. calls (tr' ! h) =
            (if h \<in> (st_span \<circ> snd) ` set (st_agentSpans s)
             then calls (tracer s ! h) @ orphan_calls ''Orphaned span'' else calls (tracer s ! h)))"
proof (induction s rule: st_sweep_agents.induct)
  case (1 s)
  show ?case
  proof (cases "st_agentSpans s")
    case Nil
    have "s\<lparr>tracer := tracer s, st_agentSpans := []\<rparr> = s" using Nil by simp
    then show ?thesis
      using Nil by (subst st_sweep_agents.simps) (auto intro!: exI [of _ "tracer s"])
  next
    case (Cons e rest)
    obtain k d where e: "e = (k, d)" by (cases e)
    let ?tr1 = "tr_call (st_span d) End (tr_call (st_span d) (SetStatus ERROR (Some ''Orphaned span'')) (tracer s))"
    let ?s' = "s\<lparr>tracer := ?tr1, st_agentSpans := rest\<rparr>"
    have del: "Map_delete (st_agentSpans s) k = rest"
      using "1.prems"(1) Cons e by (simp add: Map_delete_head)
    have step: "st_sweep_agents s = st_sweep_agents ?s'"
      using Cons e del by (subst st_sweep_agents.simps) (simp add: Let_def on_span_def)
    have lt: "st_span d < length (tracer s)"
      using "1.prems"(3) Cons e by simp
    have nin: "st_span d \<notin> (st_span \<circ> snd) ` set rest"
      using "1.prems"(2) Cons e by auto
    have "\<exists>tr'. st_sweep_agents ?s' = ?s'\<lparr>tracer := tr', st_agentSpans := []\<rparr> \<and>
         length tr' = length (tracer ?s') \<and>
         (\<forall>h. calls (tr' ! h) =
            (if h \<in> (st_span \<circ> snd) ` set (st_agentSpans ?s')
             then calls (tracer ?s' ! h) @ orphan_calls ''Orphaned span'' else calls (tracer ?s' ! h)))"
      using "1.IH" [OF Cons e [symmetric] refl refl] "1.prems" Cons e del
      by (simp add: on_span_def cong: if_cong)
    then obtain tr' where tr': "st_sweep_agents ?s' = ?s'\<lparr>tracer := tr', st_agentSpans := []\<rparr>"
      "length tr' = length (tracer s)"
      "\<forall>h. calls (tr' ! h) =
            (if h \<in> (st_span \<circ> snd) ` set rest
             then calls (?tr1 ! h) @ orphan_calls ''Orphaned span'' else calls (?tr1 ! h))"
      by auto
    have "\<forall>h. calls (tr' ! h) =
            (if h \<in> (st_span \<circ> snd) ` set (st_agentSpans s)
             then calls (tracer s ! h) @ orphan_calls ''Orphaned span'' else calls (tracer s ! h))"
      using tr'(3) nin lt Cons e by (auto simp: calls_tr_call orphan_calls_def)
    then show ?thesis
      using step tr'(1,2) by (intro exI [of _ tr']) simp
  qed
qed

lemma st_views_image:
  "snd ` set (st_tools s) = (st_span \<circ> snd) ` set (st_toolSpans s)"
  "snd ` set (st_agents s) = (st_span \<circ> snd) ` set (st_agentSpans s)"
  "map fst (st_tools s) = map fst (st_toolSpans s)"
  "map fst (st_agents s) = map fst (st_agentSpans s)"
  "map snd (st_tools s) = map (st_span \<circ> snd) (st_toolSpans s)"
  "map snd (st_agents s) = map (st_span \<circ> snd) (st_agentSpans s)"
  by (simp_all add: st_tools_def st_agents_def image_image comp_def)

lemma st_cleanup_effect:
  assumes "st_inv s"
  shows "\<exists>tr'. st_cleanup s = s\<lparr>tracer := tr', st_toolSpans := [], st_agentSpans := []\<rparr> \<and>
         length tr' = length (tracer s) \<and>
         (\<forall>h. calls (tr' ! h) =
            (if h \<in> (st_span \<circ> snd) ` (set (st_toolSpans s) \<union> set (st_agentSpans s))
             then calls (tracer s ! h) @ orphan_calls ''Orphaned span''
             else if h = st_sessionSpan s then calls (tracer s ! h) @ [SetStatus OK None, End]
             else calls (tracer s ! h)))"
proof -
  have r: "reg_inv [st_rootSpan s, st_sessionSpan s] (st_tools s) (st_agents s) (tracer s)"
    using assms by (simp add: st_inv_def)
  note p = reg_inv_parts [OF r, unfolded st_views_image]
  have ltT: "\<forall>e\<in>set (st_toolSpans s). st_span (snd e) < length (tracer s)"
    and ltA: "\<forall>e\<in>set (st_agentSpans s). st_span (snd e) < length (tracer s)"
    using p(8) by (auto simp: all_open_def)
  obtain tr1 where t1: "st_sweep_tools s = s\<lparr>tracer := tr1, st_toolSpans := []\<rparr>"
      "length tr1 = length (tracer s)"
      "\<forall>h. calls (tr1 ! h) =
            (if h \<in> (st_span \<circ> snd) ` set (st_toolSpans s)
             then calls (tracer s ! h) @ orphan_calls ''Orphaned span'' else calls (tracer s ! h))"
    using st_sweep_tools_effect [OF p(1) p(4) ltT] by auto
  let ?s1 = "s\<lparr>tracer := tr1, st_toolSpans := []\<rparr>"
  have "\<exists>tr'. st_sweep_agents ?s1 = ?s1\<lparr>tracer := tr', st_agentSpans := []\<rparr> \<and>
         length tr' = length (tracer ?s1) \<and>
         (\<forall>h. calls (tr' ! h) =
            (if h \<in> (st_span \<circ> snd) ` set (st_agentSpans ?s1)
             then calls (tracer ?s1 ! h) @ orphan_calls ''Orphaned span'' else calls (tracer ?s1 ! h)))"
    using p(2) p(5) ltA t1(2) by (intro st_sweep_agents_effect) simp_all
  then obtain tr2 where t2: "st_sweep_agents ?s1 = ?s1\<lparr>tracer := tr2, st_agentSpans := []\<rparr>"
      "length tr2 = length (tracer s)"
      "\<forall>h. calls (tr2 ! h) =
            (if h \<in> (st_span \<circ> snd) ` set (st_agentSpans s)
             then calls (tr1 ! h) @ orphan_calls ''Orphaned span'' else calls (tr1 ! h))"
    using t1(2) by auto
  let ?tr3 = "tr_call (st_sessionSpan s) End (tr_call (st_sessionSpan s) (SetStatus OK None) tr2)"
  have c: "st_cleanup s = s\<lparr>tracer := ?tr3, st_toolSpans := [], st_agentSpans := []\<rparr>"
    by (simp add: st_cleanup_def t1(1) t2(1) Let_def on_span_def)
  have ss: "st_sessionSpan s < length (tracer s)"
    "st_sessionSpan s \<notin> (st_span \<circ> snd) ` set (st_toolSpans s)"
    "st_sessionSpan s \<notin> (st_span \<circ> snd) ` set (st_agentSpans s)"
    using st_inv_lt [OF assms] p(7) by auto
  have "\<forall>h. calls (?tr3 ! h) =
            (if h \<in> (st_span \<circ> snd) ` (set (st_toolSpans s) \<union> set (st_agentSpans s))
             then calls (tracer s ! h) @ orphan_calls ''Orphaned span''
             else if h = st_sessionSpan s then calls (tracer s ! h) @ [SetStatus OK None, End]
             else calls (tracer s ! h))"
    using t1(3) t2(3) t2(2) ss p(6) by (auto simp: calls_tr_call image_Un)
  then show ?thesis
    using c t2(2) by (intro exI [of _ ?tr3]) simp
qed

subsection \<open>By-agent invariant\<close>

declare ba_sweep_tools.simps [simp del] ba_sweep_agents.simps [simp del]

lemma ba_withAgentTelemetry_eq:
  "ba_withAgentTelemetry tr =
     \<lparr>tracer = tr_start ''session'' ActiveContext tr,
      ba_agentTraces = [], ba_toolSpans = [],
      ba_sessionSpan = length tr, ba_sessionSpanContext = SpanContext (length tr),
      ba_currentAgentId = None\<rparr>"
  by (simp add: ba_withAgentTelemetry_def startSpan_def Let_def)

lemma ba_inv_init: "ba_inv (ba_withAgentTelemetry tr)"
  unfolding ba_inv_def ba_withAgentTelemetry_eq
  by (simp add: ba_tools_def ba_agents_def reg_inv_def all_open_def ends_tr_start_new)

lemma ba_views [simp]:
  "ba_tools (s\<lparr>tracer := tr\<rparr>) = ba_tools s"
  "ba_agents (s\<lparr>tracer := tr\<rparr>) = ba_agents s"
  "ba_tools (s\<lparr>ba_currentAgentId := c\<rparr>) = ba_tools s"
  "ba_agents (s\<lparr>ba_currentAgentId := c\<rparr>) = ba_agents s"
  "ba_tools (s\<lparr>ba_agentTraces := m'\<rparr>) = ba_tools s"
  "ba_agents (s\<lparr>ba_toolSpans := m\<rparr>) = ba_agents s"
  "ba_tools (s\<lparr>ba_toolSpans := Map_set (ba_toolSpans s') k v\<rparr>) = Map_set (ba_tools s') k (ba_span v)"
  "ba_agents (s\<lparr>ba_agentTraces := Map_set (ba_agentTraces s') k t\<rparr>) = Map_set (ba_agents s') k (rootSpan t)"
  "ba_tools (s\<lparr>ba_toolSpans := Map_delete (ba_toolSpans s') k\<rparr>) = Map_delete (ba_tools s') k"
  "ba_agents (s\<lparr>ba_agentTraces := Map_delete (ba_agentTraces s') k\<rparr>) = Map_delete (ba_agents s') k"
  by (simp_all add: ba_tools_def ba_agents_def Map_set_map Map_delete_map)

lemma ba_views_image:
  "snd ` set (ba_tools s) = (ba_span \<circ> snd) ` set (ba_toolSpans s)"
  "snd ` set (ba_agents s) = (rootSpan \<circ> snd) ` set (ba_agentTraces s)"
  "map fst (ba_tools s) = map fst (ba_toolSpans s)"
  "map fst (ba_agents s) = map fst (ba_agentTraces s)"
  "map snd (ba_tools s) = map (ba_span \<circ> snd) (ba_toolSpans s)"
  "map snd (ba_agents s) = map (rootSpan \<circ> snd) (ba_agentTraces s)"
  by (simp_all add: ba_tools_def ba_agents_def image_image comp_def)

lemma ba_inv_lt: "ba_inv s \<Longrightarrow> ba_sessionSpan s < length (tracer s)"
  by (simp add: ba_inv_def reg_inv_def)

lemma ba_inv_current [simp]: "ba_inv (s\<lparr>ba_currentAgentId := c\<rparr>) = ba_inv s"
  by (simp add: ba_inv_def)

lemma ba_inv_grows:
  assumes "ba_inv s" and "grows (tracer s) tr'"
  shows "ba_inv (s\<lparr>tracer := tr'\<rparr>)"
  using assms ba_inv_lt [OF assms(1)]
  by (auto simp: ba_inv_def grows_def intro: reg_inv_grows [unfolded grows_def])

lemma ba_inv_register_tool:
  assumes "ba_inv s" and "grows (tracer s) tr'" and "length (tracer s) < length tr'"
    and "ends (tr' ! length (tracer s)) = 0" and "ba_span e = length (tracer s)"
  shows "ba_inv (s\<lparr>tracer := tr', ba_toolSpans := Map_set (ba_toolSpans s) k e\<rparr>)"
proof -
  have r: "reg_inv [ba_sessionSpan s] (ba_tools s) (ba_agents s) (tracer s)"
    using assms(1) by (simp add: ba_inv_def)
  have "reg_inv [ba_sessionSpan s] (Map_set (ba_tools s) k (length (tracer s)))
          (ba_agents s) tr'"
    using reg_inv_grows [OF r assms(2)] reg_inv_fresh [OF r] assms(3,4)
    by (rule reg_inv_set_tool)
  then show ?thesis
    using ba_inv_grows [OF assms(1,2)] assms(5) by (simp add: ba_inv_def)
qed

lemma ba_inv_register_agent:
  assumes "ba_inv s" and "grows (tracer s) tr'" and "length (tracer s) < length tr'"
    and "ends (tr' ! length (tracer s)) = 0" and "rootSpan t = length (tracer s)"
  shows "ba_inv (s\<lparr>tracer := tr', ba_agentTraces := Map_set (ba_agentTraces s) k t\<rparr>)"
proof -
  have r: "reg_inv [ba_sessionSpan s] (ba_tools s) (ba_agents s) (tracer s)"
    using assms(1) by (simp add: ba_inv_def)
  have "reg_inv [ba_sessionSpan s] (ba_tools s)
          (Map_set (ba_agents s) k (length (tracer s))) tr'"
    using reg_inv_grows [OF r assms(2)] reg_inv_fresh [OF r] assms(3,4)
    by (rule reg_inv_set_agent)
  then show ?thesis
    using ba_inv_grows [OF assms(1,2)] assms(5) by (simp add: ba_inv_def)
qed

lemma ba_inv_close_tool:
  assumes "ba_inv s" and "grows (tracer s) tr'" and "Map_get (ba_toolSpans s) k = Some d"
  shows "ba_inv (s\<lparr>tracer := tr_call (ba_span d) End tr',
                   ba_toolSpans := Map_delete (ba_toolSpans s) k\<rparr>)"
proof -
  have r: "reg_inv [ba_sessionSpan s] (ba_tools s) (ba_agents s) (tracer s)"
    using assms(1) by (simp add: ba_inv_def)
  have g: "Map_get (ba_tools s) k = Some (ba_span d)"
    using assms(3) by (simp add: ba_tools_def Map_get_map)
  have c: "reg_inv [ba_sessionSpan s] (Map_delete (ba_tools s) k) (ba_agents s)
          (tr_call (ba_span d) End tr')"
    using reg_inv_grows [OF r assms(2)] g by (rule reg_inv_close_tool)
  have "ba_span d \<in> snd ` set (ba_tools s)"
    using Map_get_in [OF g] by force
  then have "ba_span d \<notin> set [ba_sessionSpan s]"
    using reg_inv_parts(7) [OF r] by blast
  then have "ba_span d \<noteq> ba_sessionSpan s"
    by simp
  then show ?thesis
    using ba_inv_grows [OF assms(1,2)] c by (simp add: ba_inv_def ends_tr_call)
qed

lemma ba_inv_close_agent:
  assumes "ba_inv s" and "grows (tracer s) tr'" and "Map_get (ba_agentTraces s) k = Some t"
  shows "ba_inv (s\<lparr>tracer := tr_call (rootSpan t) End tr',
                   ba_agentTraces := Map_delete (ba_agentTraces s) k\<rparr>)"
proof -
  have r: "reg_inv [ba_sessionSpan s] (ba_tools s) (ba_agents s) (tracer s)"
    using assms(1) by (simp add: ba_inv_def)
  have g: "Map_get (ba_agents s) k = Some (rootSpan t)"
    using assms(3) by (simp add: ba_agents_def Map_get_map)
  have c: "reg_inv [ba_sessionSpan s] (ba_tools s) (Map_delete (ba_agents s) k)
          (tr_call (rootSpan t) End tr')"
    using reg_inv_grows [OF r assms(2)] g by (rule reg_inv_close_agent)
  have "rootSpan t \<in> snd ` set (ba_agents s)"
    using Map_get_in [OF g] by force
  then have "rootSpan t \<notin> set [ba_sessionSpan s]"
    using reg_inv_parts(7) [OF r] by blast
  then have "rootSpan t \<noteq> ba_sessionSpan s"
    by simp
  then show ?thesis
    using ba_inv_grows [OF assms(1,2)] c by (simp add: ba_inv_def ends_tr_call)
qed

lemma ba_SubagentStart_inv: "ba_inv s \<Longrightarrow> ba_inv (snd (ba_SubagentStart inp s))"
  by (auto simp: ba_SubagentStart_def Let_def startSpan_def setAttributes_def on_span_def
      ends_tr_call ends_tr_start_new
      intro!: ba_inv_register_agent grows_intros)

lemma ba_SubagentStop_inv: "ba_inv s \<Longrightarrow> ba_inv (snd (ba_SubagentStop inp s))"
  by (auto simp: ba_SubagentStop_def Let_def on_span_def
      split: option.splits intro!: ba_inv_close_agent grows_intros)

lemma ba_PreToolUse_inv: "ba_inv s \<Longrightarrow> ba_inv (snd (ba_PreToolUse inp s))"
  by (auto simp: ba_PreToolUse_def Let_def startSpan_def setAttributes_def on_span_def
      ends_tr_call ends_tr_start_new
      split: sum.splits intro!: ba_inv_register_tool ba_inv_grows grows_intros)

lemma ba_PostToolUse_inv: "ba_inv s \<Longrightarrow> ba_inv (snd (ba_PostToolUse inp s))"
  by (auto simp: ba_PostToolUse_def Let_def on_span_def
      split: option.splits sum.splits intro!: ba_inv_close_tool grows_intros)

lemma ba_PostToolUseFailure_inv: "ba_inv s \<Longrightarrow> ba_inv (snd (ba_PostToolUseFailure inp s))"
  by (auto simp: ba_PostToolUseFailure_def Let_def on_span_def
      split: option.splits intro!: ba_inv_close_tool grows_intros)

lemma ba_UserPromptSubmit_inv: "ba_inv s \<Longrightarrow> ba_inv (snd (ba_UserPromptSubmit inp s))"
  by (auto simp: ba_UserPromptSubmit_def Let_def startSpan_def setAttributes_def on_span_def
      split: sum.splits option.splits intro!: ba_inv_grows grows_intros)

lemma ba_marker_inv: "ba_inv s \<Longrightarrow> ba_inv (snd (hook_marker ev nm ctx inp s))"
  using hook_marker_grows [of ev nm ctx inp s] by (auto intro: ba_inv_grows)

lemma ba_hooks_inv:
  assumes "(n, hook) \<in> set ba_hooks" and "ba_inv s"
  shows "ba_inv (snd (hook inp s))"
  using assms
  by (auto simp: ba_hooks_def ba_SessionStart_def ba_SessionEnd_def ba_Notification_def
      ba_PermissionRequest_def ba_PreCompact_def ba_Stop_def ba_Setup_def
      intro: ba_UserPromptSubmit_inv ba_SubagentStart_inv ba_SubagentStop_inv ba_PreToolUse_inv
        ba_PostToolUse_inv ba_PostToolUseFailure_inv ba_marker_inv)

lemma ba_deliver_inv: "ba_inv s \<Longrightarrow> ba_inv (deliver ba_hooks inp s)"
  by (auto simp: deliver_def split: option.splits dest!: map_of_SomeD intro: ba_hooks_inv)

lemma ba_run_inv: "ba_inv s \<Longrightarrow> ba_inv (run ba_hooks events s)"
  unfolding run_def by (induction events arbitrary: s) (simp_all add: ba_deliver_inv)

lemma ba_sweep_tools_effect:
  "distinct (map fst (ba_toolSpans s)) \<Longrightarrow> distinct (map (ba_span \<circ> snd) (ba_toolSpans s)) \<Longrightarrow>
   \<forall>e\<in>set (ba_toolSpans s). ba_span (snd e) < length (tracer s) \<Longrightarrow>
   \<exists>tr'. ba_sweep_tools s = s\<lparr>tracer := tr', ba_toolSpans := []\<rparr> \<and>
         length tr' = length (tracer s) \<and>
         (\<forall>h. calls (tr' ! h) =
            (if h \<in> (ba_span \<circ> snd) ` set (ba_toolSpans s)
             then calls (tracer s ! h) @ orphan_calls ''Orphaned span'' else calls (tracer s ! h)))"
proof (induction s rule: ba_sweep_tools.induct)
  case (1 s)
  show ?case
  proof (cases "ba_toolSpans s")
    case Nil
    have "s\<lparr>tracer := tracer s, ba_toolSpans := []\<rparr> = s" using Nil by simp
    then show ?thesis
      using Nil by (subst ba_sweep_tools.simps) (auto intro!: exI [of _ "tracer s"])
  next
    case (Cons e rest)
    obtain k d where e: "e = (k, d)" by (cases e)
    let ?tr1 = "tr_call (ba_span d) End (tr_call (ba_span d) (SetStatus ERROR (Some ''Orphaned span'')) (tracer s))"
    let ?s' = "s\<lparr>tracer := ?tr1, ba_toolSpans := rest\<rparr>"
    have del: "Map_delete (ba_toolSpans s) k = rest"
      using "1.prems"(1) Cons e by (simp add: Map_delete_head)
    have step: "ba_sweep_tools s = ba_sweep_tools ?s'"
      using Cons e del by (subst ba_sweep_tools.simps) (simp add: Let_def on_span_def)
    have lt: "ba_span d < length (tracer s)"
      using "1.prems"(3) Cons e by simp
    have nin: "ba_span d \<notin> (ba_span \<circ> snd) ` set rest"
      using "1.prems"(2) Cons e by auto
    have "\<exists>tr'. ba_sweep_tools ?s' = ?s'\<lparr>tracer := tr', ba_toolSpans := []\<rparr> \<and>
         length tr' = length (tracer ?s') \<and>
         (\<forall>h. calls (tr' ! h) =
            (if h \<in> (ba_span \<circ> snd) ` set (ba_toolSpans ?s')
             then calls (tracer ?s' ! h) @ orphan_calls ''Orphaned span'' else calls (tracer ?s' ! h)))"
      using "1.IH" [OF Cons e [symmetric] refl refl] "1.prems" Cons e del
      by (simp add: on_span_def cong: if_cong)
    then obtain tr' where tr': "ba_sweep_tools ?s' = ?s'\<lparr>tracer := tr', ba_toolSpans := []\<rparr>"
      "length tr' = length (tracer s)"
      "\<forall>h. calls (tr' ! h) =
            (if h \<in> (ba_span \<circ> snd) ` set rest
             then calls (?tr1 ! h) @ orphan_calls ''Orphaned span'' else calls (?tr1 ! h))"
      by auto
    have "\<forall>h. calls (tr' ! h) =
            (if h \<in> (ba_span \<circ> snd) ` set (ba_toolSpans s)
             then calls (tracer s ! h) @ orphan_calls ''Orphaned span'' else calls (tracer s ! h))"
      using tr'(3) nin lt Cons e by (auto simp: calls_tr_call orphan_calls_def)
    then show ?thesis
      using step tr'(1,2) by (intro exI [of _ tr']) simp
  qed
qed

lemma ba_sweep_agents_effect:
  "distinct (map fst (ba_agentTraces s)) \<Longrightarrow> distinct (map (rootSpan \<circ> snd) (ba_agentTraces s)) \<Longrightarrow>
   \<forall>e\<in>set (ba_agentTraces s). rootSpan (snd e) < length (tracer s) \<Longrightarrow>
   \<exists>tr'. ba_sweep_agents s = s\<lparr>tracer := tr', ba_agentTraces := []\<rparr> \<and>
         length tr' = length (tracer s) \<and>
         (\<forall>h. calls (tr' ! h) =
            (if h \<in> (rootSpan \<circ> snd) ` set (ba_agentTraces s)
             then calls (tracer s ! h) @ orphan_calls ''Orphaned agent trace'' else calls (tracer s ! h)))"
proof (induction s rule: ba_sweep_agents.induct)
  case (1 s)
  show ?case
  proof (cases "ba_agentTraces s")
    case Nil
    have "s\<lparr>tracer := tracer s, ba_agentTraces := []\<rparr> = s" using Nil by simp
    then show ?thesis
      using Nil by (subst ba_sweep_agents.simps) (auto intro!: exI [of _ "tracer s"])
  next
    case (Cons e rest)
    obtain k d where e: "e = (k, d)" by (cases e)
    let ?tr1 = "tr_call (rootSpan d) End (tr_call (rootSpan d) (SetStatus ERROR (Some ''Orphaned agent trace'')) (tracer s))"
    let ?s' = "s\<lparr>tracer := ?tr1, ba_agentTraces := rest\<rparr>"
    have del: "Map_delete (ba_agentTraces s) k = rest"
      using "1.prems"(1) Cons e by (simp add: Map_delete_head)
    have step: "ba_sweep_agents s = ba_sweep_agents ?s'"
      using Cons e del by (subst ba_sweep_agents.simps) (simp add: Let_def on_span_def)
    have lt: "rootSpan d < length (tracer s)"
      using "1.prems"(3) Cons e by simp
    have nin: "rootSpan d \<notin> (rootSpan \<circ> snd) ` set rest"
      using "1.prems"(2) Cons e by auto
    have "\<exists>tr'. ba_sweep_agents ?s' = ?s'\<lparr>tracer := tr', ba_agentTraces := []\<rparr> \<and>
         length tr' = length (tracer ?s') \<and>
         (\<forall>h. calls (tr' ! h) =
            (if h \<in> (rootSpan \<circ> snd) ` set (ba_agentTraces ?s')
             then calls (tracer ?s' ! h) @ orphan_calls ''Orphaned agent trace'' else calls (tracer ?s' ! h)))"
      using "1.IH" [OF Cons e [symmetric] refl refl] "1.prems" Cons e del
      by (simp add: on_span_def cong: if_cong)
    then obtain tr' where tr': "ba_sweep_agents ?s' = ?s'\<lparr>tracer := tr', ba_agentTraces := []\<rparr>"
      "length tr' = length (tracer s)"
      "\<forall>h. calls (tr' ! h) =
            (if h \<in> (rootSpan \<circ> snd) ` set rest
             then calls (?tr1 ! h) @ orphan_calls ''Orphaned agent trace'' else calls (?tr1 ! h))"
      by auto
    have "\<forall>h. calls (tr' ! h) =
            (if h \<in> (rootSpan \<circ> snd) ` set (ba_agentTraces s)
             then calls (tracer s ! h) @ orphan_calls ''Orphaned agent trace'' else calls (tracer s ! h))"
      using tr'(3) nin lt Cons e by (auto simp: calls_tr_call orphan_calls_def)
    then show ?thesis
      using step tr'(1,2) by (intro exI [of _ tr']) simp
  qed
qed

lemma ba_cleanup_effect:
  assumes "ba_inv s"
  shows "\<exists>tr'. ba_cleanup s = s\<lparr>tracer := tr', ba_toolSpans := [], ba_agentTraces := []\<rparr> \<and>
         length tr' = length (tracer s) \<and>
         (\<forall>h. calls (tr' ! h) =
            (if h \<in> (ba_span \<circ> snd) ` set (ba_toolSpans s)
             then calls (tracer s ! h) @ orphan_calls ''Orphaned span''
             else if h \<in> (rootSpan \<circ> snd) ` set (ba_agentTraces s)
             then calls (tracer s ! h) @ orphan_calls ''Orphaned agent trace''
             else calls (tracer s ! h)))"
proof -
  have r: "reg_inv [ba_sessionSpan s] (ba_tools s) (ba_agents s) (tracer s)"
    using assms by (simp add: ba_inv_def)
  note p = reg_inv_parts [OF r, unfolded ba_views_image]
  have ltT: "\<forall>e\<in>set (ba_toolSpans s). ba_span (snd e) < length (tracer s)"
    and ltA: "\<forall>e\<in>set (ba_agentTraces s). rootSpan (snd e) < length (tracer s)"
    using p(8) by (auto simp: all_open_def)
  obtain tr1 where t1: "ba_sweep_tools s = s\<lparr>tracer := tr1, ba_toolSpans := []\<rparr>"
      "length tr1 = length (tracer s)"
      "\<forall>h. calls (tr1 ! h) =
            (if h \<in> (ba_span \<circ> snd) ` set (ba_toolSpans s)
             then calls (tracer s ! h) @ orphan_calls ''Orphaned span'' else calls (tracer s ! h))"
    using ba_sweep_tools_effect [OF p(1) p(4) ltT] by auto
  let ?s1 = "s\<lparr>tracer := tr1, ba_toolSpans := []\<rparr>"
  have "\<exists>tr'. ba_sweep_agents ?s1 = ?s1\<lparr>tracer := tr', ba_agentTraces := []\<rparr> \<and>
         length tr' = length (tracer ?s1) \<and>
         (\<forall>h. calls (tr' ! h) =
            (if h \<in> (rootSpan \<circ> snd) ` set (ba_agentTraces ?s1)
             then calls (tracer ?s1 ! h) @ orphan_calls ''Orphaned agent trace''
             else calls (tracer ?s1 ! h)))"
    using p(2) p(5) ltA t1(2) by (intro ba_sweep_agents_effect) simp_all
  then obtain tr2 where t2: "ba_sweep_agents ?s1 = ?s1\<lparr>tracer := tr2, ba_agentTraces := []\<rparr>"
      "length tr2 = length (tracer s)"
      "\<forall>h. calls (tr2 ! h) =
            (if h \<in> (rootSpan \<circ> snd) ` set (ba_agentTraces s)
             then calls (tr1 ! h) @ orphan_calls ''Orphaned agent trace'' else calls (tr1 ! h))"
    using t1(2) by auto
  have c: "ba_cleanup s = s\<lparr>tracer := tr2, ba_toolSpans := [], ba_agentTraces := []\<rparr>"
    by (simp add: ba_cleanup_def t1(1) t2(1))
  have "\<forall>h. calls (tr2 ! h) =
            (if h \<in> (ba_span \<circ> snd) ` set (ba_toolSpans s)
             then calls (tracer s ! h) @ orphan_calls ''Orphaned span''
             else if h \<in> (rootSpan \<circ> snd) ` set (ba_agentTraces s)
             then calls (tracer s ! h) @ orphan_calls ''Orphaned agent trace''
             else calls (tracer s ! h))"
    using t1(3) t2(3) p(6) by auto
  then show ?thesis
    using c t2(2) by (intro exI [of _ tr2]) simp
qed

subsection \<open>Individual-traces invariant\<close>

declare it_sweep_tools.simps [simp del] it_sweep_agents.simps [simp del]

lemma it_inv_init: "it_inv (it_withAgentTelemetry tr)"
  by (simp add: it_inv_def it_withAgentTelemetry_def it_tools_def it_agents_def reg_inv_def
      all_open_def)

lemma it_views [simp]:
  "it_tools (s\<lparr>tracer := tr\<rparr>) = it_tools s"
  "it_agents (s\<lparr>tracer := tr\<rparr>) = it_agents s"
  "it_tools (s\<lparr>it_now_calls := c\<rparr>) = it_tools s"
  "it_agents (s\<lparr>it_now_calls := c\<rparr>) = it_agents s"
  "it_tools (s\<lparr>it_agentSpans := m'\<rparr>) = it_tools s"
  "it_agents (s\<lparr>it_toolSpans := m\<rparr>) = it_agents s"
  "it_tools (s\<lparr>it_toolSpans := Map_set (it_toolSpans s') k v\<rparr>) = Map_set (it_tools s') k (span v)"
  "it_agents (s\<lparr>it_agentSpans := Map_set (it_agentSpans s') k v\<rparr>) = Map_set (it_agents s') k (span v)"
  "it_tools (s\<lparr>it_toolSpans := Map_delete (it_toolSpans s') k\<rparr>) = Map_delete (it_tools s') k"
  "it_agents (s\<lparr>it_agentSpans := Map_delete (it_agentSpans s') k\<rparr>) = Map_delete (it_agents s') k"
  by (simp_all add: it_tools_def it_agents_def Map_set_map Map_delete_map)

lemma it_views_image:
  "snd ` set (it_tools s) = (span \<circ> snd) ` set (it_toolSpans s)"
  "snd ` set (it_agents s) = (span \<circ> snd) ` set (it_agentSpans s)"
  "map fst (it_tools s) = map fst (it_toolSpans s)"
  "map fst (it_agents s) = map fst (it_agentSpans s)"
  "map snd (it_tools s) = map (span \<circ> snd) (it_toolSpans s)"
  "map snd (it_agents s) = map (span \<circ> snd) (it_agentSpans s)"
  by (simp_all add: it_tools_def it_agents_def image_image comp_def)

lemma it_push_now [simp]:
  "(s\<lparr>it_now_calls := n\<rparr>)\<lparr>tracer := tr\<rparr> = (s\<lparr>tracer := tr\<rparr>)\<lparr>it_now_calls := n\<rparr>"
  "(s\<lparr>it_now_calls := n\<rparr>)\<lparr>it_toolSpans := m\<rparr> = (s\<lparr>it_toolSpans := m\<rparr>)\<lparr>it_now_calls := n\<rparr>"
  "(s\<lparr>it_now_calls := n\<rparr>)\<lparr>it_agentSpans := m\<rparr> = (s\<lparr>it_agentSpans := m\<rparr>)\<lparr>it_now_calls := n\<rparr>"
  by simp_all

lemma it_inv_now [simp]: "it_inv (s\<lparr>it_now_calls := c\<rparr>) = it_inv s"
  by (simp add: it_inv_def)

lemma it_inv_grows:
  assumes "it_inv s" and "grows (tracer s) tr'"
  shows "it_inv (s\<lparr>tracer := tr'\<rparr>)"
  using assms by (auto simp: it_inv_def intro: reg_inv_grows)

lemma it_inv_register_tool:
  assumes "it_inv s" and "grows (tracer s) tr'" and "length (tracer s) < length tr'"
    and "ends (tr' ! length (tracer s)) = 0" and "span e = length (tracer s)"
  shows "it_inv (s\<lparr>tracer := tr', it_toolSpans := Map_set (it_toolSpans s) k e\<rparr>)"
proof -
  have r: "reg_inv [] (it_tools s) (it_agents s) (tracer s)"
    using assms(1) by (simp add: it_inv_def)
  have "reg_inv [] (Map_set (it_tools s) k (length (tracer s))) (it_agents s) tr'"
    using reg_inv_grows [OF r assms(2)] reg_inv_fresh [OF r] assms(3,4)
    by (rule reg_inv_set_tool)
  then show ?thesis
    using assms(5) by (simp add: it_inv_def)
qed

lemma it_inv_register_agent:
  assumes "it_inv s" and "grows (tracer s) tr'" and "length (tracer s) < length tr'"
    and "ends (tr' ! length (tracer s)) = 0" and "span e = length (tracer s)"
  shows "it_inv (s\<lparr>tracer := tr', it_agentSpans := Map_set (it_agentSpans s) k e\<rparr>)"
proof -
  have r: "reg_inv [] (it_tools s) (it_agents s) (tracer s)"
    using assms(1) by (simp add: it_inv_def)
  have "reg_inv [] (it_tools s) (Map_set (it_agents s) k (length (tracer s))) tr'"
    using reg_inv_grows [OF r assms(2)] reg_inv_fresh [OF r] assms(3,4)
    by (rule reg_inv_set_agent)
  then show ?thesis
    using assms(5) by (simp add: it_inv_def)
qed

lemma it_inv_close_tool:
  assumes "it_inv s" and "grows (tracer s) tr'" and "Map_get (it_toolSpans s) k = Some d"
  shows "it_inv (s\<lparr>tracer := tr_call (span d) End tr',
                   it_toolSpans := Map_delete (it_toolSpans s) k\<rparr>)"
proof -
  have r: "reg_inv [] (it_tools s) (it_agents s) (tracer s)"
    using assms(1) by (simp add: it_inv_def)
  have g: "Map_get (it_tools s) k = Some (span d)"
    using assms(3) by (simp add: it_tools_def Map_get_map)
  have "reg_inv [] (Map_delete (it_tools s) k) (it_agents s) (tr_call (span d) End tr')"
    using reg_inv_grows [OF r assms(2)] g by (rule reg_inv_close_tool)
  then show ?thesis
    by (simp add: it_inv_def)
qed

lemma it_inv_close_agent:
  assumes "it_inv s" and "grows (tracer s) tr'" and "Map_get (it_agentSpans s) k = Some d"
  shows "it_inv (s\<lparr>tracer := tr_call (span d) End tr',
                   it_agentSpans := Map_delete (it_agentSpans s) k\<rparr>)"
proof -
  have r: "reg_inv [] (it_tools s) (it_agents s) (tracer s)"
    using assms(1) by (simp add: it_inv_def)
  have g: "Map_get (it_agents s) k = Some (span d)"
    using assms(3) by (simp add: it_agents_def Map_get_map)
  have "reg_inv [] (it_tools s) (Map_delete (it_agents s) k) (tr_call (span d) End tr')"
    using reg_inv_grows [OF r assms(2)] g by (rule reg_inv_close_agent)
  then show ?thesis
    by (simp add: it_inv_def)
qed

lemma it_SubagentStart_inv: "it_inv s \<Longrightarrow> it_inv (snd (it_SubagentStart clock inp s))"
  by (auto simp: it_SubagentStart_def Let_def startSpan_def setAttributes_def on_span_def
      Date_now_def ends_tr_call ends_tr_start_new
      intro!: it_inv_register_agent grows_intros)

lemma it_SubagentStop_inv: "it_inv s \<Longrightarrow> it_inv (snd (it_SubagentStop clock inp s))"
  by (auto simp: it_SubagentStop_def Let_def on_span_def Date_now_def
      split: option.splits intro!: it_inv_close_agent grows_intros)

lemma it_PreToolUse_inv: "it_inv s \<Longrightarrow> it_inv (snd (it_PreToolUse clock inp s))"
  by (auto simp: it_PreToolUse_def Let_def startSpan_def setAttributes_def on_span_def
      Date_now_def ends_tr_call ends_tr_start_new
      split: sum.splits intro!: it_inv_register_tool it_inv_grows grows_intros)

lemma it_PostToolUse_inv: "it_inv s \<Longrightarrow> it_inv (snd (it_PostToolUse clock inp s))"
  by (auto simp: it_PostToolUse_def Let_def on_span_def Date_now_def
      split: option.splits sum.splits intro!: it_inv_close_tool grows_intros)

lemma it_PostToolUseFailure_inv: "it_inv s \<Longrightarrow> it_inv (snd (it_PostToolUseFailure clock inp s))"
  by (auto simp: it_PostToolUseFailure_def Let_def on_span_def Date_now_def
      split: option.splits intro!: it_inv_close_tool grows_intros)

lemma it_UserPromptSubmit_inv: "it_inv s \<Longrightarrow> it_inv (snd (it_UserPromptSubmit inp s))"
  by (auto simp: it_UserPromptSubmit_def Let_def startSpan_def setAttributes_def on_span_def
      split: sum.splits option.splits intro!: it_inv_grows grows_intros)

lemma it_marker_inv: "it_inv s \<Longrightarrow> it_inv (snd (it_marker ev nm inp s))"
  by (auto simp: it_marker_def Let_def startSpan_def setAttributes_def on_span_def
      intro!: it_inv_grows grows_intros)

lemma it_hooks_inv:
  assumes "(n, hook) \<in> set (it_hooks clock)" and "it_inv s"
  shows "it_inv (snd (hook inp s))"
  using assms
  by (auto simp: it_hooks_def it_SessionStart_def it_SessionEnd_def it_Notification_def
      it_PermissionRequest_def it_PreCompact_def it_Stop_def it_Setup_def
      intro: it_UserPromptSubmit_inv it_SubagentStart_inv it_SubagentStop_inv it_PreToolUse_inv
        it_PostToolUse_inv it_PostToolUseFailure_inv it_marker_inv)

lemma it_deliver_inv: "it_inv s \<Longrightarrow> it_inv (deliver (it_hooks clock) inp s)"
  by (auto simp: deliver_def split: option.splits dest!: map_of_SomeD intro: it_hooks_inv)

lemma it_run_inv: "it_inv s \<Longrightarrow> it_inv (run (it_hooks clock) events s)"
  unfolding run_def by (induction events arbitrary: s) (simp_all add: it_deliver_inv)

lemma it_sweep_tools_effect:
  "distinct (map fst (it_toolSpans s)) \<Longrightarrow> distinct (map (span \<circ> snd) (it_toolSpans s)) \<Longrightarrow>
   \<forall>e\<in>set (it_toolSpans s). span (snd e) < length (tracer s) \<Longrightarrow>
   \<exists>tr' n. it_sweep_tools clock s = s\<lparr>tracer := tr', it_toolSpans := [], it_now_calls := n\<rparr> \<and>
         length tr' = length (tracer s) \<and>
         (\<forall>h\<in>(span \<circ> snd) ` set (it_toolSpans s).
            it_orphan (calls (tracer s ! h)) (calls (tr' ! h))) \<and>
         (\<forall>h. h \<notin> (span \<circ> snd) ` set (it_toolSpans s) \<longrightarrow>
            calls (tr' ! h) = calls (tracer s ! h))"
proof (induction clock s rule: it_sweep_tools.induct)
  case (1 clock s)
  show ?case
  proof (cases "it_toolSpans s")
    case Nil
    have "s\<lparr>tracer := tracer s, it_toolSpans := [], it_now_calls := it_now_calls s\<rparr> = s"
      using Nil by simp
    then show ?thesis
      using Nil by (subst it_sweep_tools.simps)
        (auto intro!: exI [of _ "tracer s"] exI [of _ "it_now_calls s"])
  next
    case (Cons e rest)
    obtain k d where e: "e = (k, d)" by (cases e)
    let ?dur = "SetAttribute ''duration_ms'' (ANum (clock (it_now_calls s) - startTime d))"
    let ?tr1 = "tr_call (span d) End (tr_call (span d) (SetStatus ERROR (Some ''Orphaned span''))
                  (tr_call (span d) ?dur (tracer s)))"
    let ?s' = "s\<lparr>tracer := ?tr1, it_toolSpans := rest, it_now_calls := Suc (it_now_calls s)\<rparr>"
    have del: "Map_delete (it_toolSpans s) k = rest"
      using "1.prems"(1) Cons e by (simp add: Map_delete_head)
    have step: "it_sweep_tools clock s = it_sweep_tools clock ?s'"
      using Cons e del by (subst it_sweep_tools.simps) (simp add: Let_def on_span_def Date_now_def)
    have lt: "span d < length (tracer s)"
      using "1.prems"(3) Cons e by simp
    have nin: "span d \<notin> (span \<circ> snd) ` set rest"
      using "1.prems"(2) Cons e by auto
    have hs: "(span \<circ> snd) ` set (it_toolSpans s) = insert (span d) ((span \<circ> snd) ` set rest)"
      using Cons e by simp
    have dn: "(clock (it_now_calls s), s\<lparr>it_now_calls := Suc (it_now_calls s)\<rparr>) = Date_now clock s"
      by (simp add: Date_now_def)
    have "\<exists>tr' n. it_sweep_tools clock ?s' = ?s'\<lparr>tracer := tr', it_toolSpans := [], it_now_calls := n\<rparr> \<and>
         length tr' = length (tracer ?s') \<and>
         (\<forall>h\<in>(span \<circ> snd) ` set (it_toolSpans ?s').
            it_orphan (calls (tracer ?s' ! h)) (calls (tr' ! h))) \<and>
         (\<forall>h. h \<notin> (span \<circ> snd) ` set (it_toolSpans ?s') \<longrightarrow>
            calls (tr' ! h) = calls (tracer ?s' ! h))"
      using "1.IH" [OF Cons e [symmetric] dn refl refl refl refl] "1.prems" Cons e del
      by (simp add: on_span_def)
    then obtain tr' n where tr': "it_sweep_tools clock ?s' = ?s'\<lparr>tracer := tr', it_toolSpans := [], it_now_calls := n\<rparr>"
      "length tr' = length (tracer s)"
      "\<forall>h\<in>(span \<circ> snd) ` set rest. it_orphan (calls (?tr1 ! h)) (calls (tr' ! h))"
      "\<forall>h. h \<notin> (span \<circ> snd) ` set rest \<longrightarrow> calls (tr' ! h) = calls (?tr1 ! h)"
      by auto
    have A: "\<forall>h\<in>(span \<circ> snd) ` set (it_toolSpans s).
            it_orphan (calls (tracer s ! h)) (calls (tr' ! h))"
    proof
      fix h assume "h \<in> (span \<circ> snd) ` set (it_toolSpans s)"
      then consider "h = span d" | "h \<in> (span \<circ> snd) ` set rest" "h \<noteq> span d"
        using hs by auto
      then show "it_orphan (calls (tracer s ! h)) (calls (tr' ! h))"
      proof cases
        case 1
        then have "calls (tr' ! h) = calls (?tr1 ! h)"
          using tr'(4) nin by simp
        then show ?thesis
          using 1 lt by (simp add: calls_tr_call it_orphan_def orphan_calls_def)
      next
        case 2
        then have "it_orphan (calls (?tr1 ! h)) (calls (tr' ! h))"
          using tr'(3) by blast
        then show ?thesis
          using 2 by (simp add: calls_tr_call)
      qed
    qed
    have B: "\<forall>h. h \<notin> (span \<circ> snd) ` set (it_toolSpans s) \<longrightarrow>
            calls (tr' ! h) = calls (tracer s ! h)"
      using tr'(4) hs by (simp add: calls_tr_call)
    show ?thesis
      using step tr'(1,2) A B by (intro exI [of _ tr'] exI [of _ n]) simp
  qed
qed

lemma it_sweep_agents_effect:
  "distinct (map fst (it_agentSpans s)) \<Longrightarrow> distinct (map (span \<circ> snd) (it_agentSpans s)) \<Longrightarrow>
   \<forall>e\<in>set (it_agentSpans s). span (snd e) < length (tracer s) \<Longrightarrow>
   \<exists>tr' n. it_sweep_agents clock s = s\<lparr>tracer := tr', it_agentSpans := [], it_now_calls := n\<rparr> \<and>
         length tr' = length (tracer s) \<and>
         (\<forall>h\<in>(span \<circ> snd) ` set (it_agentSpans s).
            it_orphan (calls (tracer s ! h)) (calls (tr' ! h))) \<and>
         (\<forall>h. h \<notin> (span \<circ> snd) ` set (it_agentSpans s) \<longrightarrow>
            calls (tr' ! h) = calls (tracer s ! h))"
proof (induction clock s rule: it_sweep_agents.induct)
  case (1 clock s)
  show ?case
  proof (cases "it_agentSpans s")
    case Nil
    have "s\<lparr>tracer := tracer s, it_agentSpans := [], it_now_calls := it_now_calls s\<rparr> = s"
      using Nil by simp
    then show ?thesis
      using Nil by (subst it_sweep_agents.simps)
        (auto intro!: exI [of _ "tracer s"] exI [of _ "it_now_calls s"])
  next
    case (Cons e rest)
    obtain k d where e: "e = (k, d)" by (cases e)
    let ?dur = "SetAttribute ''duration_ms'' (ANum (clock (it_now_calls s) - startTime d))"
    let ?tr1 = "tr_call (span d) End (tr_call (span d) (SetStatus ERROR (Some ''Orphaned span''))
                  (tr_call (span d) ?dur (tracer s)))"
    let ?s' = "s\<lparr>tracer := ?tr1, it_agentSpans := rest, it_now_calls := Suc (it_now_calls s)\<rparr>"
    have del: "Map_delete (it_agentSpans s) k = rest"
      using "1.prems"(1) Cons e by (simp add: Map_delete_head)
    have step: "it_sweep_agents clock s = it_sweep_agents clock ?s'"
      using Cons e del by (subst it_sweep_agents.simps) (simp add: Let_def on_span_def Date_now_def)
    have lt: "span d < length (tracer s)"
      using "1.prems"(3) Cons e by simp
    have nin: "span d \<notin> (span \<circ> snd) ` set rest"
      using "1.prems"(2) Cons e by auto
    have hs: "(span \<circ> snd) ` set (it_agentSpans s) = insert (span d) ((span \<circ> snd) ` set rest)"
      using Cons e by simp
    have dn: "(clock (it_now_calls s), s\<lparr>it_now_calls := Suc (it_now_calls s)\<rparr>) = Date_now clock s"
      by (simp add: Date_now_def)
    have "\<exists>tr' n. it_sweep_agents clock ?s' = ?s'\<lparr>tracer := tr', it_agentSpans := [], it_now_calls := n\<rparr> \<and>
         length tr' = length (tracer ?s') \<and>
         (\<forall>h\<in>(span \<circ> snd) ` set (it_agentSpans ?s').
            it_orphan (calls (tracer ?s' ! h)) (calls (tr' ! h))) \<and>
         (\<forall>h. h \<notin> (span \<circ> snd) ` set (it_agentSpans ?s') \<longrightarrow>
            calls (tr' ! h) = calls (tracer ?s' ! h))"
      using "1.IH" [OF Cons e [symmetric] dn refl refl refl refl] "1.prems" Cons e del
      by (simp add: on_span_def)
    then obtain tr' n where tr': "it_sweep_agents clock ?s' = ?s'\<lparr>tracer := tr', it_agentSpans := [], it_now_calls := n\<rparr>"
      "length tr' = length (tracer s)"
      "\<forall>h\<in>(span \<circ> snd) ` set rest. it_orphan (calls (?tr1 ! h)) (calls (tr' ! h))"
      "\<forall>h. h \<notin> (span \<circ> snd) ` set rest \<longrightarrow> calls (tr' ! h) = calls (?tr1 ! h)"
      by auto
    have A: "\<forall>h\<in>(span \<circ> snd) ` set (it_agentSpans s).
            it_orphan (calls (tracer s ! h)) (calls (tr' ! h))"
    proof
      fix h assume "h \<in> (span \<circ> snd) ` set (it_agentSpans s)"
      then consider "h = span d" | "h \<in> (span \<circ> snd) ` set rest" "h \<noteq> span d"
        using hs by auto
      then show "it_orphan (calls (tracer s ! h)) (calls (tr' ! h))"
      proof cases
        case 1
        then have "calls (tr' ! h) = calls (?tr1 ! h)"
          using tr'(4) nin by simp
        then show ?thesis
          using 1 lt by (simp add: calls_tr_call it_orphan_def orphan_calls_def)
      next
        case 2
        then have "it_orphan (calls (?tr1 ! h)) (calls (tr' ! h))"
          using tr'(3) by blast
        then show ?thesis
          using 2 by (simp add: calls_tr_call)
      qed
    qed
    have B: "\<forall>h. h \<notin> (span \<circ> snd) ` set (it_agentSpans s) \<longrightarrow>
            calls (tr' ! h) = calls (tracer s ! h)"
      using tr'(4) hs by (simp add: calls_tr_call)
    show ?thesis
      using step tr'(1,2) A B by (intro exI [of _ tr'] exI [of _ n]) simp
  qed
qed

lemma it_cleanup_effect:
  assumes "it_inv s"
  shows "\<exists>tr' n. it_cleanup clock s =
           s\<lparr>tracer := tr', it_toolSpans := [], it_agentSpans := [], it_now_calls := n\<rparr> \<and>
         length tr' = length (tracer s) \<and>
         (\<forall>h\<in>(span \<circ> snd) ` (set (it_toolSpans s) \<union> set (it_agentSpans s)).
            it_orphan (calls (tracer s ! h)) (calls (tr' ! h))) \<and>
         (\<forall>h. h \<notin> (span \<circ> snd) ` (set (it_toolSpans s) \<union> set (it_agentSpans s)) \<longrightarrow>
            calls (tr' ! h) = calls (tracer s ! h))"
proof -
  have r: "reg_inv [] (it_tools s) (it_agents s) (tracer s)"
    using assms by (simp add: it_inv_def)
  note p = reg_inv_parts [OF r, unfolded it_views_image]
  have ltT: "\<forall>e\<in>set (it_toolSpans s). span (snd e) < length (tracer s)"
    and ltA: "\<forall>e\<in>set (it_agentSpans s). span (snd e) < length (tracer s)"
    using p(8) by (auto simp: all_open_def)
  obtain tr1 n1 where t1:
      "it_sweep_tools clock s = s\<lparr>tracer := tr1, it_toolSpans := [], it_now_calls := n1\<rparr>"
      "length tr1 = length (tracer s)"
      "\<forall>h\<in>(span \<circ> snd) ` set (it_toolSpans s). it_orphan (calls (tracer s ! h)) (calls (tr1 ! h))"
      "\<forall>h. h \<notin> (span \<circ> snd) ` set (it_toolSpans s) \<longrightarrow> calls (tr1 ! h) = calls (tracer s ! h)"
    using it_sweep_tools_effect [OF p(1) p(4) ltT, of clock] by auto
  let ?s1 = "s\<lparr>tracer := tr1, it_toolSpans := [], it_now_calls := n1\<rparr>"
  have "\<exists>tr' n. it_sweep_agents clock ?s1 =
           ?s1\<lparr>tracer := tr', it_agentSpans := [], it_now_calls := n\<rparr> \<and>
         length tr' = length (tracer ?s1) \<and>
         (\<forall>h\<in>(span \<circ> snd) ` set (it_agentSpans ?s1).
            it_orphan (calls (tracer ?s1 ! h)) (calls (tr' ! h))) \<and>
         (\<forall>h. h \<notin> (span \<circ> snd) ` set (it_agentSpans ?s1) \<longrightarrow>
            calls (tr' ! h) = calls (tracer ?s1 ! h))"
    using p(2) p(5) ltA t1(2) by (intro it_sweep_agents_effect) simp_all
  then obtain tr2 n2 where t2:
      "it_sweep_agents clock ?s1 = ?s1\<lparr>tracer := tr2, it_agentSpans := [], it_now_calls := n2\<rparr>"
      "length tr2 = length (tracer s)"
      "\<forall>h\<in>(span \<circ> snd) ` set (it_agentSpans s). it_orphan (calls (tr1 ! h)) (calls (tr2 ! h))"
      "\<forall>h. h \<notin> (span \<circ> snd) ` set (it_agentSpans s) \<longrightarrow> calls (tr2 ! h) = calls (tr1 ! h)"
    using t1(2) by auto
  have c: "it_cleanup clock s =
      s\<lparr>tracer := tr2, it_toolSpans := [], it_agentSpans := [], it_now_calls := n2\<rparr>"
    by (simp add: it_cleanup_def t1(1) t2(1))
  have disj: "(span \<circ> snd) ` set (it_toolSpans s) \<inter> (span \<circ> snd) ` set (it_agentSpans s) = {}"
    by (rule p(6))
  have A: "\<forall>h\<in>(span \<circ> snd) ` (set (it_toolSpans s) \<union> set (it_agentSpans s)).
            it_orphan (calls (tracer s ! h)) (calls (tr2 ! h))"
  proof
    fix h assume "h \<in> (span \<circ> snd) ` (set (it_toolSpans s) \<union> set (it_agentSpans s))"
    then consider "h \<in> (span \<circ> snd) ` set (it_toolSpans s)" "h \<notin> (span \<circ> snd) ` set (it_agentSpans s)"
      | "h \<in> (span \<circ> snd) ` set (it_agentSpans s)" "h \<notin> (span \<circ> snd) ` set (it_toolSpans s)"
      using disj by blast
    then show "it_orphan (calls (tracer s ! h)) (calls (tr2 ! h))"
    proof cases
      case 1
      then show ?thesis using t1(3) t2(4) by auto
    next
      case 2
      then show ?thesis using t1(4) t2(3) by force
    qed
  qed
  have B: "\<forall>h. h \<notin> (span \<circ> snd) ` (set (it_toolSpans s) \<union> set (it_agentSpans s)) \<longrightarrow>
            calls (tr2 ! h) = calls (tracer s ! h)"
    using t1(4) t2(4) by (simp add: image_Un)
  show ?thesis
    using c t2(2) A B by (intro exI [of _ tr2] exI [of _ n2]) simp
qed

subsection \<open>Reachable states\<close>

lemma st_reachable_inv: "st_inv (run st_hooks events (st_withAgentTelemetry tr))"
  by (intro st_run_inv st_inv_init)

lemma ba_reachable_inv: "ba_inv (run ba_hooks events (ba_withAgentTelemetry tr))"
  by (intro ba_run_inv ba_inv_init)

lemma it_reachable_inv: "it_inv (run (it_hooks clock) events (it_withAgentTelemetry tr))"
  by (intro it_run_inv it_inv_init)

subsection \<open>Which ids a registry can hold\<close>

lemma hook_marker_more:
  "\<exists>tr'. snd (hook_marker ev nm ctx inp s) = s\<lparr>tracer := tr'\<rparr>"
  using hook_marker_grows [of ev nm ctx inp s] by blast

lemma st_hooks_agent_keys:
  assumes "(n, hook) \<in> set st_hooks" and "k \<notin> fst ` set (st_agentSpans s)"
    and "\<not> (hook_event_name inp = Some ''SubagentStart'' \<and> agent_id inp = k)"
  shows "k \<notin> fst ` set (st_agentSpans (snd (hook inp s)))"
proof -
  have m: "\<And>ev nm ctx. st_agentSpans (snd (hook_marker ev nm ctx inp s)) = st_agentSpans s"
  proof -
    fix ev nm ctx
    obtain tr' where "snd (hook_marker ev nm ctx inp s) = s\<lparr>tracer := tr'\<rparr>"
      using hook_marker_more by blast
    then show "st_agentSpans (snd (hook_marker ev nm ctx inp s)) = st_agentSpans s" by simp
  qed
  have "st_agentSpans (snd (st_UserPromptSubmit inp s)) = st_agentSpans s"
    by (simp add: st_UserPromptSubmit_def Let_def startSpan_def setAttributes_def on_span_def
        split: sum.splits option.splits)
  moreover have "st_agentSpans (snd (st_PreToolUse inp s)) = st_agentSpans s"
    by (simp add: st_PreToolUse_def Let_def startSpan_def setAttributes_def on_span_def
        split: sum.splits option.splits)
  moreover have "st_agentSpans (snd (st_PostToolUse inp s)) = st_agentSpans s"
    by (simp add: st_PostToolUse_def Let_def startSpan_def setAttributes_def on_span_def
        split: sum.splits option.splits)
  moreover have "st_agentSpans (snd (st_PostToolUseFailure inp s)) = st_agentSpans s"
    by (simp add: st_PostToolUseFailure_def Let_def startSpan_def setAttributes_def on_span_def
        split: sum.splits option.splits)
  moreover have "k \<notin> fst ` set (st_agentSpans (snd (st_SubagentStart inp s)))"
    using assms(2,3)
    by (auto simp: st_SubagentStart_def Let_def startSpan_def setAttributes_def on_span_def
        split: sum.splits dest!: Map_set_mem)
  moreover have "k \<notin> fst ` set (st_agentSpans (snd (st_SubagentStop inp s)))"
    using assms(2)
    by (auto simp: st_SubagentStop_def Let_def on_span_def split: option.splits sum.splits
        dest!: Map_delete_mem)
  ultimately show ?thesis
    using assms(1,2) m
    by (auto simp: st_hooks_def st_SessionStart_def st_SessionEnd_def st_Notification_def
      st_PermissionRequest_def st_PreCompact_def st_Stop_def st_Setup_def)
qed

lemma st_hooks_tool_keys:
  assumes "(n, hook) \<in> set st_hooks" and "k \<notin> fst ` set (st_toolSpans s)"
    and "\<not> (hook_event_name inp = Some ''PreToolUse'' \<and> tool_use_id inp = k)"
  shows "k \<notin> fst ` set (st_toolSpans (snd (hook inp s)))"
proof -
  have m: "\<And>ev nm ctx. st_toolSpans (snd (hook_marker ev nm ctx inp s)) = st_toolSpans s"
  proof -
    fix ev nm ctx
    obtain tr' where "snd (hook_marker ev nm ctx inp s) = s\<lparr>tracer := tr'\<rparr>"
      using hook_marker_more by blast
    then show "st_toolSpans (snd (hook_marker ev nm ctx inp s)) = st_toolSpans s" by simp
  qed
  have "st_toolSpans (snd (st_UserPromptSubmit inp s)) = st_toolSpans s"
    by (simp add: st_UserPromptSubmit_def Let_def startSpan_def setAttributes_def on_span_def
        split: sum.splits option.splits)
  moreover have "st_toolSpans (snd (st_SubagentStart inp s)) = st_toolSpans s"
    by (simp add: st_SubagentStart_def Let_def startSpan_def setAttributes_def on_span_def
        split: sum.splits option.splits)
  moreover have "st_toolSpans (snd (st_SubagentStop inp s)) = st_toolSpans s"
    by (simp add: st_SubagentStop_def Let_def startSpan_def setAttributes_def on_span_def
        split: sum.splits option.splits)
  moreover have "k \<notin> fst ` set (st_toolSpans (snd (st_PreToolUse inp s)))"
    using assms(2,3)
    by (auto simp: st_PreToolUse_def Let_def startSpan_def setAttributes_def on_span_def
        split: sum.splits dest!: Map_set_mem)
  moreover have "k \<notin> fst ` set (st_toolSpans (snd (st_PostToolUse inp s)))"
    using assms(2)
    by (auto simp: st_PostToolUse_def Let_def on_span_def split: option.splits sum.splits
        dest!: Map_delete_mem)
  moreover have "k \<notin> fst ` set (st_toolSpans (snd (st_PostToolUseFailure inp s)))"
    using assms(2)
    by (auto simp: st_PostToolUseFailure_def Let_def on_span_def split: option.splits sum.splits
        dest!: Map_delete_mem)
  ultimately show ?thesis
    using assms(1,2) m
    by (auto simp: st_hooks_def st_SessionStart_def st_SessionEnd_def st_Notification_def
      st_PermissionRequest_def st_PreCompact_def st_Stop_def st_Setup_def)
qed

lemma st_run_agent_keys:
  "k \<notin> fst ` set (st_agentSpans s) \<Longrightarrow>
   \<forall>e\<in>set events. \<not> (hook_event_name e = Some ''SubagentStart'' \<and> agent_id e = k) \<Longrightarrow>
   k \<notin> fst ` set (st_agentSpans (run st_hooks events s))"
  unfolding run_def
proof (induction events arbitrary: s)
  case Nil
  then show ?case by simp
next
  case (Cons e events)
  have "k \<notin> fst ` set (st_agentSpans (deliver st_hooks e s))"
    using Cons.prems
    by (auto simp: deliver_def split: option.splits dest!: map_of_SomeD
        dest: st_hooks_agent_keys [where inp = e and s = s and k = k])
  then show ?case
    using Cons.IH [of "deliver st_hooks e s"] Cons.prems(2) by simp
qed

lemma st_run_tool_keys:
  "k \<notin> fst ` set (st_toolSpans s) \<Longrightarrow>
   \<forall>e\<in>set events. \<not> (hook_event_name e = Some ''PreToolUse'' \<and> tool_use_id e = k) \<Longrightarrow>
   k \<notin> fst ` set (st_toolSpans (run st_hooks events s))"
  unfolding run_def
proof (induction events arbitrary: s)
  case Nil
  then show ?case by simp
next
  case (Cons e events)
  have "k \<notin> fst ` set (st_toolSpans (deliver st_hooks e s))"
    using Cons.prems
    by (auto simp: deliver_def split: option.splits dest!: map_of_SomeD
        dest: st_hooks_tool_keys [where inp = e and s = s and k = k])
  then show ?case
    using Cons.IH [of "deliver st_hooks e s"] Cons.prems(2) by simp
qed

lemma ba_hooks_agent_keys:
  assumes "(n, hook) \<in> set ba_hooks" and "k \<notin> fst ` set (ba_agentTraces s)"
    and "\<not> (hook_event_name inp = Some ''SubagentStart'' \<and> agent_id inp = k)"
  shows "k \<notin> fst ` set (ba_agentTraces (snd (hook inp s)))"
proof -
  have m: "\<And>ev nm ctx. ba_agentTraces (snd (hook_marker ev nm ctx inp s)) = ba_agentTraces s"
  proof -
    fix ev nm ctx
    obtain tr' where "snd (hook_marker ev nm ctx inp s) = s\<lparr>tracer := tr'\<rparr>"
      using hook_marker_more by blast
    then show "ba_agentTraces (snd (hook_marker ev nm ctx inp s)) = ba_agentTraces s" by simp
  qed
  have "ba_agentTraces (snd (ba_UserPromptSubmit inp s)) = ba_agentTraces s"
    by (simp add: ba_UserPromptSubmit_def Let_def startSpan_def setAttributes_def on_span_def
        split: sum.splits option.splits)
  moreover have "ba_agentTraces (snd (ba_PreToolUse inp s)) = ba_agentTraces s"
    by (simp add: ba_PreToolUse_def Let_def startSpan_def setAttributes_def on_span_def
        split: sum.splits option.splits)
  moreover have "ba_agentTraces (snd (ba_PostToolUse inp s)) = ba_agentTraces s"
    by (simp add: ba_PostToolUse_def Let_def startSpan_def setAttributes_def on_span_def
        split: sum.splits option.splits)
  moreover have "ba_agentTraces (snd (ba_PostToolUseFailure inp s)) = ba_agentTraces s"
    by (simp add: ba_PostToolUseFailure_def Let_def startSpan_def setAttributes_def on_span_def
        split: sum.splits option.splits)
  moreover have "k \<notin> fst ` set (ba_agentTraces (snd (ba_SubagentStart inp s)))"
    using assms(2,3)
    by (auto simp: ba_SubagentStart_def Let_def startSpan_def setAttributes_def on_span_def
        split: sum.splits dest!: Map_set_mem)
  moreover have "k \<notin> fst ` set (ba_agentTraces (snd (ba_SubagentStop inp s)))"
    using assms(2)
    by (auto simp: ba_SubagentStop_def Let_def on_span_def split: option.splits sum.splits
        dest!: Map_delete_mem)
  ultimately show ?thesis
    using assms(1,2) m
    by (auto simp: ba_hooks_def ba_SessionStart_def ba_SessionEnd_def ba_Notification_def
      ba_PermissionRequest_def ba_PreCompact_def ba_Stop_def ba_Setup_def)
qed

lemma ba_hooks_tool_keys:
  assumes "(n, hook) \<in> set ba_hooks" and "k \<notin> fst ` set (ba_toolSpans s)"
    and "\<not> (hook_event_name inp = Some ''PreToolUse'' \<and> tool_use_id inp = k)"
  shows "k \<notin> fst ` set (ba_toolSpans (snd (hook inp s)))"
proof -
  have m: "\<And>ev nm ctx. ba_toolSpans (snd (hook_marker ev nm ctx inp s)) = ba_toolSpans s"
  proof -
    fix ev nm ctx
    obtain tr' where "snd (hook_marker ev nm ctx inp s) = s\<lparr>tracer := tr'\<rparr>"
      using hook_marker_more by blast
    then show "ba_toolSpans (snd (hook_marker ev nm ctx inp s)) = ba_toolSpans s" by simp
  qed
  have "ba_toolSpans (snd (ba_UserPromptSubmit inp s)) = ba_toolSpans s"
    by (simp add: ba_UserPromptSubmit_def Let_def startSpan_def setAttributes_def on_span_def
        split: sum.splits option.splits)
  moreover have "ba_toolSpans (snd (ba_SubagentStart inp s)) = ba_toolSpans s"
    by (simp add: ba_SubagentStart_def Let_def startSpan_def setAttributes_def on_span_def
        split: sum.splits option.splits)
  moreover have "ba_toolSpans (snd (ba_SubagentStop inp s)) = ba_toolSpans s"
    by (simp add: ba_SubagentStop_def Let_def startSpan_def setAttributes_def on_span_def
        split: sum.splits option.splits)
  moreover have "k \<notin> fst ` set (ba_toolSpans (snd (ba_PreToolUse inp s)))"
    using assms(2,3)
    by (auto simp: ba_PreToolUse_def Let_def startSpan_def setAttributes_def on_span_def
        split: sum.splits dest!: Map_set_mem)
  moreover have "k \<notin> fst ` set (ba_toolSpans (snd (ba_PostToolUse inp s)))"
    using assms(2)
    by (auto simp: ba_PostToolUse_def Let_def on_span_def split: option.splits sum.splits
        dest!: Map_delete_mem)
  moreover have "k \<notin> fst ` set (ba_toolSpans (snd (ba_PostToolUseFailure inp s)))"
    using assms(2)
    by (auto simp: ba_PostToolUseFailure_def Let_def on_span_def split: option.splits sum.splits
        dest!: Map_delete_mem)
  ultimately show ?thesis
    using assms(1,2) m
    by (auto simp: ba_hooks_def ba_SessionStart_def ba_SessionEnd_def ba_Notification_def
      ba_PermissionRequest_def ba_PreCompact_def ba_Stop_def ba_Setup_def)
qed

lemma ba_run_agent_keys:
  "k \<notin> fst ` set (ba_agentTraces s) \<Longrightarrow>
   \<forall>e\<in>set events. \<not> (hook_event_name e = Some ''SubagentStart'' \<and> agent_id e = k) \<Longrightarrow>
   k \<notin> fst ` set (ba_agentTraces (run ba_hooks events s))"
  unfolding run_def
proof (induction events arbitrary: s)
  case Nil
  then show ?case by simp
next
  case (Cons e events)
  have "k \<notin> fst ` set (ba_agentTraces (deliver ba_hooks e s))"
    using Cons.prems
    by (auto simp: deliver_def split: option.splits dest!: map_of_SomeD
        dest: ba_hooks_agent_keys [where inp = e and s = s and k = k])
  then show ?case
    using Cons.IH [of "deliver ba_hooks e s"] Cons.prems(2) by simp
qed

lemma ba_run_tool_keys:
  "k \<notin> fst ` set (ba_toolSpans s) \<Longrightarrow>
   \<forall>e\<in>set events. \<not> (hook_event_name e = Some ''PreToolUse'' \<and> tool_use_id e = k) \<Longrightarrow>
   k \<notin> fst ` set (ba_toolSpans (run ba_hooks events s))"
  unfolding run_def
proof (induction events arbitrary: s)
  case Nil
  then show ?case by simp
next
  case (Cons e events)
  have "k \<notin> fst ` set (ba_toolSpans (deliver ba_hooks e s))"
    using Cons.prems
    by (auto simp: deliver_def split: option.splits dest!: map_of_SomeD
        dest: ba_hooks_tool_keys [where inp = e and s = s and k = k])
  then show ?case
    using Cons.IH [of "deliver ba_hooks e s"] Cons.prems(2) by simp
qed

lemma it_hooks_agent_keys:
  assumes "(n, hook) \<in> set (it_hooks clock)" and "k \<notin> fst ` set (it_agentSpans s)"
    and "\<not> (hook_event_name inp = Some ''SubagentStart'' \<and> agent_id inp = k)"
  shows "k \<notin> fst ` set (it_agentSpans (snd (hook inp s)))"
proof -
  have m: "\<And>ev nm. it_agentSpans (snd (it_marker ev nm inp s)) = it_agentSpans s"
    by (simp add: it_marker_def Let_def startSpan_def setAttributes_def on_span_def)
  have "it_agentSpans (snd (it_UserPromptSubmit inp s)) = it_agentSpans s"
    by (simp add: it_UserPromptSubmit_def Let_def startSpan_def setAttributes_def on_span_def Date_now_def
        split: sum.splits option.splits)
  moreover have "it_agentSpans (snd (it_PreToolUse clock inp s)) = it_agentSpans s"
    by (simp add: it_PreToolUse_def Let_def startSpan_def setAttributes_def on_span_def Date_now_def
        split: sum.splits option.splits)
  moreover have "it_agentSpans (snd (it_PostToolUse clock inp s)) = it_agentSpans s"
    by (simp add: it_PostToolUse_def Let_def startSpan_def setAttributes_def on_span_def Date_now_def
        split: sum.splits option.splits)
  moreover have "it_agentSpans (snd (it_PostToolUseFailure clock inp s)) = it_agentSpans s"
    by (simp add: it_PostToolUseFailure_def Let_def startSpan_def setAttributes_def on_span_def Date_now_def
        split: sum.splits option.splits)
  moreover have "k \<notin> fst ` set (it_agentSpans (snd (it_SubagentStart clock inp s)))"
    using assms(2,3)
    by (auto simp: it_SubagentStart_def Let_def startSpan_def setAttributes_def on_span_def Date_now_def
        split: sum.splits dest!: Map_set_mem)
  moreover have "k \<notin> fst ` set (it_agentSpans (snd (it_SubagentStop clock inp s)))"
    using assms(2)
    by (auto simp: it_SubagentStop_def Let_def on_span_def Date_now_def split: option.splits sum.splits
        dest!: Map_delete_mem)
  ultimately show ?thesis
    using assms(1,2) m
    by (auto simp: it_hooks_def it_SessionStart_def it_SessionEnd_def it_Notification_def
      it_PermissionRequest_def it_PreCompact_def it_Stop_def it_Setup_def)
qed

lemma it_hooks_tool_keys:
  assumes "(n, hook) \<in> set (it_hooks clock)" and "k \<notin> fst ` set (it_toolSpans s)"
    and "\<not> (hook_event_name inp = Some ''PreToolUse'' \<and> tool_use_id inp = k)"
  shows "k \<notin> fst ` set (it_toolSpans (snd (hook inp s)))"
proof -
  have m: "\<And>ev nm. it_toolSpans (snd (it_marker ev nm inp s)) = it_toolSpans s"
    by (simp add: it_marker_def Let_def startSpan_def setAttributes_def on_span_def)
  have "it_toolSpans (snd (it_UserPromptSubmit inp s)) = it_toolSpans s"
    by (simp add: it_UserPromptSubmit_def Let_def startSpan_def setAttributes_def on_span_def Date_now_def
        split: sum.splits option.splits)
  moreover have "it_toolSpans (snd (it_SubagentStart clock inp s)) = it_toolSpans s"
    by (simp add: it_SubagentStart_def Let_def startSpan_def setAttributes_def on_span_def Date_now_def
        split: sum.splits option.splits)
  moreover have "it_toolSpans (snd (it_SubagentStop clock inp s)) = it_toolSpans s"
    by (simp add: it_SubagentStop_def Let_def startSpan_def setAttributes_def on_span_def Date_now_def
        split: sum.splits option.splits)
  moreover have "k \<notin> fst ` set (it_toolSpans (snd (it_PreToolUse clock inp s)))"
    using assms(2,3)
    by (auto simp: it_PreToolUse_def Let_def startSpan_def setAttributes_def on_span_def Date_now_def
        split: sum.splits dest!: Map_set_mem)
  moreover have "k \<notin> fst ` set (it_toolSpans (snd (it_PostToolUse clock inp s)))"
    using assms(2)
    by (auto simp: it_PostToolUse_def Let_def on_span_def Date_now_def split: option.splits sum.splits
        dest!: Map_delete_mem)
  moreover have "k \<notin> fst ` set (it_toolSpans (snd (it_PostToolUseFailure clock inp s)))"
    using assms(2)
    by (auto simp: it_PostToolUseFailure_def Let_def on_span_def Date_now_def split: option.splits sum.splits
        dest!: Map_delete_mem)
  ultimately show ?thesis
    using assms(1,2) m
    by (auto simp: it_hooks_def it_SessionStart_def it_SessionEnd_def it_Notification_def
      it_PermissionRequest_def it_PreCompact_def it_Stop_def it_Setup_def)
qed

lemma it_run_agent_keys:
  "k \<notin> fst ` set (it_agentSpans s) \<Longrightarrow>
   \<forall>e\<in>set events. \<not> (hook_event_name e = Some ''SubagentStart'' \<and> agent_id e = k) \<Longrightarrow>
   k \<notin> fst ` set (it_agentSpans (run (it_hooks clock) events s))"
  unfolding run_def
proof (induction events arbitrary: s)
  case Nil
  then show ?case by simp
next
  case (Cons e events)
  have "k \<notin> fst ` set (it_agentSpans (deliver (it_hooks clock) e s))"
    using Cons.prems
    by (auto simp: deliver_def split: option.splits dest!: map_of_SomeD
        dest: it_hooks_agent_keys [where inp = e and s = s and k = k])
  then show ?case
    using Cons.IH [of "deliver (it_hooks clock) e s"] Cons.prems(2) by simp
qed

lemma it_run_tool_keys:
  "k \<notin> fst ` set (it_toolSpans s) \<Longrightarrow>
   \<forall>e\<in>set events. \<not> (hook_event_name e = Some ''PreToolUse'' \<and> tool_use_id e = k) \<Longrightarrow>
   k \<notin> fst ` set (it_toolSpans (run (it_hooks clock) events s))"
  unfolding run_def
proof (induction events arbitrary: s)
  case Nil
  then show ?case by simp
next
  case (Cons e events)
  have "k \<notin> fst ` set (it_toolSpans (deliver (it_hooks clock) e s))"
    using Cons.prems
    by (auto simp: deliver_def split: option.splits dest!: map_of_SomeD
        dest: it_hooks_tool_keys [where inp = e and s = s and k = k])
  then show ?case
    using Cons.IH [of "deliver (it_hooks clock) e s"] Cons.prems(2) by simp
qed

lemma Map_get_None_keys: "k \<notin> fst ` set m \<Longrightarrow> Map_get m k = None"
  by (simp add: Map_get_None)

subsection \<open>The parent of a tool span\<close>

lemma span_parent_tr_call [simp]: "span_parent (tr_call h c tr ! i) = span_parent (tr ! i)"
  by (cases "h < length tr") (auto simp: tr_call_def nth_list_update list_update_beyond not_less)

lemma ba_PreToolUse_parent:
  "hook_event_name inp = Some ''PreToolUse'' \<Longrightarrow>
   span_parent (tracer (snd (ba_PreToolUse inp s)) ! length (tracer s)) = ba_parentContext inp s"
  by (simp add: ba_PreToolUse_def Let_def startSpan_def setAttributes_def on_span_def
      nth_tr_start_new split: sum.splits)

lemma st_PreToolUse_parent:
  "hook_event_name inp = Some ''PreToolUse'' \<Longrightarrow>
   span_parent (tracer (snd (st_PreToolUse inp s)) ! length (tracer s)) = st_parentContext s"
  by (simp add: st_PreToolUse_def Let_def startSpan_def setAttributes_def on_span_def
      nth_tr_start_new split: sum.splits)

lemma deliver_ba [simp]:
  "hook_event_name inp = Some ''SubagentStart'' \<Longrightarrow> deliver ba_hooks inp s = snd (ba_SubagentStart inp s)"
  "hook_event_name inp = Some ''SubagentStop'' \<Longrightarrow> deliver ba_hooks inp s = snd (ba_SubagentStop inp s)"
  "hook_event_name inp = Some ''PreToolUse'' \<Longrightarrow> deliver ba_hooks inp s = snd (ba_PreToolUse inp s)"
  by (simp_all add: deliver_def ba_hooks_def)

lemma deliver_st [simp]:
  "hook_event_name inp = Some ''SubagentStart'' \<Longrightarrow> deliver st_hooks inp s = snd (st_SubagentStart inp s)"
  "hook_event_name inp = Some ''SubagentStop'' \<Longrightarrow> deliver st_hooks inp s = snd (st_SubagentStop inp s)"
  "hook_event_name inp = Some ''PreToolUse'' \<Longrightarrow> deliver st_hooks inp s = snd (st_PreToolUse inp s)"
  by (simp_all add: deliver_def st_hooks_def)

subsection \<open>What the closing handlers record\<close>

lemma status_before_end_closing:
  "End \<notin> set xs \<Longrightarrow> status_before_end (xs @ [SetStatus c m, End]) = Some (c, m)"
proof (induction xs)
  case Nil
  then show ?case by simp
next
  case (Cons x xs)
  then show ?case by (cases x) simp_all
qed

lemma closes_by_calls:
  assumes "h < length tr" and "ends (tr ! h) = 0"
    and "calls (tr' ! h) = calls (tr ! h) @ xs @ [SetStatus c m, End]" and "End \<notin> set xs"
  shows "closes tr tr' h (c, m)"
proof -
  have o: "End \<notin> set (calls (tr ! h) @ xs)"
    using assms(2,4) by (simp add: ends_0_iff)
  have "status_before_end ((calls (tr ! h) @ xs) @ [SetStatus c m, End]) = Some (c, m)"
    using o by (rule status_before_end_closing)
  moreover have "ends (tr' ! h) = 1"
    using assms(2,3,4) by (simp add: ends_def count_list_0_iff)
  ultimately show ?thesis
    using assms(1,2,3) by (simp add: closes_def closed_with_def)
qed

lemma st_tool_open:
  assumes "st_inv s" and "Map_get (st_toolSpans s) k = Some d"
  shows "st_span d < length (tracer s)" "ends (tracer s ! st_span d) = 0"
proof -
  have "st_span d \<in> (st_span \<circ> snd) ` set (st_toolSpans s)"
    using Map_get_in [OF assms(2)] by force
  moreover have "all_open ((st_span \<circ> snd) ` set (st_toolSpans s) \<union> (st_span \<circ> snd) ` set (st_agentSpans s)) (tracer s)"
    using assms(1) by (simp add: st_inv_def reg_inv_def st_views_image)
  ultimately show "st_span d < length (tracer s)" "ends (tracer s ! st_span d) = 0"
    by (auto simp: all_open_def)
qed

lemma st_agent_open:
  assumes "st_inv s" and "Map_get (st_agentSpans s) k = Some d"
  shows "st_span d < length (tracer s)" "ends (tracer s ! st_span d) = 0"
proof -
  have "st_span d \<in> (st_span \<circ> snd) ` set (st_agentSpans s)"
    using Map_get_in [OF assms(2)] by force
  moreover have "all_open ((st_span \<circ> snd) ` set (st_toolSpans s) \<union> (st_span \<circ> snd) ` set (st_agentSpans s)) (tracer s)"
    using assms(1) by (simp add: st_inv_def reg_inv_def st_views_image)
  ultimately show "st_span d < length (tracer s)" "ends (tracer s ! st_span d) = 0"
    by (auto simp: all_open_def)
qed

lemma st_PostToolUseFailure_effect:
  assumes "hook_event_name inp = Some ''PostToolUseFailure''"
    and "Map_get (st_toolSpans s) (tool_use_id inp) = Some d"
    and "st_span d < length (tracer s)"
  shows "fst (st_PostToolUseFailure inp s) = Inr (HookOutput True)"
    and "calls (tracer (snd (st_PostToolUseFailure inp s)) ! st_span d) =
           calls (tracer s ! st_span d) @
           [SetAttribute ''tool.success'' (ABool False),
            SetAttribute ''tool.error''
              (AStr (Some (truncateAttribute (js_or_str (error inp) ''Unknown error'')
                             MAX_ATTRIBUTE_LENGTH))),
            RecordException (js_or_str (error inp) ''Unknown error''),
            SetStatus ERROR (Some (truncateAttribute (js_or_str (error inp) ''Unknown error'') 256)),
            End]"
    and "Map_get (st_toolSpans (snd (st_PostToolUseFailure inp s))) (tool_use_id inp) = None"
  using assms
  by (simp_all add: st_PostToolUseFailure_def Let_def on_span_def calls_tr_call Map_get_delete)

lemma st_PostToolUse_effect:
  assumes "hook_event_name inp = Some ''PostToolUse''"
    and "Map_get (st_toolSpans s) (tool_use_id inp) = Some d"
    and "st_span d < length (tracer s)" and "responseSize (tool_response inp) = Inr n"
  shows "fst (st_PostToolUse inp s) = Inr (HookOutput True)"
    and "calls (tracer (snd (st_PostToolUse inp s)) ! st_span d) =
           calls (tracer s ! st_span d) @
           [SetAttribute ''tool.response.size_bytes'' (ANum n),
            SetAttribute ''tool.success'' (ABool True), SetStatus OK None, End]"
    and "Map_get (st_toolSpans (snd (st_PostToolUse inp s))) (tool_use_id inp) = None"
  using assms
  by (simp_all add: st_PostToolUse_def Let_def on_span_def calls_tr_call Map_get_delete)

lemma st_SubagentStop_effect:
  assumes "hook_event_name inp = Some ''SubagentStop''"
    and "Map_get (st_agentSpans s) (agent_id inp) = Some d"
    and "st_span d < length (tracer s)"
  shows "fst (st_SubagentStop inp s) = Inr (HookOutput True)"
    and "calls (tracer (snd (st_SubagentStop inp s)) ! st_span d) =
           calls (tracer s ! st_span d) @
           [SetAttribute ''agent.transcript_path'' (AStr (agent_transcript_path inp)),
            SetStatus OK None, End]"
    and "Map_get (st_agentSpans (snd (st_SubagentStop inp s))) (agent_id inp) = None"
  using assms
  by (simp_all add: st_SubagentStop_def Let_def on_span_def calls_tr_call Map_get_delete)

lemma ba_tool_open:
  assumes "ba_inv s" and "Map_get (ba_toolSpans s) k = Some d"
  shows "ba_span d < length (tracer s)" "ends (tracer s ! ba_span d) = 0"
proof -
  have "ba_span d \<in> (ba_span \<circ> snd) ` set (ba_toolSpans s)"
    using Map_get_in [OF assms(2)] by force
  moreover have "all_open ((ba_span \<circ> snd) ` set (ba_toolSpans s) \<union> (rootSpan \<circ> snd) ` set (ba_agentTraces s)) (tracer s)"
    using assms(1) by (simp add: ba_inv_def reg_inv_def ba_views_image)
  ultimately show "ba_span d < length (tracer s)" "ends (tracer s ! ba_span d) = 0"
    by (auto simp: all_open_def)
qed

lemma ba_agent_open:
  assumes "ba_inv s" and "Map_get (ba_agentTraces s) k = Some d"
  shows "rootSpan d < length (tracer s)" "ends (tracer s ! rootSpan d) = 0"
proof -
  have "rootSpan d \<in> (rootSpan \<circ> snd) ` set (ba_agentTraces s)"
    using Map_get_in [OF assms(2)] by force
  moreover have "all_open ((ba_span \<circ> snd) ` set (ba_toolSpans s) \<union> (rootSpan \<circ> snd) ` set (ba_agentTraces s)) (tracer s)"
    using assms(1) by (simp add: ba_inv_def reg_inv_def ba_views_image)
  ultimately show "rootSpan d < length (tracer s)" "ends (tracer s ! rootSpan d) = 0"
    by (auto simp: all_open_def)
qed

lemma ba_PostToolUseFailure_effect:
  assumes "hook_event_name inp = Some ''PostToolUseFailure''"
    and "Map_get (ba_toolSpans s) (tool_use_id inp) = Some d"
    and "ba_span d < length (tracer s)"
  shows "fst (ba_PostToolUseFailure inp s) = Inr (HookOutput True)"
    and "calls (tracer (snd (ba_PostToolUseFailure inp s)) ! ba_span d) =
           calls (tracer s ! ba_span d) @
           [SetAttribute ''tool.success'' (ABool False),
            SetAttribute ''tool.error''
              (AStr (Some (truncateAttribute (js_or_str (error inp) ''Unknown error'')
                             MAX_ATTRIBUTE_LENGTH))),
            RecordException (js_or_str (error inp) ''Unknown error''),
            SetStatus ERROR (Some (truncateAttribute (js_or_str (error inp) ''Unknown error'') 256)),
            End]"
    and "Map_get (ba_toolSpans (snd (ba_PostToolUseFailure inp s))) (tool_use_id inp) = None"
  using assms
  by (simp_all add: ba_PostToolUseFailure_def Let_def on_span_def calls_tr_call Map_get_delete)

lemma ba_PostToolUse_effect:
  assumes "hook_event_name inp = Some ''PostToolUse''"
    and "Map_get (ba_toolSpans s) (tool_use_id inp) = Some d"
    and "ba_span d < length (tracer s)" and "responseSize (tool_response inp) = Inr n"
  shows "fst (ba_PostToolUse inp s) = Inr (HookOutput True)"
    and "calls (tracer (snd (ba_PostToolUse inp s)) ! ba_span d) =
           calls (tracer s ! ba_span d) @
           [SetAttribute ''tool.response.size_bytes'' (ANum n),
            SetAttribute ''tool.success'' (ABool True), SetStatus OK None, End]"
    and "Map_get (ba_toolSpans (snd (ba_PostToolUse inp s))) (tool_use_id inp) = None"
  using assms
  by (simp_all add: ba_PostToolUse_def Let_def on_span_def calls_tr_call Map_get_delete)

lemma ba_SubagentStop_effect:
  assumes "hook_event_name inp = Some ''SubagentStop''"
    and "Map_get (ba_agentTraces s) (agent_id inp) = Some d"
    and "rootSpan d < length (tracer s)"
  shows "fst (ba_SubagentStop inp s) = Inr (HookOutput True)"
    and "calls (tracer (snd (ba_SubagentStop inp s)) ! rootSpan d) =
           calls (tracer s ! rootSpan d) @
           [SetAttribute ''agent.transcript_path'' (AStr (agent_transcript_path inp)),
            SetStatus OK None, End]"
    and "Map_get (ba_agentTraces (snd (ba_SubagentStop inp s))) (agent_id inp) = None"
  using assms
  by (simp_all add: ba_SubagentStop_def Let_def on_span_def calls_tr_call Map_get_delete)

lemma it_tool_open:
  assumes "it_inv s" and "Map_get (it_toolSpans s) k = Some d"
  shows "span d < length (tracer s)" "ends (tracer s ! span d) = 0"
proof -
  have "span d \<in> (span \<circ> snd) ` set (it_toolSpans s)"
    using Map_get_in [OF assms(2)] by force
  moreover have "all_open ((span \<circ> snd) ` set (it_toolSpans s) \<union> (span \<circ> snd) ` set (it_agentSpans s)) (tracer s)"
    using assms(1) by (simp add: it_inv_def reg_inv_def it_views_image)
  ultimately show "span d < length (tracer s)" "ends (tracer s ! span d) = 0"
    by (auto simp: all_open_def)
qed

lemma it_agent_open:
  assumes "it_inv s" and "Map_get (it_agentSpans s) k = Some d"
  shows "span d < length (tracer s)" "ends (tracer s ! span d) = 0"
proof -
  have "span d \<in> (span \<circ> snd) ` set (it_agentSpans s)"
    using Map_get_in [OF assms(2)] by force
  moreover have "all_open ((span \<circ> snd) ` set (it_toolSpans s) \<union> (span \<circ> snd) ` set (it_agentSpans s)) (tracer s)"
    using assms(1) by (simp add: it_inv_def reg_inv_def it_views_image)
  ultimately show "span d < length (tracer s)" "ends (tracer s ! span d) = 0"
    by (auto simp: all_open_def)
qed

lemma it_PostToolUseFailure_effect:
  assumes "hook_event_name inp = Some ''PostToolUseFailure''"
    and "Map_get (it_toolSpans s) (tool_use_id inp) = Some d"
    and "span d < length (tracer s)"
  shows "fst (it_PostToolUseFailure clock inp s) = Inr (HookOutput True)"
    and "calls (tracer (snd (it_PostToolUseFailure clock inp s)) ! span d) =
           calls (tracer s ! span d) @
           [SetAttribute ''duration_ms'' (ANum (clock (it_now_calls s) - startTime d)),
            SetAttribute ''tool.success'' (ABool False),
            SetStatus ERROR (Some ''Tool execution failed''),
            End]"
    and "Map_get (it_toolSpans (snd (it_PostToolUseFailure clock inp s))) (tool_use_id inp) = None"
  using assms
  by (simp_all add: it_PostToolUseFailure_def Let_def on_span_def Date_now_def calls_tr_call
      Map_get_delete)

lemma it_PostToolUse_effect:
  assumes "hook_event_name inp = Some ''PostToolUse''"
    and "Map_get (it_toolSpans s) (tool_use_id inp) = Some d"
    and "span d < length (tracer s)" and "responseSize (tool_response inp) = Inr n"
  shows "fst (it_PostToolUse clock inp s) = Inr (HookOutput True)"
    and "calls (tracer (snd (it_PostToolUse clock inp s)) ! span d) =
           calls (tracer s ! span d) @
           [SetAttribute ''duration_ms'' (ANum (clock (it_now_calls s) - startTime d)),
            SetAttribute ''tool.response.size_bytes'' (ANum n),
            SetAttribute ''tool.success'' (ABool True), SetStatus OK None, End]"
    and "Map_get (it_toolSpans (snd (it_PostToolUse clock inp s))) (tool_use_id inp) = None"
  using assms
  by (simp_all add: it_PostToolUse_def Let_def on_span_def Date_now_def calls_tr_call
      Map_get_delete)

lemma it_SubagentStop_effect:
  assumes "hook_event_name inp = Some ''SubagentStop''"
    and "Map_get (it_agentSpans s) (agent_id inp) = Some d"
    and "span d < length (tracer s)"
  shows "fst (it_SubagentStop clock inp s) = Inr (HookOutput True)"
    and "calls (tracer (snd (it_SubagentStop clock inp s)) ! span d) =
           calls (tracer s ! span d) @
           [SetAttribute ''agent.transcript_path'' (AStr (agent_transcript_path inp)),
            SetAttribute ''duration_ms'' (ANum (clock (it_now_calls s) - startTime d)),
            SetStatus OK None, End]"
    and "Map_get (it_agentSpans (snd (it_SubagentStop clock inp s))) (agent_id inp) = None"
  using assms
  by (simp_all add: it_SubagentStop_def Let_def on_span_def Date_now_def calls_tr_call
      Map_get_delete)

lemma closes_closed_with: "closes tr tr' h st \<Longrightarrow> closed_with (tr' ! h) = Some st"
  by (simp add: closes_def)

lemma truncateAttribute_cases:
  "truncateAttribute v n = (if n < length v then take n v @ ''... [truncated]'' else v)"
  by (simp add: truncateAttribute_def not_le [symmetric])

lemma failure_calls_read:
  assumes "calls sp = old @
                [SetAttribute ''tool.success'' b,
                 SetAttribute ''tool.error'' v,
                 RecordException m,
                 SetStatus ERROR msg,
                 End]"
  shows "attributes sp ''tool.error'' = Some v"
  using assms by (simp add: attributes_def)

subsection \<open>How a registered span is closed\<close>

lemma st_SubagentStop_closes:
  assumes "st_inv s" and "hook_event_name inp = Some ''SubagentStop''"
    and "Map_get (st_agentSpans s) (agent_id inp) = Some d"
  shows "closes (tracer s) (tracer (snd (st_SubagentStop inp s))) (st_span d) (OK, None)"
proof -
  note o = st_agent_open [OF assms(1,3)]
  note e = st_SubagentStop_effect(2) [OF assms(2,3) o(1)]
  show ?thesis
    using o e
    by (intro closes_by_calls [where xs = "[SetAttribute ''agent.transcript_path'' (AStr (agent_transcript_path inp))]"])
      simp_all
qed

lemma st_PostToolUse_closes:
  assumes "st_inv s" and "hook_event_name inp = Some ''PostToolUse''"
    and "Map_get (st_toolSpans s) (tool_use_id inp) = Some d"
    and "fst (st_PostToolUse inp s) = Inr (HookOutput True)"
  shows "closes (tracer s) (tracer (snd (st_PostToolUse inp s))) (st_span d) (OK, None)"
proof -
  note o = st_tool_open [OF assms(1,3)]
  obtain n where n: "responseSize (tool_response inp) = Inr n"
    using assms(2,3,4)
    by (cases "responseSize (tool_response inp)")
      (simp_all add: st_PostToolUse_def Let_def split: prod.splits)
  note e = st_PostToolUse_effect(2) [OF assms(2,3) o(1) n]
  show ?thesis
    using o e
    by (intro closes_by_calls [where xs = "[SetAttribute ''tool.response.size_bytes'' (ANum n),
         SetAttribute ''tool.success'' (ABool True)]"])
      simp_all
qed

lemma st_PostToolUseFailure_closes:
  assumes "st_inv s" and "hook_event_name inp = Some ''PostToolUseFailure''"
    and "Map_get (st_toolSpans s) (tool_use_id inp) = Some d"
  shows "closes (tracer s) (tracer (snd (st_PostToolUseFailure inp s))) (st_span d)
           (ERROR, Some (truncateAttribute (js_or_str (error inp) ''Unknown error'') 256))"
proof -
  note o = st_tool_open [OF assms(1,3)]
  note e = st_PostToolUseFailure_effect(2) [OF assms(2,3) o(1)]
  show ?thesis
    using o e
    by (intro closes_by_calls [where xs = "[SetAttribute ''tool.success'' (ABool False),
         SetAttribute ''tool.error''
           (AStr (Some (truncateAttribute (js_or_str (error inp) ''Unknown error'') MAX_ATTRIBUTE_LENGTH))),
         RecordException (js_or_str (error inp) ''Unknown error'')]"])
      simp_all
qed

lemma ba_SubagentStop_closes:
  assumes "ba_inv s" and "hook_event_name inp = Some ''SubagentStop''"
    and "Map_get (ba_agentTraces s) (agent_id inp) = Some d"
  shows "closes (tracer s) (tracer (snd (ba_SubagentStop inp s))) (rootSpan d) (OK, None)"
proof -
  note o = ba_agent_open [OF assms(1,3)]
  note e = ba_SubagentStop_effect(2) [OF assms(2,3) o(1)]
  show ?thesis
    using o e
    by (intro closes_by_calls [where xs = "[SetAttribute ''agent.transcript_path'' (AStr (agent_transcript_path inp))]"])
      simp_all
qed

lemma ba_PostToolUse_closes:
  assumes "ba_inv s" and "hook_event_name inp = Some ''PostToolUse''"
    and "Map_get (ba_toolSpans s) (tool_use_id inp) = Some d"
    and "fst (ba_PostToolUse inp s) = Inr (HookOutput True)"
  shows "closes (tracer s) (tracer (snd (ba_PostToolUse inp s))) (ba_span d) (OK, None)"
proof -
  note o = ba_tool_open [OF assms(1,3)]
  obtain n where n: "responseSize (tool_response inp) = Inr n"
    using assms(2,3,4)
    by (cases "responseSize (tool_response inp)")
      (simp_all add: ba_PostToolUse_def Let_def split: prod.splits)
  note e = ba_PostToolUse_effect(2) [OF assms(2,3) o(1) n]
  show ?thesis
    using o e
    by (intro closes_by_calls [where xs = "[SetAttribute ''tool.response.size_bytes'' (ANum n),
         SetAttribute ''tool.success'' (ABool True)]"])
      simp_all
qed

lemma ba_PostToolUseFailure_closes:
  assumes "ba_inv s" and "hook_event_name inp = Some ''PostToolUseFailure''"
    and "Map_get (ba_toolSpans s) (tool_use_id inp) = Some d"
  shows "closes (tracer s) (tracer (snd (ba_PostToolUseFailure inp s))) (ba_span d)
           (ERROR, Some (truncateAttribute (js_or_str (error inp) ''Unknown error'') 256))"
proof -
  note o = ba_tool_open [OF assms(1,3)]
  note e = ba_PostToolUseFailure_effect(2) [OF assms(2,3) o(1)]
  show ?thesis
    using o e
    by (intro closes_by_calls [where xs = "[SetAttribute ''tool.success'' (ABool False),
         SetAttribute ''tool.error''
           (AStr (Some (truncateAttribute (js_or_str (error inp) ''Unknown error'') MAX_ATTRIBUTE_LENGTH))),
         RecordException (js_or_str (error inp) ''Unknown error'')]"])
      simp_all
qed

lemma it_SubagentStop_closes:
  assumes "it_inv s" and "hook_event_name inp = Some ''SubagentStop''"
    and "Map_get (it_agentSpans s) (agent_id inp) = Some d"
  shows "closes (tracer s) (tracer (snd (it_SubagentStop clock inp s))) (span d) (OK, None)"
proof -
  note o = it_agent_open [OF assms(1,3)]
  note e = it_SubagentStop_effect(2) [OF assms(2,3) o(1), of clock]
  show ?thesis
    using o e
    by (intro closes_by_calls [where xs = "[SetAttribute ''agent.transcript_path'' (AStr (agent_transcript_path inp)),
         SetAttribute ''duration_ms'' (ANum (clock (it_now_calls s) - startTime d))]"])
      simp_all
qed

lemma it_PostToolUse_closes:
  assumes "it_inv s" and "hook_event_name inp = Some ''PostToolUse''"
    and "Map_get (it_toolSpans s) (tool_use_id inp) = Some d"
    and "fst (it_PostToolUse clock inp s) = Inr (HookOutput True)"
  shows "closes (tracer s) (tracer (snd (it_PostToolUse clock inp s))) (span d) (OK, None)"
proof -
  note o = it_tool_open [OF assms(1,3)]
  obtain n where n: "responseSize (tool_response inp) = Inr n"
    using assms(2,3,4)
    by (cases "responseSize (tool_response inp)")
      (simp_all add: it_PostToolUse_def Let_def Date_now_def split: prod.splits)
  note e = it_PostToolUse_effect(2) [OF assms(2,3) o(1) n, of clock]
  show ?thesis
    using o e
    by (intro closes_by_calls [where xs = "[SetAttribute ''duration_ms'' (ANum (clock (it_now_calls s) - startTime d)),
         SetAttribute ''tool.response.size_bytes'' (ANum n),
         SetAttribute ''tool.success'' (ABool True)]"])
      simp_all
qed

lemma it_PostToolUseFailure_closes:
  assumes "it_inv s" and "hook_event_name inp = Some ''PostToolUseFailure''"
    and "Map_get (it_toolSpans s) (tool_use_id inp) = Some d"
  shows "closes (tracer s) (tracer (snd (it_PostToolUseFailure clock inp s))) (span d)
           (ERROR, Some (''Tool execution failed''))"
proof -
  note o = it_tool_open [OF assms(1,3)]
  note e = it_PostToolUseFailure_effect(2) [OF assms(2,3) o(1), of clock]
  show ?thesis
    using o e
    by (intro closes_by_calls [where xs = "[SetAttribute ''duration_ms'' (ANum (clock (it_now_calls s) - startTime d)),
         SetAttribute ''tool.success'' (ABool False)]"])
      simp_all
qed

lemma st_orphans_closed:
  assumes "st_inv s" and "e \<in> set (st_toolSpans s) \<union> set (st_agentSpans s)"
  shows "closes (tracer s) (tracer (st_cleanup s)) (st_span (snd e)) (ERROR, Some ''Orphaned span'')"
proof -
  let ?h = "st_span (snd e)"
  obtain tr' where c: "st_cleanup s = s\<lparr>tracer := tr', st_toolSpans := [], st_agentSpans := []\<rparr>"
    and calls': "\<forall>h. calls (tr' ! h) =
            (if h \<in> (st_span \<circ> snd) ` (set (st_toolSpans s) \<union> set (st_agentSpans s))
             then calls (tracer s ! h) @ orphan_calls ''Orphaned span''
             else if h = st_sessionSpan s then calls (tracer s ! h) @ [SetStatus OK None, End]
             else calls (tracer s ! h))"
    using st_cleanup_effect [OF assms(1)] by blast
  have mem: "?h \<in> (st_span \<circ> snd) ` (set (st_toolSpans s) \<union> set (st_agentSpans s))"
    using assms(2) by force
  have "all_open ((st_span \<circ> snd) ` set (st_toolSpans s) \<union> (st_span \<circ> snd) ` set (st_agentSpans s)) (tracer s)"
    using assms(1) by (simp add: st_inv_def reg_inv_def st_views_image)
  then have o: "?h < length (tracer s)" "ends (tracer s ! ?h) = 0"
    using mem by (auto simp: all_open_def image_Un)
  have "calls (tr' ! ?h) = calls (tracer s ! ?h) @ [] @ [SetStatus ERROR (Some ''Orphaned span''), End]"
    using calls' mem by (simp add: orphan_calls_def)
  then have "closes (tracer s) tr' ?h (ERROR, Some ''Orphaned span'')"
    using o by (intro closes_by_calls [where xs = "[]"]) simp_all
  then show ?thesis
    by (simp add: c)
qed

lemma ba_orphan_tools_closed:
  assumes "ba_inv s" and "e \<in> set (ba_toolSpans s)"
  shows "closes (tracer s) (tracer (ba_cleanup s)) (ba_span (snd e)) (ERROR, Some ''Orphaned span'')"
proof -
  let ?h = "ba_span (snd e)"
  obtain tr' where c: "ba_cleanup s = s\<lparr>tracer := tr', ba_toolSpans := [], ba_agentTraces := []\<rparr>"
    and calls': "\<forall>h. calls (tr' ! h) =
            (if h \<in> (ba_span \<circ> snd) ` set (ba_toolSpans s)
             then calls (tracer s ! h) @ orphan_calls ''Orphaned span''
             else if h \<in> (rootSpan \<circ> snd) ` set (ba_agentTraces s)
             then calls (tracer s ! h) @ orphan_calls ''Orphaned agent trace''
             else calls (tracer s ! h))"
    using ba_cleanup_effect [OF assms(1)] by blast
  have mem: "?h \<in> (ba_span \<circ> snd) ` set (ba_toolSpans s)"
    using assms(2) by force
  have "all_open ((ba_span \<circ> snd) ` set (ba_toolSpans s) \<union> (rootSpan \<circ> snd) ` set (ba_agentTraces s)) (tracer s)"
    using assms(1) by (simp add: ba_inv_def reg_inv_def ba_views_image)
  then have o: "?h < length (tracer s)" "ends (tracer s ! ?h) = 0"
    using mem by (auto simp: all_open_def)
  have "calls (tr' ! ?h) = calls (tracer s ! ?h) @ [] @ [SetStatus ERROR (Some ''Orphaned span''), End]"
    using calls' mem by (simp add: orphan_calls_def)
  then have "closes (tracer s) tr' ?h (ERROR, Some ''Orphaned span'')"
    using o by (intro closes_by_calls [where xs = "[]"]) simp_all
  then show ?thesis
    by (simp add: c)
qed

lemma ba_orphan_agents_closed:
  assumes "ba_inv s" and "e \<in> set (ba_agentTraces s)"
  shows "closes (tracer s) (tracer (ba_cleanup s)) (rootSpan (snd e))
           (ERROR, Some ''Orphaned agent trace'')"
proof -
  let ?h = "rootSpan (snd e)"
  obtain tr' where c: "ba_cleanup s = s\<lparr>tracer := tr', ba_toolSpans := [], ba_agentTraces := []\<rparr>"
    and calls': "\<forall>h. calls (tr' ! h) =
            (if h \<in> (ba_span \<circ> snd) ` set (ba_toolSpans s)
             then calls (tracer s ! h) @ orphan_calls ''Orphaned span''
             else if h \<in> (rootSpan \<circ> snd) ` set (ba_agentTraces s)
             then calls (tracer s ! h) @ orphan_calls ''Orphaned agent trace''
             else calls (tracer s ! h))"
    using ba_cleanup_effect [OF assms(1)] by blast
  have mem: "?h \<in> (rootSpan \<circ> snd) ` set (ba_agentTraces s)"
    using assms(2) by force
  have r: "reg_inv [ba_sessionSpan s] (ba_tools s) (ba_agents s) (tracer s)"
    using assms(1) by (simp add: ba_inv_def)
  note p = reg_inv_parts [OF r, unfolded ba_views_image]
  have nmem: "?h \<notin> (ba_span \<circ> snd) ` set (ba_toolSpans s)"
    using mem p(6) by blast
  have o: "?h < length (tracer s)" "ends (tracer s ! ?h) = 0"
    using mem p(8) by (auto simp: all_open_def)
  have "calls (tr' ! ?h) = calls (tracer s ! ?h) @ [] @ [SetStatus ERROR (Some ''Orphaned agent trace''), End]"
    using calls' mem nmem by (simp add: orphan_calls_def)
  then have "closes (tracer s) tr' ?h (ERROR, Some ''Orphaned agent trace'')"
    using o by (intro closes_by_calls [where xs = "[]"]) simp_all
  then show ?thesis
    by (simp add: c)
qed

lemma it_orphans_closed:
  assumes "it_inv s" and "e \<in> set (it_toolSpans s) \<union> set (it_agentSpans s)"
  shows "closes (tracer s) (tracer (it_cleanup clock s)) (span (snd e)) (ERROR, Some ''Orphaned span'')"
proof -
  let ?h = "span (snd e)"
  obtain tr' n where c: "it_cleanup clock s =
           s\<lparr>tracer := tr', it_toolSpans := [], it_agentSpans := [], it_now_calls := n\<rparr>"
    and calls': "\<forall>h\<in>(span \<circ> snd) ` (set (it_toolSpans s) \<union> set (it_agentSpans s)).
            it_orphan (calls (tracer s ! h)) (calls (tr' ! h))"
    using it_cleanup_effect [OF assms(1), of clock] by blast
  have mem: "?h \<in> (span \<circ> snd) ` (set (it_toolSpans s) \<union> set (it_agentSpans s))"
    using assms(2) by force
  have "all_open ((span \<circ> snd) ` set (it_toolSpans s) \<union> (span \<circ> snd) ` set (it_agentSpans s)) (tracer s)"
    using assms(1) by (simp add: it_inv_def reg_inv_def it_views_image)
  then have o: "?h < length (tracer s)" "ends (tracer s ! ?h) = 0"
    using mem by (auto simp: all_open_def image_Un)
  obtain d where "calls (tr' ! ?h) =
      calls (tracer s ! ?h) @ [SetAttribute ''duration_ms'' (ANum d)] @
        [SetStatus ERROR (Some ''Orphaned span''), End]"
    using bspec [OF calls' mem] by (auto simp: it_orphan_def orphan_calls_def)
  then have "closes (tracer s) tr' ?h (ERROR, Some ''Orphaned span'')"
    using o by (intro closes_by_calls [where xs = "[SetAttribute ''duration_ms'' (ANum d)]"]) simp_all
  then show ?thesis
    by (simp add: c)
qed

subsection \<open>A span the tracker has let go is never touched again\<close>

lemma hook_marker_settled:
  assumes "h < length (tracer s)"
  shows "\<exists>tr'. snd (hook_marker ev nm ctx inp s) = s\<lparr>tracer := tr'\<rparr> \<and>
           h < length tr' \<and> calls (tr' ! h) = calls (tracer s ! h)"
proof (cases "hook_event_name inp = Some ev")
  case True
  then show ?thesis
    using assms
    by (auto simp: hook_marker_def Let_def startSpan_def setAttributes_def on_span_def
        calls_tr_call nth_tr_start intro!: exI)
next
  case False
  have "s\<lparr>tracer := tracer s\<rparr> = s" by simp
  with False assms show ?thesis
    by (auto simp: hook_marker_def intro!: exI [of _ "tracer s"])
qed

lemma st_marker_settled:
  assumes "st_settled h s"
  shows "st_settled h (snd (hook_marker ev nm ctx inp s)) \<and>
         calls (tracer (snd (hook_marker ev nm ctx inp s)) ! h) = calls (tracer s ! h)"
proof -
  have "h < length (tracer s)" using assms by (simp add: st_settled_def)
  from hook_marker_settled [OF this, of ev nm ctx inp] obtain tr' where
    "snd (hook_marker ev nm ctx inp s) = s\<lparr>tracer := tr'\<rparr>" "h < length tr'"
    "calls (tr' ! h) = calls (tracer s ! h)" by blast
  then show ?thesis using assms by (simp add: st_settled_def)
qed

lemma st_UserPromptSubmit_settled:
  assumes "st_settled h s"
  shows "st_settled h (snd (st_UserPromptSubmit inp s)) \<and>
         calls (tracer (snd (st_UserPromptSubmit inp s)) ! h) = calls (tracer s ! h)"
  using assms
  by (auto simp: st_settled_def st_UserPromptSubmit_def Let_def startSpan_def setAttributes_def
      on_span_def calls_tr_call nth_tr_start split: sum.splits option.splits)

lemma st_SubagentStart_settled:
  assumes "st_settled h s"
  shows "st_settled h (snd (st_SubagentStart inp s)) \<and>
         calls (tracer (snd (st_SubagentStart inp s)) ! h) = calls (tracer s ! h)"
  using assms
  by (auto simp: st_settled_def st_SubagentStart_def Let_def startSpan_def setAttributes_def
      on_span_def calls_tr_call nth_tr_start split: sum.splits option.splits dest!: Map_set_mem)

lemma st_SubagentStop_settled:
  assumes "st_settled h s"
  shows "st_settled h (snd (st_SubagentStop inp s)) \<and>
         calls (tracer (snd (st_SubagentStop inp s)) ! h) = calls (tracer s ! h)"
  using assms
  by (auto simp: st_settled_def st_SubagentStop_def Let_def 
      on_span_def calls_tr_call nth_tr_start split: option.splits dest!: Map_delete_mem Map_get_in) force+

lemma st_PreToolUse_settled:
  assumes "st_settled h s"
  shows "st_settled h (snd (st_PreToolUse inp s)) \<and>
         calls (tracer (snd (st_PreToolUse inp s)) ! h) = calls (tracer s ! h)"
  using assms
  by (auto simp: st_settled_def st_PreToolUse_def Let_def startSpan_def setAttributes_def
      on_span_def calls_tr_call nth_tr_start split: sum.splits option.splits dest!: Map_set_mem)

lemma st_PostToolUse_settled:
  assumes "st_settled h s"
  shows "st_settled h (snd (st_PostToolUse inp s)) \<and>
         calls (tracer (snd (st_PostToolUse inp s)) ! h) = calls (tracer s ! h)"
  using assms
  by (auto simp: st_settled_def st_PostToolUse_def Let_def 
      on_span_def calls_tr_call nth_tr_start split: option.splits sum.splits dest!: Map_delete_mem Map_get_in) force+

lemma st_PostToolUseFailure_settled:
  assumes "st_settled h s"
  shows "st_settled h (snd (st_PostToolUseFailure inp s)) \<and>
         calls (tracer (snd (st_PostToolUseFailure inp s)) ! h) = calls (tracer s ! h)"
  using assms
  by (auto simp: st_settled_def st_PostToolUseFailure_def Let_def 
      on_span_def calls_tr_call nth_tr_start split: option.splits dest!: Map_delete_mem Map_get_in) force+

lemma st_hooks_settled:
  assumes "(n, hook) \<in> set st_hooks" and "st_settled h s"
  shows "st_settled h (snd (hook inp s)) \<and>
         calls (tracer (snd (hook inp s)) ! h) = calls (tracer s ! h)"
  using assms(1)
    st_UserPromptSubmit_settled [OF assms(2)] st_SubagentStart_settled [OF assms(2)]
    st_SubagentStop_settled [OF assms(2)] st_PreToolUse_settled [OF assms(2)]
    st_PostToolUse_settled [OF assms(2)] st_PostToolUseFailure_settled [OF assms(2)]
    st_marker_settled [OF assms(2)]
  by (auto simp: st_hooks_def st_SessionStart_def st_SessionEnd_def st_Notification_def
      st_PermissionRequest_def st_PreCompact_def st_Stop_def st_Setup_def)

lemma st_deliver_settled:
  assumes "st_settled h s"
  shows "st_settled h (deliver st_hooks inp s) \<and>
         calls (tracer (deliver st_hooks inp s) ! h) = calls (tracer s ! h)"
  using assms
  by (auto simp: deliver_def split: option.splits dest!: map_of_SomeD
      dest: st_hooks_settled)

lemma st_run_settled:
  "st_settled h s \<Longrightarrow>
   st_settled h (run st_hooks events s) \<and>
   calls (tracer (run st_hooks events s) ! h) = calls (tracer s ! h)"
  unfolding run_def
proof (induction events arbitrary: s)
  case Nil
  then show ?case by simp
next
  case (Cons e events)
  from st_deliver_settled [OF Cons.prems, of e] Cons.IH [of "deliver st_hooks e s"]
  show ?case by simp
qed

lemma ba_marker_settled:
  assumes "ba_settled h s"
  shows "ba_settled h (snd (hook_marker ev nm ctx inp s)) \<and>
         calls (tracer (snd (hook_marker ev nm ctx inp s)) ! h) = calls (tracer s ! h)"
proof -
  have "h < length (tracer s)" using assms by (simp add: ba_settled_def)
  from hook_marker_settled [OF this, of ev nm ctx inp] obtain tr' where
    "snd (hook_marker ev nm ctx inp s) = s\<lparr>tracer := tr'\<rparr>" "h < length tr'"
    "calls (tr' ! h) = calls (tracer s ! h)" by blast
  then show ?thesis using assms by (simp add: ba_settled_def)
qed

lemma ba_UserPromptSubmit_settled:
  assumes "ba_settled h s"
  shows "ba_settled h (snd (ba_UserPromptSubmit inp s)) \<and>
         calls (tracer (snd (ba_UserPromptSubmit inp s)) ! h) = calls (tracer s ! h)"
  using assms
  by (auto simp: ba_settled_def ba_UserPromptSubmit_def Let_def startSpan_def setAttributes_def
      on_span_def calls_tr_call nth_tr_start split: sum.splits option.splits)

lemma ba_SubagentStart_settled:
  assumes "ba_settled h s"
  shows "ba_settled h (snd (ba_SubagentStart inp s)) \<and>
         calls (tracer (snd (ba_SubagentStart inp s)) ! h) = calls (tracer s ! h)"
  using assms
  by (auto simp: ba_settled_def ba_SubagentStart_def Let_def startSpan_def setAttributes_def
      on_span_def calls_tr_call nth_tr_start split: sum.splits option.splits dest!: Map_set_mem)

lemma ba_SubagentStop_settled:
  assumes "ba_settled h s"
  shows "ba_settled h (snd (ba_SubagentStop inp s)) \<and>
         calls (tracer (snd (ba_SubagentStop inp s)) ! h) = calls (tracer s ! h)"
  using assms
  by (auto simp: ba_settled_def ba_SubagentStop_def Let_def 
      on_span_def calls_tr_call nth_tr_start split: option.splits dest!: Map_delete_mem Map_get_in) force+

lemma ba_PreToolUse_settled:
  assumes "ba_settled h s"
  shows "ba_settled h (snd (ba_PreToolUse inp s)) \<and>
         calls (tracer (snd (ba_PreToolUse inp s)) ! h) = calls (tracer s ! h)"
  using assms
  by (auto simp: ba_settled_def ba_PreToolUse_def Let_def startSpan_def setAttributes_def
      on_span_def calls_tr_call nth_tr_start split: sum.splits option.splits dest!: Map_set_mem)

lemma ba_PostToolUse_settled:
  assumes "ba_settled h s"
  shows "ba_settled h (snd (ba_PostToolUse inp s)) \<and>
         calls (tracer (snd (ba_PostToolUse inp s)) ! h) = calls (tracer s ! h)"
  using assms
  by (auto simp: ba_settled_def ba_PostToolUse_def Let_def 
      on_span_def calls_tr_call nth_tr_start split: option.splits sum.splits dest!: Map_delete_mem Map_get_in) force+

lemma ba_PostToolUseFailure_settled:
  assumes "ba_settled h s"
  shows "ba_settled h (snd (ba_PostToolUseFailure inp s)) \<and>
         calls (tracer (snd (ba_PostToolUseFailure inp s)) ! h) = calls (tracer s ! h)"
  using assms
  by (auto simp: ba_settled_def ba_PostToolUseFailure_def Let_def 
      on_span_def calls_tr_call nth_tr_start split: option.splits dest!: Map_delete_mem Map_get_in) force+

lemma ba_hooks_settled:
  assumes "(n, hook) \<in> set ba_hooks" and "ba_settled h s"
  shows "ba_settled h (snd (hook inp s)) \<and>
         calls (tracer (snd (hook inp s)) ! h) = calls (tracer s ! h)"
  using assms(1)
    ba_UserPromptSubmit_settled [OF assms(2)] ba_SubagentStart_settled [OF assms(2)]
    ba_SubagentStop_settled [OF assms(2)] ba_PreToolUse_settled [OF assms(2)]
    ba_PostToolUse_settled [OF assms(2)] ba_PostToolUseFailure_settled [OF assms(2)]
    ba_marker_settled [OF assms(2)]
  by (auto simp: ba_hooks_def ba_SessionStart_def ba_SessionEnd_def ba_Notification_def
      ba_PermissionRequest_def ba_PreCompact_def ba_Stop_def ba_Setup_def)

lemma ba_deliver_settled:
  assumes "ba_settled h s"
  shows "ba_settled h (deliver ba_hooks inp s) \<and>
         calls (tracer (deliver ba_hooks inp s) ! h) = calls (tracer s ! h)"
  using assms
  by (auto simp: deliver_def split: option.splits dest!: map_of_SomeD
      dest: ba_hooks_settled)

lemma ba_run_settled:
  "ba_settled h s \<Longrightarrow>
   ba_settled h (run ba_hooks events s) \<and>
   calls (tracer (run ba_hooks events s) ! h) = calls (tracer s ! h)"
  unfolding run_def
proof (induction events arbitrary: s)
  case Nil
  then show ?case by simp
next
  case (Cons e events)
  from ba_deliver_settled [OF Cons.prems, of e] Cons.IH [of "deliver ba_hooks e s"]
  show ?case by simp
qed

lemma it_marker_settled:
  assumes "it_settled h s"
  shows "it_settled h (snd (it_marker ev nm inp s)) \<and>
         calls (tracer (snd (it_marker ev nm inp s)) ! h) = calls (tracer s ! h)"
  using assms
  by (auto simp: it_settled_def it_marker_def Let_def startSpan_def setAttributes_def
      on_span_def calls_tr_call nth_tr_start)

lemma it_UserPromptSubmit_settled:
  assumes "it_settled h s"
  shows "it_settled h (snd (it_UserPromptSubmit inp s)) \<and>
         calls (tracer (snd (it_UserPromptSubmit inp s)) ! h) = calls (tracer s ! h)"
  using assms
  by (auto simp: it_settled_def it_UserPromptSubmit_def Let_def startSpan_def setAttributes_def
      on_span_def calls_tr_call nth_tr_start split: sum.splits option.splits)

lemma it_SubagentStart_settled:
  assumes "it_settled h s"
  shows "it_settled h (snd (it_SubagentStart clock inp s)) \<and>
         calls (tracer (snd (it_SubagentStart clock inp s)) ! h) = calls (tracer s ! h)"
  using assms
  by (auto simp: it_settled_def it_SubagentStart_def Let_def startSpan_def setAttributes_def Date_now_def
      on_span_def calls_tr_call nth_tr_start split: sum.splits option.splits dest!: Map_set_mem)

lemma it_SubagentStop_settled:
  assumes "it_settled h s"
  shows "it_settled h (snd (it_SubagentStop clock inp s)) \<and>
         calls (tracer (snd (it_SubagentStop clock inp s)) ! h) = calls (tracer s ! h)"
  using assms
  by (auto simp: it_settled_def it_SubagentStop_def Let_def  Date_now_def
      on_span_def calls_tr_call nth_tr_start split: option.splits dest!: Map_delete_mem Map_get_in) force+

lemma it_PreToolUse_settled:
  assumes "it_settled h s"
  shows "it_settled h (snd (it_PreToolUse clock inp s)) \<and>
         calls (tracer (snd (it_PreToolUse clock inp s)) ! h) = calls (tracer s ! h)"
  using assms
  by (auto simp: it_settled_def it_PreToolUse_def Let_def startSpan_def setAttributes_def Date_now_def
      on_span_def calls_tr_call nth_tr_start split: sum.splits option.splits dest!: Map_set_mem)

lemma it_PostToolUse_settled:
  assumes "it_settled h s"
  shows "it_settled h (snd (it_PostToolUse clock inp s)) \<and>
         calls (tracer (snd (it_PostToolUse clock inp s)) ! h) = calls (tracer s ! h)"
  using assms
  by (auto simp: it_settled_def it_PostToolUse_def Let_def  Date_now_def
      on_span_def calls_tr_call nth_tr_start split: option.splits sum.splits dest!: Map_delete_mem Map_get_in) force+

lemma it_PostToolUseFailure_settled:
  assumes "it_settled h s"
  shows "it_settled h (snd (it_PostToolUseFailure clock inp s)) \<and>
         calls (tracer (snd (it_PostToolUseFailure clock inp s)) ! h) = calls (tracer s ! h)"
  using assms
  by (auto simp: it_settled_def it_PostToolUseFailure_def Let_def  Date_now_def
      on_span_def calls_tr_call nth_tr_start split: option.splits dest!: Map_delete_mem Map_get_in) force+

lemma it_hooks_settled:
  assumes "(n, hook) \<in> set (it_hooks clock)" and "it_settled h s"
  shows "it_settled h (snd (hook inp s)) \<and>
         calls (tracer (snd (hook inp s)) ! h) = calls (tracer s ! h)"
  using assms(1)
    it_UserPromptSubmit_settled [OF assms(2)] it_SubagentStart_settled [OF assms(2)]
    it_SubagentStop_settled [OF assms(2)] it_PreToolUse_settled [OF assms(2)]
    it_PostToolUse_settled [OF assms(2)] it_PostToolUseFailure_settled [OF assms(2)]
    it_marker_settled [OF assms(2)]
  by (auto simp: it_hooks_def it_SessionStart_def it_SessionEnd_def it_Notification_def
      it_PermissionRequest_def it_PreCompact_def it_Stop_def it_Setup_def)

lemma it_deliver_settled:
  assumes "it_settled h s"
  shows "it_settled h (deliver (it_hooks clock) inp s) \<and>
         calls (tracer (deliver (it_hooks clock) inp s) ! h) = calls (tracer s ! h)"
  using assms
  by (auto simp: deliver_def split: option.splits dest!: map_of_SomeD
      dest: it_hooks_settled)

lemma it_run_settled:
  "it_settled h s \<Longrightarrow>
   it_settled h (run (it_hooks clock) events s) \<and>
   calls (tracer (run (it_hooks clock) events s) ! h) = calls (tracer s ! h)"
  unfolding run_def
proof (induction events arbitrary: s)
  case Nil
  then show ?case by simp
next
  case (Cons e events)
  from it_deliver_settled [OF Cons.prems, of clock e] Cons.IH [of "deliver (it_hooks clock) e s"]
  show ?case by simp
qed

lemma st_tool_apart:
  assumes "st_inv s" and "Map_get (st_toolSpans s) k = Some d"
  shows "st_span d < length (tracer s)"
    "st_span d \<noteq> st_rootSpan s"
    "st_span d \<noteq> st_sessionSpan s"
    "st_span d \<notin> (st_span \<circ> snd) ` set (Map_delete (st_toolSpans s) k)"
    "st_span d \<notin> (st_span \<circ> snd) ` set (st_agentSpans s)"
proof -
  have r: "reg_inv [st_rootSpan s, st_sessionSpan s] (st_tools s) (st_agents s) (tracer s)"
    using assms(1) by (simp add: st_inv_def)
  note p = reg_inv_parts [OF r, unfolded st_views_image]
  have mem: "st_span d \<in> (st_span \<circ> snd) ` set (st_toolSpans s)"
    using Map_get_in [OF assms(2)] by force
  show "st_span d < length (tracer s)"
    using mem p(8) by (auto simp: all_open_def)
  show "st_span d \<noteq> st_rootSpan s" "st_span d \<noteq> st_sessionSpan s"
    using mem p(7) by force+
  show "st_span d \<notin> (st_span \<circ> snd) ` set (Map_delete (st_toolSpans s) k)"
    using Map_get_deleted [OF assms(2), of st_span] p(4) by simp
  show "st_span d \<notin> (st_span \<circ> snd) ` set (st_agentSpans s)"
    using mem p(6) by blast
qed

lemma st_agent_apart:
  assumes "st_inv s" and "Map_get (st_agentSpans s) k = Some d"
  shows "st_span d < length (tracer s)"
    "st_span d \<noteq> st_rootSpan s"
    "st_span d \<noteq> st_sessionSpan s"
    "st_span d \<notin> (st_span \<circ> snd) ` set (Map_delete (st_agentSpans s) k)"
    "st_span d \<notin> (st_span \<circ> snd) ` set (st_toolSpans s)"
proof -
  have r: "reg_inv [st_rootSpan s, st_sessionSpan s] (st_tools s) (st_agents s) (tracer s)"
    using assms(1) by (simp add: st_inv_def)
  note p = reg_inv_parts [OF r, unfolded st_views_image]
  have mem: "st_span d \<in> (st_span \<circ> snd) ` set (st_agentSpans s)"
    using Map_get_in [OF assms(2)] by force
  show "st_span d < length (tracer s)"
    using mem p(8) by (auto simp: all_open_def)
  show "st_span d \<noteq> st_rootSpan s" "st_span d \<noteq> st_sessionSpan s"
    using mem p(7) by force+
  show "st_span d \<notin> (st_span \<circ> snd) ` set (Map_delete (st_agentSpans s) k)"
    using Map_get_deleted [OF assms(2), of st_span] p(5) by simp
  show "st_span d \<notin> (st_span \<circ> snd) ` set (st_toolSpans s)"
    using mem p(6) by blast
qed

lemma st_SubagentStop_settles:
  assumes "st_inv s" and "hook_event_name inp = Some ''SubagentStop''"
    and "Map_get (st_agentSpans s) (agent_id inp) = Some d"
  shows "st_settled (st_span d) (snd (st_SubagentStop inp s))"
  using st_agent_apart [OF assms(1,3)] assms(2,3)
  by (simp add: st_settled_def st_SubagentStop_def Let_def on_span_def split: prod.splits)

lemma st_PostToolUse_settles:
  assumes "st_inv s" and "hook_event_name inp = Some ''PostToolUse''"
    and "Map_get (st_toolSpans s) (tool_use_id inp) = Some d"
    and "responseSize (tool_response inp) = Inr n"
  shows "st_settled (st_span d) (snd (st_PostToolUse inp s))"
  using st_tool_apart [OF assms(1,3)] assms(2,3) assms(4)
  by (simp add: st_settled_def st_PostToolUse_def Let_def on_span_def split: prod.splits)

lemma st_PostToolUseFailure_settles:
  assumes "st_inv s" and "hook_event_name inp = Some ''PostToolUseFailure''"
    and "Map_get (st_toolSpans s) (tool_use_id inp) = Some d"
  shows "st_settled (st_span d) (snd (st_PostToolUseFailure inp s))"
  using st_tool_apart [OF assms(1,3)] assms(2,3)
  by (simp add: st_settled_def st_PostToolUseFailure_def Let_def on_span_def split: prod.splits)

lemma st_cleanup_settled:
  assumes "st_inv s" and "st_settled h s"
  shows "calls (tracer (st_cleanup s) ! h) = calls (tracer s ! h)"
proof -
  obtain tr' where c: "st_cleanup s = s\<lparr>tracer := tr', st_toolSpans := [], st_agentSpans := []\<rparr>"
    and calls': "\<forall>h. calls (tr' ! h) =
            (if h \<in> (st_span \<circ> snd) ` (set (st_toolSpans s) \<union> set (st_agentSpans s))
             then calls (tracer s ! h) @ orphan_calls ''Orphaned span''
             else if h = st_sessionSpan s then calls (tracer s ! h) @ [SetStatus OK None, End]
             else calls (tracer s ! h))"
    using st_cleanup_effect [OF assms(1)] by blast
  have "h \<notin> (st_span \<circ> snd) ` (set (st_toolSpans s) \<union> set (st_agentSpans s))"
    "h \<noteq> st_sessionSpan s"
    using assms(2) by (auto simp: st_settled_def)
  then show ?thesis
    using calls' by (simp add: c)
qed

lemma st_settled_forever:
  assumes "st_inv s" and "st_settled h s"
  shows "calls (tracer (st_cleanup (run st_hooks later s)) ! h) = calls (tracer s ! h)"
  using st_cleanup_settled [OF st_run_inv [OF assms(1)], of h later]
    st_run_settled [OF assms(2), of later]
  by simp

lemma ba_tool_apart:
  assumes "ba_inv s" and "Map_get (ba_toolSpans s) k = Some d"
  shows "ba_span d < length (tracer s)"
    "ba_span d \<noteq> ba_sessionSpan s"
    "ba_span d \<notin> (ba_span \<circ> snd) ` set (Map_delete (ba_toolSpans s) k)"
    "ba_span d \<notin> (rootSpan \<circ> snd) ` set (ba_agentTraces s)"
proof -
  have r: "reg_inv [ba_sessionSpan s] (ba_tools s) (ba_agents s) (tracer s)"
    using assms(1) by (simp add: ba_inv_def)
  note p = reg_inv_parts [OF r, unfolded ba_views_image]
  have mem: "ba_span d \<in> (ba_span \<circ> snd) ` set (ba_toolSpans s)"
    using Map_get_in [OF assms(2)] by force
  show "ba_span d < length (tracer s)"
    using mem p(8) by (auto simp: all_open_def)
  show "ba_span d \<noteq> ba_sessionSpan s"
    using mem p(7) by force+
  show "ba_span d \<notin> (ba_span \<circ> snd) ` set (Map_delete (ba_toolSpans s) k)"
    using Map_get_deleted [OF assms(2), of ba_span] p(4) by simp
  show "ba_span d \<notin> (rootSpan \<circ> snd) ` set (ba_agentTraces s)"
    using mem p(6) by blast
qed

lemma ba_agent_apart:
  assumes "ba_inv s" and "Map_get (ba_agentTraces s) k = Some d"
  shows "rootSpan d < length (tracer s)"
    "rootSpan d \<noteq> ba_sessionSpan s"
    "rootSpan d \<notin> (rootSpan \<circ> snd) ` set (Map_delete (ba_agentTraces s) k)"
    "rootSpan d \<notin> (ba_span \<circ> snd) ` set (ba_toolSpans s)"
proof -
  have r: "reg_inv [ba_sessionSpan s] (ba_tools s) (ba_agents s) (tracer s)"
    using assms(1) by (simp add: ba_inv_def)
  note p = reg_inv_parts [OF r, unfolded ba_views_image]
  have mem: "rootSpan d \<in> (rootSpan \<circ> snd) ` set (ba_agentTraces s)"
    using Map_get_in [OF assms(2)] by force
  show "rootSpan d < length (tracer s)"
    using mem p(8) by (auto simp: all_open_def)
  show "rootSpan d \<noteq> ba_sessionSpan s"
    using mem p(7) by force+
  show "rootSpan d \<notin> (rootSpan \<circ> snd) ` set (Map_delete (ba_agentTraces s) k)"
    using Map_get_deleted [OF assms(2), of rootSpan] p(5) by simp
  show "rootSpan d \<notin> (ba_span \<circ> snd) ` set (ba_toolSpans s)"
    using mem p(6) by blast
qed

lemma ba_SubagentStop_settles:
  assumes "ba_inv s" and "hook_event_name inp = Some ''SubagentStop''"
    and "Map_get (ba_agentTraces s) (agent_id inp) = Some d"
  shows "ba_settled (rootSpan d) (snd (ba_SubagentStop inp s))"
  using ba_agent_apart [OF assms(1,3)] assms(2,3)
  by (simp add: ba_settled_def ba_SubagentStop_def Let_def on_span_def split: prod.splits)

lemma ba_PostToolUse_settles:
  assumes "ba_inv s" and "hook_event_name inp = Some ''PostToolUse''"
    and "Map_get (ba_toolSpans s) (tool_use_id inp) = Some d"
    and "responseSize (tool_response inp) = Inr n"
  shows "ba_settled (ba_span d) (snd (ba_PostToolUse inp s))"
  using ba_tool_apart [OF assms(1,3)] assms(2,3) assms(4)
  by (simp add: ba_settled_def ba_PostToolUse_def Let_def on_span_def split: prod.splits)

lemma ba_PostToolUseFailure_settles:
  assumes "ba_inv s" and "hook_event_name inp = Some ''PostToolUseFailure''"
    and "Map_get (ba_toolSpans s) (tool_use_id inp) = Some d"
  shows "ba_settled (ba_span d) (snd (ba_PostToolUseFailure inp s))"
  using ba_tool_apart [OF assms(1,3)] assms(2,3)
  by (simp add: ba_settled_def ba_PostToolUseFailure_def Let_def on_span_def split: prod.splits)

lemma ba_cleanup_settled:
  assumes "ba_inv s" and "ba_settled h s"
  shows "calls (tracer (ba_cleanup s) ! h) = calls (tracer s ! h)"
proof -
  obtain tr' where c: "ba_cleanup s = s\<lparr>tracer := tr', ba_toolSpans := [], ba_agentTraces := []\<rparr>"
    and calls': "\<forall>h. calls (tr' ! h) =
            (if h \<in> (ba_span \<circ> snd) ` set (ba_toolSpans s)
             then calls (tracer s ! h) @ orphan_calls ''Orphaned span''
             else if h \<in> (rootSpan \<circ> snd) ` set (ba_agentTraces s)
             then calls (tracer s ! h) @ orphan_calls ''Orphaned agent trace''
             else calls (tracer s ! h))"
    using ba_cleanup_effect [OF assms(1)] by blast
  have "h \<notin> (ba_span \<circ> snd) ` set (ba_toolSpans s)"
    "h \<notin> (rootSpan \<circ> snd) ` set (ba_agentTraces s)"
    using assms(2) by (auto simp: ba_settled_def)
  then show ?thesis
    using calls' by (simp add: c)
qed

lemma ba_settled_forever:
  assumes "ba_inv s" and "ba_settled h s"
  shows "calls (tracer (ba_cleanup (run ba_hooks later s)) ! h) = calls (tracer s ! h)"
  using ba_cleanup_settled [OF ba_run_inv [OF assms(1)], of h later]
    ba_run_settled [OF assms(2), of later]
  by simp

lemma it_tool_apart:
  assumes "it_inv s" and "Map_get (it_toolSpans s) k = Some d"
  shows "span d < length (tracer s)"
    "span d \<notin> (span \<circ> snd) ` set (Map_delete (it_toolSpans s) k)"
    "span d \<notin> (span \<circ> snd) ` set (it_agentSpans s)"
proof -
  have r: "reg_inv [] (it_tools s) (it_agents s) (tracer s)"
    using assms(1) by (simp add: it_inv_def)
  note p = reg_inv_parts [OF r, unfolded it_views_image]
  have mem: "span d \<in> (span \<circ> snd) ` set (it_toolSpans s)"
    using Map_get_in [OF assms(2)] by force
  show "span d < length (tracer s)"
    using mem p(8) by (auto simp: all_open_def)
  show "span d \<notin> (span \<circ> snd) ` set (Map_delete (it_toolSpans s) k)"
    using Map_get_deleted [OF assms(2), of span] p(4) by simp
  show "span d \<notin> (span \<circ> snd) ` set (it_agentSpans s)"
    using mem p(6) by blast
qed

lemma it_agent_apart:
  assumes "it_inv s" and "Map_get (it_agentSpans s) k = Some d"
  shows "span d < length (tracer s)"
    "span d \<notin> (span \<circ> snd) ` set (Map_delete (it_agentSpans s) k)"
    "span d \<notin> (span \<circ> snd) ` set (it_toolSpans s)"
proof -
  have r: "reg_inv [] (it_tools s) (it_agents s) (tracer s)"
    using assms(1) by (simp add: it_inv_def)
  note p = reg_inv_parts [OF r, unfolded it_views_image]
  have mem: "span d \<in> (span \<circ> snd) ` set (it_agentSpans s)"
    using Map_get_in [OF assms(2)] by force
  show "span d < length (tracer s)"
    using mem p(8) by (auto simp: all_open_def)
  show "span d \<notin> (span \<circ> snd) ` set (Map_delete (it_agentSpans s) k)"
    using Map_get_deleted [OF assms(2), of span] p(5) by simp
  show "span d \<notin> (span \<circ> snd) ` set (it_toolSpans s)"
    using mem p(6) by blast
qed

lemma it_SubagentStop_settles:
  assumes "it_inv s" and "hook_event_name inp = Some ''SubagentStop''"
    and "Map_get (it_agentSpans s) (agent_id inp) = Some d"
  shows "it_settled (span d) (snd (it_SubagentStop clock inp s))"
  using it_agent_apart [OF assms(1,3)] assms(2,3)
  by (simp add: it_settled_def it_SubagentStop_def Let_def on_span_def Date_now_def split: prod.splits)

lemma it_PostToolUse_settles:
  assumes "it_inv s" and "hook_event_name inp = Some ''PostToolUse''"
    and "Map_get (it_toolSpans s) (tool_use_id inp) = Some d"
    and "responseSize (tool_response inp) = Inr n"
  shows "it_settled (span d) (snd (it_PostToolUse clock inp s))"
  using it_tool_apart [OF assms(1,3)] assms(2,3) assms(4)
  by (simp add: it_settled_def it_PostToolUse_def Let_def on_span_def Date_now_def split: prod.splits)

lemma it_PostToolUseFailure_settles:
  assumes "it_inv s" and "hook_event_name inp = Some ''PostToolUseFailure''"
    and "Map_get (it_toolSpans s) (tool_use_id inp) = Some d"
  shows "it_settled (span d) (snd (it_PostToolUseFailure clock inp s))"
  using it_tool_apart [OF assms(1,3)] assms(2,3)
  by (simp add: it_settled_def it_PostToolUseFailure_def Let_def on_span_def Date_now_def split: prod.splits)

lemma it_cleanup_settled:
  assumes "it_inv s" and "it_settled h s"
  shows "calls (tracer (it_cleanup clock s) ! h) = calls (tracer s ! h)"
proof -
  obtain tr' n where c: "it_cleanup clock s =
           s\<lparr>tracer := tr', it_toolSpans := [], it_agentSpans := [], it_now_calls := n\<rparr>"
    and calls': "\<forall>h. h \<notin> (span \<circ> snd) ` (set (it_toolSpans s) \<union> set (it_agentSpans s)) \<longrightarrow>
            calls (tr' ! h) = calls (tracer s ! h)"
    using it_cleanup_effect [OF assms(1), of clock] by blast
  have "h \<notin> (span \<circ> snd) ` (set (it_toolSpans s) \<union> set (it_agentSpans s))"
    using assms(2) by (auto simp: it_settled_def)
  then show ?thesis
    using calls' by (simp add: c)
qed

lemma it_settled_forever:
  assumes "it_inv s" and "it_settled h s"
  shows "calls (tracer (it_cleanup clock (run (it_hooks clock) later s)) ! h) = calls (tracer s ! h)"
  using it_cleanup_settled [OF it_run_inv [OF assms(1)], of h clock later]
    it_run_settled [OF assms(2), of clock later]
  by simp

lemma st_SubagentStop_for_good:
  assumes "st_inv s" and "hook_event_name inp = Some ''SubagentStop''"
    and "Map_get (st_agentSpans s) (agent_id inp) = Some d"
  shows "closes (tracer s) (tracer (snd (st_SubagentStop inp s))) (st_span d) (OK, None) \<and>
         calls (tracer (st_cleanup (run st_hooks later (snd (st_SubagentStop inp s)))) ! st_span d) =
           calls (tracer (snd (st_SubagentStop inp s)) ! st_span d)"
proof -
  note c = st_SubagentStop_closes [OF assms]
  note t = st_SubagentStop_settles [OF assms]
  note i = st_SubagentStop_inv [OF assms(1), of inp]
  show ?thesis
    using c st_settled_forever [OF i t] by simp
qed

lemma st_PostToolUse_for_good:
  assumes "st_inv s" and "hook_event_name inp = Some ''PostToolUse''"
    and "Map_get (st_toolSpans s) (tool_use_id inp) = Some d"
    and "fst (st_PostToolUse inp s) = Inr (HookOutput True)"
  shows "closes (tracer s) (tracer (snd (st_PostToolUse inp s))) (st_span d) (OK, None) \<and>
         calls (tracer (st_cleanup (run st_hooks later (snd (st_PostToolUse inp s)))) ! st_span d) =
           calls (tracer (snd (st_PostToolUse inp s)) ! st_span d)"
proof -
  obtain n where n: "responseSize (tool_response inp) = Inr n"
    using assms(2,3,4)
    by (cases "responseSize (tool_response inp)")
      (simp_all add: st_PostToolUse_def Let_def split: prod.splits)
  note c = st_PostToolUse_closes [OF assms]
  note t = st_PostToolUse_settles [OF assms(1,2,3) n]
  note i = st_PostToolUse_inv [OF assms(1), of inp]
  show ?thesis
    using c st_settled_forever [OF i t] by simp
qed

lemma st_PostToolUseFailure_for_good:
  assumes "st_inv s" and "hook_event_name inp = Some ''PostToolUseFailure''"
    and "Map_get (st_toolSpans s) (tool_use_id inp) = Some d"
  shows "closes (tracer s) (tracer (snd (st_PostToolUseFailure inp s))) (st_span d) (ERROR, Some (truncateAttribute (js_or_str (error inp) ''Unknown error'') 256)) \<and>
         calls (tracer (st_cleanup (run st_hooks later (snd (st_PostToolUseFailure inp s)))) ! st_span d) =
           calls (tracer (snd (st_PostToolUseFailure inp s)) ! st_span d)"
proof -
  note c = st_PostToolUseFailure_closes [OF assms]
  note t = st_PostToolUseFailure_settles [OF assms]
  note i = st_PostToolUseFailure_inv [OF assms(1), of inp]
  show ?thesis
    using c st_settled_forever [OF i t] by simp
qed

lemma ba_SubagentStop_for_good:
  assumes "ba_inv s" and "hook_event_name inp = Some ''SubagentStop''"
    and "Map_get (ba_agentTraces s) (agent_id inp) = Some d"
  shows "closes (tracer s) (tracer (snd (ba_SubagentStop inp s))) (rootSpan d) (OK, None) \<and>
         calls (tracer (ba_cleanup (run ba_hooks later (snd (ba_SubagentStop inp s)))) ! rootSpan d) =
           calls (tracer (snd (ba_SubagentStop inp s)) ! rootSpan d)"
proof -
  note c = ba_SubagentStop_closes [OF assms]
  note t = ba_SubagentStop_settles [OF assms]
  note i = ba_SubagentStop_inv [OF assms(1), of inp]
  show ?thesis
    using c ba_settled_forever [OF i t] by simp
qed

lemma ba_PostToolUse_for_good:
  assumes "ba_inv s" and "hook_event_name inp = Some ''PostToolUse''"
    and "Map_get (ba_toolSpans s) (tool_use_id inp) = Some d"
    and "fst (ba_PostToolUse inp s) = Inr (HookOutput True)"
  shows "closes (tracer s) (tracer (snd (ba_PostToolUse inp s))) (ba_span d) (OK, None) \<and>
         calls (tracer (ba_cleanup (run ba_hooks later (snd (ba_PostToolUse inp s)))) ! ba_span d) =
           calls (tracer (snd (ba_PostToolUse inp s)) ! ba_span d)"
proof -
  obtain n where n: "responseSize (tool_response inp) = Inr n"
    using assms(2,3,4)
    by (cases "responseSize (tool_response inp)")
      (simp_all add: ba_PostToolUse_def Let_def split: prod.splits)
  note c = ba_PostToolUse_closes [OF assms]
  note t = ba_PostToolUse_settles [OF assms(1,2,3) n]
  note i = ba_PostToolUse_inv [OF assms(1), of inp]
  show ?thesis
    using c ba_settled_forever [OF i t] by simp
qed

lemma ba_PostToolUseFailure_for_good:
  assumes "ba_inv s" and "hook_event_name inp = Some ''PostToolUseFailure''"
    and "Map_get (ba_toolSpans s) (tool_use_id inp) = Some d"
  shows "closes (tracer s) (tracer (snd (ba_PostToolUseFailure inp s))) (ba_span d) (ERROR, Some (truncateAttribute (js_or_str (error inp) ''Unknown error'') 256)) \<and>
         calls (tracer (ba_cleanup (run ba_hooks later (snd (ba_PostToolUseFailure inp s)))) ! ba_span d) =
           calls (tracer (snd (ba_PostToolUseFailure inp s)) ! ba_span d)"
proof -
  note c = ba_PostToolUseFailure_closes [OF assms]
  note t = ba_PostToolUseFailure_settles [OF assms]
  note i = ba_PostToolUseFailure_inv [OF assms(1), of inp]
  show ?thesis
    using c ba_settled_forever [OF i t] by simp
qed

lemma it_SubagentStop_for_good:
  assumes "it_inv s" and "hook_event_name inp = Some ''SubagentStop''"
    and "Map_get (it_agentSpans s) (agent_id inp) = Some d"
  shows "closes (tracer s) (tracer (snd (it_SubagentStop clock inp s))) (span d) (OK, None) \<and>
         calls (tracer (it_cleanup clock (run (it_hooks clock) later (snd (it_SubagentStop clock inp s)))) ! span d) =
           calls (tracer (snd (it_SubagentStop clock inp s)) ! span d)"
proof -
  note c = it_SubagentStop_closes [OF assms, of clock]
  note t = it_SubagentStop_settles [OF assms, of clock]
  note i = it_SubagentStop_inv [OF assms(1), of clock inp]
  show ?thesis
    using c it_settled_forever [OF i t, of clock] by simp
qed

lemma it_PostToolUse_for_good:
  assumes "it_inv s" and "hook_event_name inp = Some ''PostToolUse''"
    and "Map_get (it_toolSpans s) (tool_use_id inp) = Some d"
    and "fst (it_PostToolUse clock inp s) = Inr (HookOutput True)"
  shows "closes (tracer s) (tracer (snd (it_PostToolUse clock inp s))) (span d) (OK, None) \<and>
         calls (tracer (it_cleanup clock (run (it_hooks clock) later (snd (it_PostToolUse clock inp s)))) ! span d) =
           calls (tracer (snd (it_PostToolUse clock inp s)) ! span d)"
proof -
  obtain n where n: "responseSize (tool_response inp) = Inr n"
    using assms(2,3,4)
    by (cases "responseSize (tool_response inp)")
      (simp_all add: it_PostToolUse_def Let_def Date_now_def split: prod.splits)
  note c = it_PostToolUse_closes [OF assms]
  note t = it_PostToolUse_settles [OF assms(1,2,3) n, of clock]
  note i = it_PostToolUse_inv [OF assms(1), of clock inp]
  show ?thesis
    using c it_settled_forever [OF i t, of clock] by simp
qed

lemma it_PostToolUseFailure_for_good:
  assumes "it_inv s" and "hook_event_name inp = Some ''PostToolUseFailure''"
    and "Map_get (it_toolSpans s) (tool_use_id inp) = Some d"
  shows "closes (tracer s) (tracer (snd (it_PostToolUseFailure clock inp s))) (span d) (ERROR, Some (''Tool execution failed'')) \<and>
         calls (tracer (it_cleanup clock (run (it_hooks clock) later (snd (it_PostToolUseFailure clock inp s)))) ! span d) =
           calls (tracer (snd (it_PostToolUseFailure clock inp s)) ! span d)"
proof -
  note c = it_PostToolUseFailure_closes [OF assms, of clock]
  note t = it_PostToolUseFailure_settles [OF assms, of clock]
  note i = it_PostToolUseFailure_inv [OF assms(1), of clock inp]
  show ?thesis
    using c it_settled_forever [OF i t, of clock] by simp
qed

lemma st_orphans_and_normal_closes:
  assumes "s = run st_hooks events (st_withAgentTelemetry tr)"
  shows
  "(\<forall>e\<in>set (st_toolSpans s) \<union> set (st_agentSpans s).
        closes (tracer s) (tracer (st_cleanup s)) (st_span (snd e)) (ERROR, Some ''Orphaned span'')) \<and>
   (\<forall>d. hook_event_name inp = Some ''SubagentStop'' \<and>
          Map_get (st_agentSpans s) (agent_id inp) = Some d \<longrightarrow>
        closes (tracer s) (tracer (snd (st_SubagentStop inp s))) (st_span d) (OK, None) \<and>
        calls (tracer (st_cleanup (run st_hooks later (snd (st_SubagentStop inp s)))) ! st_span d) =
          calls (tracer (snd (st_SubagentStop inp s)) ! st_span d)) \<and>
   (\<forall>d. hook_event_name inp = Some ''PostToolUse'' \<and>
          Map_get (st_toolSpans s) (tool_use_id inp) = Some d \<and>
          fst (st_PostToolUse inp s) = Inr (HookOutput True) \<longrightarrow>
        closes (tracer s) (tracer (snd (st_PostToolUse inp s))) (st_span d) (OK, None) \<and>
        calls (tracer (st_cleanup (run st_hooks later (snd (st_PostToolUse inp s)))) ! st_span d) =
          calls (tracer (snd (st_PostToolUse inp s)) ! st_span d)) \<and>
   (\<forall>d. hook_event_name inp = Some ''PostToolUseFailure'' \<and>
          Map_get (st_toolSpans s) (tool_use_id inp) = Some d \<longrightarrow>
        closes (tracer s) (tracer (snd (st_PostToolUseFailure inp s))) (st_span d) (ERROR, Some (truncateAttribute (js_or_str (error inp) ''Unknown error'') 256)) \<and>
        calls (tracer (st_cleanup (run st_hooks later (snd (st_PostToolUseFailure inp s)))) ! st_span d) =
          calls (tracer (snd (st_PostToolUseFailure inp s)) ! st_span d))"
proof -
  have i: "st_inv s"
    unfolding assms by (rule st_reachable_inv)
  show ?thesis
    using st_orphans_closed [OF i]
      st_SubagentStop_for_good [OF i, of inp]
      st_PostToolUse_for_good [OF i, of inp]
      st_PostToolUseFailure_for_good [OF i, of inp]
    by blast
qed

lemma ba_orphans_and_normal_closes:
  assumes "s = run ba_hooks events (ba_withAgentTelemetry tr)"
  shows
  "(\<forall>e\<in>set (ba_toolSpans s).
        closes (tracer s) (tracer (ba_cleanup s)) (ba_span (snd e)) (ERROR, Some ''Orphaned span'')) \<and>
   (\<forall>e\<in>set (ba_agentTraces s).
        closes (tracer s) (tracer (ba_cleanup s)) (rootSpan (snd e)) (ERROR, Some ''Orphaned agent trace'')) \<and>
   (\<forall>d. hook_event_name inp = Some ''SubagentStop'' \<and>
          Map_get (ba_agentTraces s) (agent_id inp) = Some d \<longrightarrow>
        closes (tracer s) (tracer (snd (ba_SubagentStop inp s))) (rootSpan d) (OK, None) \<and>
        calls (tracer (ba_cleanup (run ba_hooks later (snd (ba_SubagentStop inp s)))) ! rootSpan d) =
          calls (tracer (snd (ba_SubagentStop inp s)) ! rootSpan d)) \<and>
   (\<forall>d. hook_event_name inp = Some ''PostToolUse'' \<and>
          Map_get (ba_toolSpans s) (tool_use_id inp) = Some d \<and>
          fst (ba_PostToolUse inp s) = Inr (HookOutput True) \<longrightarrow>
        closes (tracer s) (tracer (snd (ba_PostToolUse inp s))) (ba_span d) (OK, None) \<and>
        calls (tracer (ba_cleanup (run ba_hooks later (snd (ba_PostToolUse inp s)))) ! ba_span d) =
          calls (tracer (snd (ba_PostToolUse inp s)) ! ba_span d)) \<and>
   (\<forall>d. hook_event_name inp = Some ''PostToolUseFailure'' \<and>
          Map_get (ba_toolSpans s) (tool_use_id inp) = Some d \<longrightarrow>
        closes (tracer s) (tracer (snd (ba_PostToolUseFailure inp s))) (ba_span d) (ERROR, Some (truncateAttribute (js_or_str (error inp) ''Unknown error'') 256)) \<and>
        calls (tracer (ba_cleanup (run ba_hooks later (snd (ba_PostToolUseFailure inp s)))) ! ba_span d) =
          calls (tracer (snd (ba_PostToolUseFailure inp s)) ! ba_span d))"
proof -
  have i: "ba_inv s"
    unfolding assms by (rule ba_reachable_inv)
  show ?thesis
    using ba_orphan_tools_closed [OF i] ba_orphan_agents_closed [OF i]
      ba_SubagentStop_for_good [OF i, of inp]
      ba_PostToolUse_for_good [OF i, of inp]
      ba_PostToolUseFailure_for_good [OF i, of inp]
    by blast
qed

lemma it_orphans_and_normal_closes:
  assumes "s = run (it_hooks clock) events (it_withAgentTelemetry tr)"
  shows
  "(\<forall>e\<in>set (it_toolSpans s) \<union> set (it_agentSpans s).
        closes (tracer s) (tracer (it_cleanup clock s)) (span (snd e)) (ERROR, Some ''Orphaned span'')) \<and>
   (\<forall>d. hook_event_name inp = Some ''SubagentStop'' \<and>
          Map_get (it_agentSpans s) (agent_id inp) = Some d \<longrightarrow>
        closes (tracer s) (tracer (snd (it_SubagentStop clock inp s))) (span d) (OK, None) \<and>
        calls (tracer (it_cleanup clock (run (it_hooks clock) later (snd (it_SubagentStop clock inp s)))) ! span d) =
          calls (tracer (snd (it_SubagentStop clock inp s)) ! span d)) \<and>
   (\<forall>d. hook_event_name inp = Some ''PostToolUse'' \<and>
          Map_get (it_toolSpans s) (tool_use_id inp) = Some d \<and>
          fst (it_PostToolUse clock inp s) = Inr (HookOutput True) \<longrightarrow>
        closes (tracer s) (tracer (snd (it_PostToolUse clock inp s))) (span d) (OK, None) \<and>
        calls (tracer (it_cleanup clock (run (it_hooks clock) later (snd (it_PostToolUse clock inp s)))) ! span d) =
          calls (tracer (snd (it_PostToolUse clock inp s)) ! span d)) \<and>
   (\<forall>d. hook_event_name inp = Some ''PostToolUseFailure'' \<and>
          Map_get (it_toolSpans s) (tool_use_id inp) = Some d \<longrightarrow>
        closes (tracer s) (tracer (snd (it_PostToolUseFailure clock inp s))) (span d) (ERROR, Some (''Tool execution failed'')) \<and>
        calls (tracer (it_cleanup clock (run (it_hooks clock) later (snd (it_PostToolUseFailure clock inp s)))) ! span d) =
          calls (tracer (snd (it_PostToolUseFailure clock inp s)) ! span d))"
proof -
  have i: "it_inv s"
    unfolding assms by (rule it_reachable_inv)
  show ?thesis
    using it_orphans_closed [OF i]
      it_SubagentStop_for_good [OF i, of inp]
      it_PostToolUse_for_good [OF i, of inp]
      it_PostToolUseFailure_for_good [OF i, of inp]
    by blast
qed

subsection \<open>The current agent along a sequence of events\<close>

lemma Map_get_delete_other: "k \<noteq> k' \<Longrightarrow> Map_get (Map_delete m k') k = Map_get m k"
  by (induction m) (auto simp: Map_get_def Map_delete_def)

lemma Map_set_new: "Map_get m k = None \<Longrightarrow> Map_set m k v = m @ [(k, v)]"
  by (induction m) (auto simp: Map_get_def split: if_splits)

lemma last_filter_keep:
  "xs \<noteq> [] \<Longrightarrow> P (last xs) \<Longrightarrow> filter P xs \<noteq> [] \<and> last (filter P xs) = last xs"
  by (induction xs rule: rev_induct) simp_all

lemma run_Cons: "run hooks (e # events) s = run hooks events (deliver hooks e s)"
  by (simp add: run_def)

lemma run_Nil: "run hooks [] s = s"
  by (simp add: run_def)

lemma deliver_cases:
  obtains (skip) "deliver hooks e s = s"
  | (call) n hook where "hook_event_name e = Some n" "(n, hook) \<in> set hooks"
      "deliver hooks e s = snd (hook e s)"
proof (cases "hook_event_name e")
  case None
  then show ?thesis by (intro skip) (simp add: deliver_def)
next
  case (Some n)
  show ?thesis
  proof (cases "map_of hooks n")
    case None
    with Some show ?thesis by (intro skip) (simp add: deliver_def)
  next
    case (Some hook)
    with \<open>hook_event_name e = Some n\<close> show ?thesis
      by (intro call [of n hook]) (simp_all add: deliver_def map_of_SomeD)
  qed
qed

lemma hook_marker_fields:
  "ba_agentTraces (snd (hook_marker ev nm ctx inp s)) = ba_agentTraces s"
  "ba_currentAgentId (snd (hook_marker ev nm ctx inp s)) = ba_currentAgentId s"
  "ba_sessionSpanContext (snd (hook_marker ev nm ctx inp s)) = ba_sessionSpanContext s"
  "st_agentSpans (snd (hook_marker ev nm ctx inp s')) = st_agentSpans s'"
  "st_sessionSpanContext (snd (hook_marker ev nm ctx inp s')) = st_sessionSpanContext s'"
  by (simp_all add: hook_marker_def Let_def startSpan_def setAttributes_def on_span_def)

lemma ba_other_handlers:
  "ba_agentTraces (snd (ba_UserPromptSubmit inp s)) = ba_agentTraces s"
  "ba_currentAgentId (snd (ba_UserPromptSubmit inp s)) = ba_currentAgentId s"
  "ba_agentTraces (snd (ba_PreToolUse inp s)) = ba_agentTraces s"
  "ba_currentAgentId (snd (ba_PreToolUse inp s)) = ba_currentAgentId s"
  "ba_agentTraces (snd (ba_PostToolUse inp s)) = ba_agentTraces s"
  "ba_currentAgentId (snd (ba_PostToolUse inp s)) = ba_currentAgentId s"
  "ba_agentTraces (snd (ba_PostToolUseFailure inp s)) = ba_agentTraces s"
  "ba_currentAgentId (snd (ba_PostToolUseFailure inp s)) = ba_currentAgentId s"
  by (simp_all add: ba_UserPromptSubmit_def ba_PreToolUse_def ba_PostToolUse_def
      ba_PostToolUseFailure_def Let_def startSpan_def setAttributes_def on_span_def
      split: sum.splits option.splits)

lemma ba_session_handlers:
  "ba_sessionSpanContext (snd (ba_UserPromptSubmit inp s)) = ba_sessionSpanContext s"
  "ba_sessionSpanContext (snd (ba_SubagentStart inp s)) = ba_sessionSpanContext s"
  "ba_sessionSpanContext (snd (ba_SubagentStop inp s)) = ba_sessionSpanContext s"
  "ba_sessionSpanContext (snd (ba_PreToolUse inp s)) = ba_sessionSpanContext s"
  "ba_sessionSpanContext (snd (ba_PostToolUse inp s)) = ba_sessionSpanContext s"
  "ba_sessionSpanContext (snd (ba_PostToolUseFailure inp s)) = ba_sessionSpanContext s"
  by (simp_all add: ba_UserPromptSubmit_def ba_SubagentStart_def ba_SubagentStop_def
      ba_PreToolUse_def ba_PostToolUse_def ba_PostToolUseFailure_def
      Let_def startSpan_def setAttributes_def on_span_def
      split: sum.splits option.splits)

lemma ba_agent_handlers_skip:
  "hook_event_name inp \<noteq> Some ''SubagentStart'' \<Longrightarrow> snd (ba_SubagentStart inp s) = s"
  "hook_event_name inp \<noteq> Some ''SubagentStop'' \<Longrightarrow> snd (ba_SubagentStop inp s) = s"
  by (simp_all add: ba_SubagentStart_def ba_SubagentStop_def)

lemma ba_hooks_other:
  assumes "(n, hook) \<in> set ba_hooks" and "hook_event_name inp \<noteq> Some ''SubagentStart''"
    and "hook_event_name inp \<noteq> Some ''SubagentStop''"
  shows "ba_agentTraces (snd (hook inp s)) = ba_agentTraces s \<and>
         ba_currentAgentId (snd (hook inp s)) = ba_currentAgentId s"
  using assms(1) ba_agent_handlers_skip(1) [OF assms(2), of s]
    ba_agent_handlers_skip(2) [OF assms(3), of s]
  by (auto simp: ba_hooks_def ba_SessionStart_def ba_SessionEnd_def ba_Notification_def
      ba_PermissionRequest_def ba_PreCompact_def ba_Stop_def ba_Setup_def
      hook_marker_fields ba_other_handlers)

lemma ba_hooks_session:
  assumes "(n, hook) \<in> set ba_hooks"
  shows "ba_sessionSpanContext (snd (hook inp s)) = ba_sessionSpanContext s"
  using assms
  by (auto simp: ba_hooks_def ba_SessionStart_def ba_SessionEnd_def ba_Notification_def
      ba_PermissionRequest_def ba_PreCompact_def ba_Stop_def ba_Setup_def
      hook_marker_fields ba_session_handlers)

lemma ba_deliver_session:
  "ba_sessionSpanContext (deliver ba_hooks e s) = ba_sessionSpanContext s"
proof (cases rule: deliver_cases [of ba_hooks e s])
  case skip
  then show ?thesis by simp
next
  case (call n hook)
  then show ?thesis using ba_hooks_session [OF call(2), of e s] by simp
qed

lemma ba_run_session:
  "ba_sessionSpanContext (run ba_hooks events s) = ba_sessionSpanContext s"
  by (induction events arbitrary: s) (simp_all add: run_Nil run_Cons ba_deliver_session)

lemma ba_deliver_other:
  assumes "hook_event_name e \<noteq> Some ''SubagentStart''"
    and "hook_event_name e \<noteq> Some ''SubagentStop''"
  shows "ba_agentTraces (deliver ba_hooks e s) = ba_agentTraces s \<and>
         ba_currentAgentId (deliver ba_hooks e s) = ba_currentAgentId s"
proof (cases rule: deliver_cases [of ba_hooks e s])
  case skip
  then show ?thesis by simp
next
  case (call n hook)
  then show ?thesis using ba_hooks_other [OF call(2) assms, of s] by simp
qed

lemma ba_SubagentStart_current:
  assumes "hook_event_name a = Some ''SubagentStart''"
  shows "ba_currentAgentId (snd (ba_SubagentStart a s)) = agent_id a"
    and "Map_get (ba_agentTraces (snd (ba_SubagentStart a s))) (agent_id a) =
           Some \<lparr>rootSpan = length (tracer s), sessionSpanContext = SpanContext (length (tracer s)),
                 agentId = agent_id a, agentType = agent_type a\<rparr>"
  using assms
  by (simp_all add: ba_SubagentStart_def Let_def startSpan_def setAttributes_def on_span_def
      Map_get_set_same)

lemma ba_deliver_current:
  assumes "ba_currentAgentId s = k" and "Map_get (ba_agentTraces s) k = Some d"
    and "hook_event_name e \<noteq> Some ''SubagentStart''"
    and "\<not> (hook_event_name e = Some ''SubagentStop'' \<and> agent_id e = k)"
  shows "ba_currentAgentId (deliver ba_hooks e s) = k \<and>
         Map_get (ba_agentTraces (deliver ba_hooks e s)) k = Some d"
proof (cases "hook_event_name e = Some ''SubagentStop''")
  case True
  then have ne: "agent_id e \<noteq> k" using assms(4) by simp
  then have ne': "k \<noteq> agent_id e" by simp
  show ?thesis
    using True ne assms(1,2)
    by (simp add: ba_SubagentStop_def Let_def on_span_def Map_get_delete_other [OF ne']
        split: option.splits)
next
  case False
  then show ?thesis
    using ba_deliver_other [OF assms(3) False, of s] assms(1,2) by simp
qed

lemma ba_run_current:
  "ba_currentAgentId s = k \<Longrightarrow> Map_get (ba_agentTraces s) k = Some d \<Longrightarrow>
   no_agent_start mid \<Longrightarrow> no_stop_of k mid \<Longrightarrow>
   ba_currentAgentId (run ba_hooks mid s) = k \<and>
   Map_get (ba_agentTraces (run ba_hooks mid s)) k = Some d"
proof (induction mid arbitrary: s)
  case Nil
  then show ?case by (simp add: run_Nil)
next
  case (Cons e mid)
  have e: "hook_event_name e \<noteq> Some ''SubagentStart''"
    "\<not> (hook_event_name e = Some ''SubagentStop'' \<and> agent_id e = k)"
    using Cons.prems(3,4) by (simp_all add: no_agent_start_def no_stop_of_def)
  have r: "no_agent_start mid" "no_stop_of k mid"
    using Cons.prems(3,4) by (simp_all add: no_agent_start_def no_stop_of_def)
  note d = ba_deliver_current [OF Cons.prems(1,2) e]
  show ?case
    using Cons.IH [OF d [THEN conjunct1] d [THEN conjunct2] r] by (simp add: run_Cons)
qed

lemma ba_deliver_no_current:
  assumes "ba_currentAgentId s = None" and "hook_event_name e \<noteq> Some ''SubagentStart''"
  shows "ba_currentAgentId (deliver ba_hooks e s) = None"
proof (cases "hook_event_name e = Some ''SubagentStop''")
  case True
  then show ?thesis
    using assms(1)
    by (simp add: ba_SubagentStop_def Let_def on_span_def split: option.splits)
next
  case False
  then show ?thesis
    using ba_deliver_other [OF assms(2) False, of s] assms(1) by simp
qed

lemma ba_run_no_current:
  "ba_currentAgentId s = None \<Longrightarrow> no_agent_start mid \<Longrightarrow>
   ba_currentAgentId (run ba_hooks mid s) = None"
proof (induction mid arbitrary: s)
  case Nil
  then show ?case by (simp add: run_Nil)
next
  case (Cons e mid)
  have e: "hook_event_name e \<noteq> Some ''SubagentStart''" and r: "no_agent_start mid"
    using Cons.prems(2) by (simp_all add: no_agent_start_def)
  show ?case
    using Cons.IH [OF ba_deliver_no_current [OF Cons.prems(1) e] r] by (simp add: run_Cons)
qed

lemma ba_SubagentStop_current:
  assumes "hook_event_name z = Some ''SubagentStop''"
    and "ba_currentAgentId s = agent_id z" and "Map_get (ba_agentTraces s) (agent_id z) = Some d"
  shows "ba_currentAgentId (snd (ba_SubagentStop z s)) = None"
  using assms by (simp add: ba_SubagentStop_def Let_def on_span_def)

lemma ba_parent_of_current:
  assumes "\<not> truthy (agent_id t)" and "truthy k"
    and "ba_currentAgentId s = k" and "Map_get (ba_agentTraces s) k = Some d"
  shows "ba_parentContext t s = sessionSpanContext d"
  using assms by (simp add: ba_parentContext_def js_or_def Let_def)

lemma ba_parent_no_current:
  assumes "\<not> truthy (agent_id t)" and "ba_currentAgentId s = None"
  shows "ba_parentContext t s = ba_sessionSpanContext s"
  using assms by (simp add: ba_parentContext_def js_or_def Let_def truthy_def)

lemma ba_agent_then_tool:
  assumes "hook_event_name a = Some ''SubagentStart''" and "truthy (agent_id a)"
    and "no_agent_start mid" and "no_stop_of (agent_id a) mid"
    and "hook_event_name t = Some ''PreToolUse''" and "\<not> truthy (agent_id t)"
    and "hook_event_name z = Some ''SubagentStop''" and "agent_id z = agent_id a"
    and "no_agent_start mid'"
    and "sA = run ba_hooks (a # mid) s" and "sZ = run ba_hooks (z # mid') sA"
  shows "map_option sessionSpanContext (Map_get (ba_agentTraces sA) (agent_id a)) =
           Some (SpanContext (length (tracer s)))"
    and "span_parent (tracer (snd (ba_PreToolUse t sA)) ! length (tracer sA)) =
           SpanContext (length (tracer s))"
    and "span_parent (tracer (snd (ba_PreToolUse t sZ)) ! length (tracer sZ)) =
           ba_sessionSpanContext s"
proof -
  let ?d = "\<lparr>rootSpan = length (tracer s), sessionSpanContext = SpanContext (length (tracer s)),
                 agentId = agent_id a, agentType = agent_type a\<rparr>"
  let ?s1 = "snd (ba_SubagentStart a s)"
  have sA: "sA = run ba_hooks mid ?s1"
    using assms(1,10) by (simp add: run_Cons)
  have c: "ba_currentAgentId sA = agent_id a" "Map_get (ba_agentTraces sA) (agent_id a) = Some ?d"
    unfolding sA
    using ba_run_current [OF ba_SubagentStart_current [OF assms(1), of s] assms(3,4)]
    by simp_all
  show "map_option sessionSpanContext (Map_get (ba_agentTraces sA) (agent_id a)) =
           Some (SpanContext (length (tracer s)))"
    using c by simp
  show "span_parent (tracer (snd (ba_PreToolUse t sA)) ! length (tracer sA)) =
           SpanContext (length (tracer s))"
    using ba_PreToolUse_parent [OF assms(5), of sA]
      ba_parent_of_current [OF assms(6,2) c]
    by simp
  let ?s2 = "snd (ba_SubagentStop z sA)"
  have sZ: "sZ = run ba_hooks mid' ?s2"
    using assms(7,11) by (simp add: run_Cons)
  have "ba_currentAgentId ?s2 = None"
    using ba_SubagentStop_current [OF assms(7), of sA ?d] c assms(8) by simp
  then have n: "ba_currentAgentId sZ = None"
    unfolding sZ using assms(9) by (rule ba_run_no_current)
  have "ba_sessionSpanContext sZ = ba_sessionSpanContext s"
    unfolding assms(10,11) by (simp add: ba_run_session)
  then show "span_parent (tracer (snd (ba_PreToolUse t sZ)) ! length (tracer sZ)) =
           ba_sessionSpanContext s"
    using ba_PreToolUse_parent [OF assms(5), of sZ] ba_parent_no_current [OF assms(6) n]
    by simp
qed

lemma st_other_handlers:
  "st_agentSpans (snd (st_UserPromptSubmit inp s)) = st_agentSpans s"
  "st_agentSpans (snd (st_PreToolUse inp s)) = st_agentSpans s"
  "st_agentSpans (snd (st_PostToolUse inp s)) = st_agentSpans s"
  "st_agentSpans (snd (st_PostToolUseFailure inp s)) = st_agentSpans s"
  by (simp_all add: st_UserPromptSubmit_def st_PreToolUse_def st_PostToolUse_def
      st_PostToolUseFailure_def Let_def startSpan_def setAttributes_def on_span_def
      split: sum.splits option.splits)

lemma st_session_handlers:
  "st_sessionSpanContext (snd (st_UserPromptSubmit inp s)) = st_sessionSpanContext s"
  "st_sessionSpanContext (snd (st_SubagentStart inp s)) = st_sessionSpanContext s"
  "st_sessionSpanContext (snd (st_SubagentStop inp s)) = st_sessionSpanContext s"
  "st_sessionSpanContext (snd (st_PreToolUse inp s)) = st_sessionSpanContext s"
  "st_sessionSpanContext (snd (st_PostToolUse inp s)) = st_sessionSpanContext s"
  "st_sessionSpanContext (snd (st_PostToolUseFailure inp s)) = st_sessionSpanContext s"
  by (simp_all add: st_UserPromptSubmit_def st_SubagentStart_def st_SubagentStop_def
      st_PreToolUse_def st_PostToolUse_def st_PostToolUseFailure_def
      Let_def startSpan_def setAttributes_def on_span_def
      split: sum.splits option.splits)

lemma st_agent_handlers_skip:
  "hook_event_name inp \<noteq> Some ''SubagentStart'' \<Longrightarrow> snd (st_SubagentStart inp s) = s"
  "hook_event_name inp \<noteq> Some ''SubagentStop'' \<Longrightarrow> snd (st_SubagentStop inp s) = s"
  by (simp_all add: st_SubagentStart_def st_SubagentStop_def)

lemma st_hooks_other:
  assumes "(n, hook) \<in> set st_hooks" and "hook_event_name inp \<noteq> Some ''SubagentStart''"
    and "hook_event_name inp \<noteq> Some ''SubagentStop''"
  shows "st_agentSpans (snd (hook inp s)) = st_agentSpans s"
  using assms(1) st_agent_handlers_skip(1) [OF assms(2), of s]
    st_agent_handlers_skip(2) [OF assms(3), of s]
  by (auto simp: st_hooks_def st_SessionStart_def st_SessionEnd_def st_Notification_def
      st_PermissionRequest_def st_PreCompact_def st_Stop_def st_Setup_def
      hook_marker_fields st_other_handlers)

lemma st_hooks_session:
  assumes "(n, hook) \<in> set st_hooks"
  shows "st_sessionSpanContext (snd (hook inp s)) = st_sessionSpanContext s"
  using assms
  by (auto simp: st_hooks_def st_SessionStart_def st_SessionEnd_def st_Notification_def
      st_PermissionRequest_def st_PreCompact_def st_Stop_def st_Setup_def
      hook_marker_fields st_session_handlers)

lemma st_deliver_session:
  "st_sessionSpanContext (deliver st_hooks e s) = st_sessionSpanContext s"
proof (cases rule: deliver_cases [of st_hooks e s])
  case skip
  then show ?thesis by simp
next
  case (call n hook)
  then show ?thesis using st_hooks_session [OF call(2), of e s] by simp
qed

lemma st_run_session:
  "st_sessionSpanContext (run st_hooks events s) = st_sessionSpanContext s"
  by (induction events arbitrary: s) (simp_all add: run_Nil run_Cons st_deliver_session)

lemma st_deliver_other:
  assumes "hook_event_name e \<noteq> Some ''SubagentStart''"
    and "hook_event_name e \<noteq> Some ''SubagentStop''"
  shows "st_agentSpans (deliver st_hooks e s) = st_agentSpans s"
proof (cases rule: deliver_cases [of st_hooks e s])
  case skip
  then show ?thesis by simp
next
  case (call n hook)
  then show ?thesis using st_hooks_other [OF call(2) assms, of s] by simp
qed

lemma st_SubagentStart_last:
  assumes "hook_event_name a = Some ''SubagentStart''"
    and "Map_get (st_agentSpans s) (agent_id a) = None"
  shows "st_agentSpans (snd (st_SubagentStart a s)) =
           st_agentSpans s @
             [(agent_id a, \<lparr>st_span = length (tracer s), st_context = SpanContext (length (tracer s))\<rparr>)]"
  using assms
  by (simp add: st_SubagentStart_def Let_def startSpan_def setAttributes_def on_span_def
      Map_set_new)

lemma st_deliver_last:
  assumes "st_agentSpans s \<noteq> []" and "last (st_agentSpans s) = (k, d)"
    and "Map_get (st_agentSpans s) k = Some d"
    and "hook_event_name e \<noteq> Some ''SubagentStart''"
    and "\<not> (hook_event_name e = Some ''SubagentStop'' \<and> agent_id e = k)"
  shows "st_agentSpans (deliver st_hooks e s) \<noteq> [] \<and>
         last (st_agentSpans (deliver st_hooks e s)) = (k, d) \<and>
         Map_get (st_agentSpans (deliver st_hooks e s)) k = Some d"
proof (cases "hook_event_name e = Some ''SubagentStop''")
  case True
  then have ne: "k \<noteq> agent_id e" using assms(5) by auto
  have f: "Map_delete (st_agentSpans s) (agent_id e) \<noteq> [] \<and>
           last (Map_delete (st_agentSpans s) (agent_id e)) = last (st_agentSpans s)"
    unfolding Map_delete_def
    using assms(1,2) ne
    by (intro last_filter_keep [of "st_agentSpans s" "\<lambda>x. fst x \<noteq> agent_id e"]) simp_all
  show ?thesis
    using True assms(1,2,3) f
    by (simp add: st_SubagentStop_def Let_def on_span_def Map_get_delete_other [OF ne]
        split: option.splits)
next
  case False
  then show ?thesis
    using st_deliver_other [OF assms(4) False, of s] assms(1,2,3) by simp
qed

lemma st_run_last:
  "st_agentSpans s \<noteq> [] \<Longrightarrow> last (st_agentSpans s) = (k, d) \<Longrightarrow>
   Map_get (st_agentSpans s) k = Some d \<Longrightarrow> no_agent_start mid \<Longrightarrow> no_stop_of k mid \<Longrightarrow>
   st_agentSpans (run st_hooks mid s) \<noteq> [] \<and>
   last (st_agentSpans (run st_hooks mid s)) = (k, d) \<and>
   Map_get (st_agentSpans (run st_hooks mid s)) k = Some d"
proof (induction mid arbitrary: s)
  case Nil
  then show ?case by (simp add: run_Nil)
next
  case (Cons e mid)
  have e: "hook_event_name e \<noteq> Some ''SubagentStart''"
    "\<not> (hook_event_name e = Some ''SubagentStop'' \<and> agent_id e = k)"
    using Cons.prems(4,5) by (simp_all add: no_agent_start_def no_stop_of_def)
  have r: "no_agent_start mid" "no_stop_of k mid"
    using Cons.prems(4,5) by (simp_all add: no_agent_start_def no_stop_of_def)
  note d = st_deliver_last [OF Cons.prems(1,2,3) e]
  show ?case
    using Cons.IH [OF d [THEN conjunct1] d [THEN conjunct2, THEN conjunct1]
        d [THEN conjunct2, THEN conjunct2] r]
    by (simp add: run_Cons)
qed

lemma st_deliver_only:
  assumes "st_agentSpans s = [(k, d)]"
    and "hook_event_name e \<noteq> Some ''SubagentStart''"
    and "\<not> (hook_event_name e = Some ''SubagentStop'' \<and> agent_id e = k)"
  shows "st_agentSpans (deliver st_hooks e s) = [(k, d)]"
proof (cases "hook_event_name e = Some ''SubagentStop''")
  case True
  then have ne: "k \<noteq> agent_id e" using assms(3) by auto
  show ?thesis
    using True assms(1) ne
    by (simp add: st_SubagentStop_def Let_def on_span_def Map_get_def)
next
  case False
  then show ?thesis
    using st_deliver_other [OF assms(2) False, of s] assms(1) by simp
qed

lemma st_run_only:
  "st_agentSpans s = [(k, d)] \<Longrightarrow> no_agent_start mid \<Longrightarrow> no_stop_of k mid \<Longrightarrow>
   st_agentSpans (run st_hooks mid s) = [(k, d)]"
proof (induction mid arbitrary: s)
  case Nil
  then show ?case by (simp add: run_Nil)
next
  case (Cons e mid)
  have e: "hook_event_name e \<noteq> Some ''SubagentStart''"
    "\<not> (hook_event_name e = Some ''SubagentStop'' \<and> agent_id e = k)"
    using Cons.prems(2,3) by (simp_all add: no_agent_start_def no_stop_of_def)
  have r: "no_agent_start mid" "no_stop_of k mid"
    using Cons.prems(2,3) by (simp_all add: no_agent_start_def no_stop_of_def)
  show ?case
    using Cons.IH [OF st_deliver_only [OF Cons.prems(1) e] r] by (simp add: run_Cons)
qed

lemma st_deliver_empty:
  assumes "st_agentSpans s = []" and "hook_event_name e \<noteq> Some ''SubagentStart''"
  shows "st_agentSpans (deliver st_hooks e s) = []"
proof (cases "hook_event_name e = Some ''SubagentStop''")
  case True
  then show ?thesis
    using assms(1) by (simp add: st_SubagentStop_def Let_def on_span_def Map_get_def)
next
  case False
  then show ?thesis
    using st_deliver_other [OF assms(2) False, of s] assms(1) by simp
qed

lemma st_run_empty:
  "st_agentSpans s = [] \<Longrightarrow> no_agent_start mid \<Longrightarrow> st_agentSpans (run st_hooks mid s) = []"
proof (induction mid arbitrary: s)
  case Nil
  then show ?case by (simp add: run_Nil)
next
  case (Cons e mid)
  have e: "hook_event_name e \<noteq> Some ''SubagentStart''" and r: "no_agent_start mid"
    using Cons.prems(2) by (simp_all add: no_agent_start_def)
  show ?case
    using Cons.IH [OF st_deliver_empty [OF Cons.prems(1) e] r] by (simp add: run_Cons)
qed

lemma st_parent_of_last:
  assumes "st_agentSpans s \<noteq> []" and "last (st_agentSpans s) = (k, d)"
  shows "st_parentContext s = st_context d"
  using assms by (simp add: st_parentContext_def Map_values_def Let_def last_map)

lemma st_parent_empty:
  assumes "st_agentSpans s = []"
  shows "st_parentContext s = st_sessionSpanContext s"
  using assms by (simp add: st_parentContext_def Map_values_def Let_def)

lemma st_agent_then_tool:
  assumes "hook_event_name a = Some ''SubagentStart''"
    and "Map_get (st_agentSpans s) (agent_id a) = None"
    and "no_agent_start mid" and "no_stop_of (agent_id a) mid"
    and "hook_event_name t = Some ''PreToolUse''"
    and "hook_event_name z = Some ''SubagentStop''" and "agent_id z = agent_id a"
    and "no_agent_start mid'"
    and "sA = run st_hooks (a # mid) s" and "sZ = run st_hooks (z # mid') sA"
  shows "map_option st_context (Map_get (st_agentSpans sA) (agent_id a)) =
           Some (SpanContext (length (tracer s)))"
    and "span_parent (tracer (snd (st_PreToolUse t sA)) ! length (tracer sA)) =
           SpanContext (length (tracer s))"
    and "st_agentSpans s = [] \<Longrightarrow>
         span_parent (tracer (snd (st_PreToolUse t sZ)) ! length (tracer sZ)) =
           st_sessionSpanContext s"
proof -
  let ?d = "\<lparr>st_span = length (tracer s), st_context = SpanContext (length (tracer s))\<rparr>"
  let ?s1 = "snd (st_SubagentStart a s)"
  have sA: "sA = run st_hooks mid ?s1"
    using assms(1,9) by (simp add: run_Cons)
  note reg = st_SubagentStart_last [OF assms(1,2)]
  have g1: "Map_get (st_agentSpans ?s1) (agent_id a) = Some ?d"
    using assms(1)
    by (simp add: st_SubagentStart_def Let_def startSpan_def setAttributes_def on_span_def
        Map_get_set_same)
  have c: "st_agentSpans sA \<noteq> []" "last (st_agentSpans sA) = (agent_id a, ?d)"
    "Map_get (st_agentSpans sA) (agent_id a) = Some ?d"
    unfolding sA
    using st_run_last [of ?s1 "agent_id a" ?d mid] reg g1 assms(3,4)
    by simp_all
  show "map_option st_context (Map_get (st_agentSpans sA) (agent_id a)) =
           Some (SpanContext (length (tracer s)))"
    using c(3) by simp
  show "span_parent (tracer (snd (st_PreToolUse t sA)) ! length (tracer sA)) =
           SpanContext (length (tracer s))"
    using st_PreToolUse_parent [OF assms(5), of sA] st_parent_of_last [OF c(1,2)]
    by simp
  assume empty: "st_agentSpans s = []"
  have only: "st_agentSpans sA = [(agent_id a, ?d)]"
    unfolding sA
    using st_run_only [of ?s1 "agent_id a" ?d mid] reg empty assms(3,4) by simp
  let ?s2 = "snd (st_SubagentStop z sA)"
  have sZ: "sZ = run st_hooks mid' ?s2"
    using assms(6,10) by (simp add: run_Cons)
  have "st_agentSpans ?s2 = []"
    using only assms(6,7)
    by (simp add: st_SubagentStop_def Let_def on_span_def Map_get_def Map_delete_def)
  then have n: "st_agentSpans sZ = []"
    unfolding sZ using assms(8) by (rule st_run_empty)
  have "st_sessionSpanContext sZ = st_sessionSpanContext s"
    unfolding assms(9,10) by (simp add: st_run_session)
  then show "span_parent (tracer (snd (st_PreToolUse t sZ)) ! length (tracer sZ)) =
           st_sessionSpanContext s"
    using st_PreToolUse_parent [OF assms(5), of sZ] st_parent_empty [OF n]
    by simp
qed

subsection \<open>The attributes the handlers store\<close>






















section \<open>Truncation policy\<close>





section \<open>No leak after cleanup\<close>

text \<open>
  Claim C2. For every sequence of lifecycle events, also one in which a start event never
  gets its stop, complete or fail event, both registries are empty after \<^verbatim>\<open>cleanup()\<close>,
  in each of the three hook modules.
\<close>

theorem C2_registries_empty_after_cleanup:
  "st_toolSpans (st_cleanup (run st_hooks events (st_withAgentTelemetry tr))) = [] \<and>
   st_agentSpans (st_cleanup (run st_hooks events (st_withAgentTelemetry tr))) = [] \<and>
   ba_toolSpans (ba_cleanup (run ba_hooks events (ba_withAgentTelemetry tr))) = [] \<and>
   ba_agentTraces (ba_cleanup (run ba_hooks events (ba_withAgentTelemetry tr))) = [] \<and>
   it_toolSpans (it_cleanup clock (run (it_hooks clock) events (it_withAgentTelemetry tr))) = [] \<and>
   it_agentSpans (it_cleanup clock (run (it_hooks clock) events (it_withAgentTelemetry tr))) = []"
proof -
  obtain tr1 where "st_cleanup (run st_hooks events (st_withAgentTelemetry tr)) =
      (run st_hooks events (st_withAgentTelemetry tr))\<lparr>tracer := tr1, st_toolSpans := [], st_agentSpans := []\<rparr>"
    using st_cleanup_effect [OF st_reachable_inv [of events tr]] by blast
  moreover obtain tr2 where "ba_cleanup (run ba_hooks events (ba_withAgentTelemetry tr)) =
      (run ba_hooks events (ba_withAgentTelemetry tr))\<lparr>tracer := tr2, ba_toolSpans := [], ba_agentTraces := []\<rparr>"
    using ba_cleanup_effect [OF ba_reachable_inv [of events tr]] by blast
  moreover obtain tr3 n where "it_cleanup clock (run (it_hooks clock) events (it_withAgentTelemetry tr)) =
      (run (it_hooks clock) events (it_withAgentTelemetry tr))\<lparr>tracer := tr3, it_toolSpans := [], it_agentSpans := [], it_now_calls := n\<rparr>"
    using it_cleanup_effect [OF it_reachable_inv [of clock events tr], of clock] by blast
  ultimately show ?thesis by simp
qed

section \<open>Closing a span once\<close>

text \<open>
  Claim C1. The claim asks that every span the tracker opens, the root and session spans
  included, is ended exactly once over the handlers, \<^verbatim>\<open>cleanup()\<close> and the entry point.
  The single-trace module ends its root span when it is constructed
  (\<^verbatim>\<open>telemetryHooksSingleTrace.ts\<close>, line 32) and \<^verbatim>\<open>main\<close> of \<^verbatim>\<open>agentSingleTrace.ts\<close>
  ends it again (line 53): whatever the events and however the query finishes, the root
  span has received two \<^verbatim>\<open>end()\<close> calls when \<^verbatim>\<open>main\<close> is done.
\<close>

theorem C1_root_span_ended_twice:
  "ends (tracer (agentSingleTrace_main tr events outcome) !
         st_rootSpan (agentSingleTrace_main tr events outcome)) = 2"
proof -
  let ?s1 = "run st_hooks events (st_withAgentTelemetry tr)"
  let ?r = "st_rootSpan ?s1"
  let ?s2 = "case outcome of
                  Completed \<Rightarrow> on_span ?r (SetStatus OK None) ?s1
                | Failed errorMessage \<Rightarrow>
                    on_span ?r (RecordException errorMessage)
                      (on_span ?r (SetStatus ERROR (Some errorMessage)) ?s1)"
  have inv1: "st_inv ?s1" by (rule st_reachable_inv)
  have "\<exists>tr'. ?s2 = ?s1\<lparr>tracer := tr'\<rparr> \<and> grows (tracer ?s1) tr'"
    by (cases outcome) (auto simp: on_span_def intro!: exI grows_intros)
  then obtain tr2 where s2: "?s2 = ?s1\<lparr>tracer := tr2\<rparr>" and g: "grows (tracer ?s1) tr2"
    by blast
  have inv2: "st_inv ?s2"
    unfolding s2 using inv1 g by (rule st_inv_grows)
  obtain tr3 where c: "st_cleanup ?s2 = ?s2\<lparr>tracer := tr3, st_toolSpans := [], st_agentSpans := []\<rparr>"
    and len: "length tr3 = length (tracer ?s2)"
    and calls3: "\<forall>h. calls (tr3 ! h) =
            (if h \<in> (st_span \<circ> snd) ` (set (st_toolSpans ?s2) \<union> set (st_agentSpans ?s2))
             then calls (tracer ?s2 ! h) @ orphan_calls ''Orphaned span''
             else if h = st_sessionSpan ?s2 then calls (tracer ?s2 ! h) @ [SetStatus OK None, End]
             else calls (tracer ?s2 ! h))"
    using st_cleanup_effect [OF inv2] by blast
  have r2: "st_rootSpan ?s2 = ?r" unfolding s2 by simp
  have parts: "reg_inv [?r, st_sessionSpan ?s2] (st_tools ?s2) (st_agents ?s2) (tracer ?s2)"
    "ends (tracer ?s2 ! ?r) = 1"
    using inv2 r2 by (simp_all add: st_inv_def)
  have "?r \<notin> snd ` set (st_tools ?s2) \<union> snd ` set (st_agents ?s2)" "?r \<noteq> st_sessionSpan ?s2"
    using reg_inv_parts(7) [OF parts(1)] reg_inv_parts(3) [OF parts(1)] by auto
  then have "calls (tr3 ! ?r) = calls (tracer ?s2 ! ?r)"
    using calls3 by (simp add: st_views_image image_Un)
  then have e3: "ends (tr3 ! ?r) = 1"
    using parts(2) by (simp add: ends_def)
  have lt: "?r < length tr3"
    using len reg_inv_parts(9) [OF parts(1)] by simp
  have "agentSingleTrace_main tr events outcome = on_span ?r End (st_cleanup ?s2)"
    using r2 c by (simp add: agentSingleTrace_main_def Let_def)
  then show ?thesis
    using c e3 lt r2 by (simp add: on_span_def ends_tr_call)
qed

section \<open>The session span at cleanup\<close>

text \<open>
  Claim C6. The claim asks that \<^verbatim>\<open>cleanup()\<close> closes the long-lived session span with
  status OK in every strategy that keeps one. The by-agent module starts a session span
  (\<^verbatim>\<open>telemetryHooksByAgent.ts\<close>, line 36) and its \<^verbatim>\<open>cleanup\<close> (lines 388-407) never
  touches it, nor does the entry point: whatever the events and however the query
  finishes, that span has received no \<^verbatim>\<open>end()\<close> call at the end of the run.
\<close>

theorem C6_by_agent_session_span_never_ended:
  "ends (tracer (agentWithTracesByAgent_main tr events outcome) !
         ba_sessionSpan (agentWithTracesByAgent_main tr events outcome)) = 0"
proof -
  let ?s1 = "run ba_hooks events (ba_withAgentTelemetry tr)"
  let ?ss = "ba_sessionSpan ?s1"
  let ?s2 = "case outcome of
                  Completed \<Rightarrow> ?s1
                | Failed errorMessage \<Rightarrow>
                    (let (errorSpan, e1) = startSpan ''agent.error'' ActiveContext ?s1;
                         e2 = on_span errorSpan (SetStatus ERROR (Some errorMessage)) e1;
                         e3 = on_span errorSpan (RecordException errorMessage) e2
                     in on_span errorSpan End e3)"
  have inv1: "ba_inv ?s1" by (rule ba_reachable_inv)
  have "\<exists>tr'. ?s2 = ?s1\<lparr>tracer := tr'\<rparr> \<and> grows (tracer ?s1) tr'"
  proof (cases outcome)
    case Completed
    have "?s1\<lparr>tracer := tracer ?s1\<rparr> = ?s1" by simp
    then show ?thesis using Completed by (auto intro!: exI [of _ "tracer ?s1"])
  next
    case (Failed m)
    then show ?thesis
      by (auto simp: on_span_def startSpan_def Let_def intro!: exI grows_intros)
  qed
  then obtain tr2 where s2: "?s2 = ?s1\<lparr>tracer := tr2\<rparr>" and g: "grows (tracer ?s1) tr2"
    by blast
  have inv2: "ba_inv ?s2"
    unfolding s2 using inv1 g by (rule ba_inv_grows)
  obtain tr3 where c: "ba_cleanup ?s2 = ?s2\<lparr>tracer := tr3, ba_toolSpans := [], ba_agentTraces := []\<rparr>"
    and calls3: "\<forall>h. calls (tr3 ! h) =
            (if h \<in> (ba_span \<circ> snd) ` set (ba_toolSpans ?s2)
             then calls (tracer ?s2 ! h) @ orphan_calls ''Orphaned span''
             else if h \<in> (rootSpan \<circ> snd) ` set (ba_agentTraces ?s2)
             then calls (tracer ?s2 ! h) @ orphan_calls ''Orphaned agent trace''
             else calls (tracer ?s2 ! h))"
    using ba_cleanup_effect [OF inv2] by blast
  have ss2: "ba_sessionSpan ?s2 = ?ss" unfolding s2 by simp
  have parts: "reg_inv [?ss] (ba_tools ?s2) (ba_agents ?s2) (tracer ?s2)"
    "ends (tracer ?s2 ! ?ss) = 0"
    using inv2 ss2 by (simp_all add: ba_inv_def)
  have "?ss \<notin> snd ` set (ba_tools ?s2) \<union> snd ` set (ba_agents ?s2)"
    using reg_inv_parts(7) [OF parts(1)] by auto
  then have "calls (tr3 ! ?ss) = calls (tracer ?s2 ! ?ss)"
    using calls3 by (simp add: ba_views_image)
  then have e3: "ends (tr3 ! ?ss) = 0"
    using parts(2) by (simp add: ends_def)
  have "agentWithTracesByAgent_main tr events outcome = ba_cleanup ?s2"
    by (simp add: agentWithTracesByAgent_main_def Let_def)
  then show ?thesis
    using c e3 ss2 by simp
qed

section \<open>Events for unknown ids\<close>

text \<open>
  Claim C9. A stop, complete or fail event whose id was never seen in a start event
  changes nothing in the tracker (the registries, the current-agent pointer and the
  tracer are as before) and the handler returns \<^verbatim>\<open>{ continue: true }\<close>, in each of the
  three hook modules and whatever events came before.
\<close>

theorem C9_unknown_id_no_op:
  "(agent_never_started events (agent_id inp) \<longrightarrow>
      (let s = run st_hooks events (st_withAgentTelemetry tr)
       in st_SubagentStop inp s = (Inr (HookOutput True), s)) \<and>
      (let s = run ba_hooks events (ba_withAgentTelemetry tr)
       in ba_SubagentStop inp s = (Inr (HookOutput True), s)) \<and>
      (let s = run (it_hooks clock) events (it_withAgentTelemetry tr)
       in it_SubagentStop clock inp s = (Inr (HookOutput True), s))) \<and>
   (tool_never_started events (tool_use_id inp) \<longrightarrow>
      (let s = run st_hooks events (st_withAgentTelemetry tr)
       in st_PostToolUse inp s = (Inr (HookOutput True), s) \<and>
          st_PostToolUseFailure inp s = (Inr (HookOutput True), s)) \<and>
      (let s = run ba_hooks events (ba_withAgentTelemetry tr)
       in ba_PostToolUse inp s = (Inr (HookOutput True), s) \<and>
          ba_PostToolUseFailure inp s = (Inr (HookOutput True), s)) \<and>
      (let s = run (it_hooks clock) events (it_withAgentTelemetry tr)
       in it_PostToolUse clock inp s = (Inr (HookOutput True), s) \<and>
          it_PostToolUseFailure clock inp s = (Inr (HookOutput True), s)))"
proof (intro conjI impI)
  assume a: "agent_never_started events (agent_id inp)"
  then have n: "\<forall>e\<in>set events. \<not> (hook_event_name e = Some ''SubagentStart'' \<and> agent_id e = agent_id inp)"
    by (simp add: agent_never_started_def)
  have "Map_get (st_agentSpans (run st_hooks events (st_withAgentTelemetry tr))) (agent_id inp) = None"
    by (intro Map_get_None_keys st_run_agent_keys n) (simp add: st_withAgentTelemetry_eq)
  then show "let s = run st_hooks events (st_withAgentTelemetry tr)
       in st_SubagentStop inp s = (Inr (HookOutput True), s)"
    by (simp add: st_SubagentStop_def)
  have "Map_get (ba_agentTraces (run ba_hooks events (ba_withAgentTelemetry tr))) (agent_id inp) = None"
    by (intro Map_get_None_keys ba_run_agent_keys n) (simp add: ba_withAgentTelemetry_eq)
  then show "let s = run ba_hooks events (ba_withAgentTelemetry tr)
       in ba_SubagentStop inp s = (Inr (HookOutput True), s)"
    by (simp add: ba_SubagentStop_def)
  have "Map_get (it_agentSpans (run (it_hooks clock) events (it_withAgentTelemetry tr))) (agent_id inp) = None"
    by (intro Map_get_None_keys it_run_agent_keys n) (simp add: it_withAgentTelemetry_def)
  then show "let s = run (it_hooks clock) events (it_withAgentTelemetry tr)
       in it_SubagentStop clock inp s = (Inr (HookOutput True), s)"
    by (simp add: it_SubagentStop_def)
next
  assume a: "tool_never_started events (tool_use_id inp)"
  then have n: "\<forall>e\<in>set events. \<not> (hook_event_name e = Some ''PreToolUse'' \<and> tool_use_id e = tool_use_id inp)"
    by (simp add: tool_never_started_def)
  have "Map_get (st_toolSpans (run st_hooks events (st_withAgentTelemetry tr))) (tool_use_id inp) = None"
    by (intro Map_get_None_keys st_run_tool_keys n) (simp add: st_withAgentTelemetry_eq)
  then show "let s = run st_hooks events (st_withAgentTelemetry tr)
       in st_PostToolUse inp s = (Inr (HookOutput True), s) \<and>
          st_PostToolUseFailure inp s = (Inr (HookOutput True), s)"
    by (simp add: st_PostToolUse_def st_PostToolUseFailure_def)
  have "Map_get (ba_toolSpans (run ba_hooks events (ba_withAgentTelemetry tr))) (tool_use_id inp) = None"
    by (intro Map_get_None_keys ba_run_tool_keys n) (simp add: ba_withAgentTelemetry_eq)
  then show "let s = run ba_hooks events (ba_withAgentTelemetry tr)
       in ba_PostToolUse inp s = (Inr (HookOutput True), s) \<and>
          ba_PostToolUseFailure inp s = (Inr (HookOutput True), s)"
    by (simp add: ba_PostToolUse_def ba_PostToolUseFailure_def)
  have "Map_get (it_toolSpans (run (it_hooks clock) events (it_withAgentTelemetry tr))) (tool_use_id inp) = None"
    by (intro Map_get_None_keys it_run_tool_keys n) (simp add: it_withAgentTelemetry_def)
  then show "let s = run (it_hooks clock) events (it_withAgentTelemetry tr)
       in it_PostToolUse clock inp s = (Inr (HookOutput True), s) \<and>
          it_PostToolUseFailure clock inp s = (Inr (HookOutput True), s)"
    by (simp add: it_PostToolUse_def it_PostToolUseFailure_def)
qed

theorem C9_unknown_id_no_op_witness:
  "agent_never_started [start_agent ''A1'', start_tool ''U1'' None] (agent_id (stop_agent ''A2'')) \<and>
   st_SubagentStop (stop_agent ''A2'')
       (run st_hooks [start_agent ''A1'', start_tool ''U1'' None] (st_withAgentTelemetry []))
     = (Inr (HookOutput True),
        run st_hooks [start_agent ''A1'', start_tool ''U1'' None] (st_withAgentTelemetry [])) \<and>
   tool_never_started [start_agent ''A1'', start_tool ''U1'' None] (tool_use_id (fail_tool ''U2'' ''boom'')) \<and>
   ba_PostToolUseFailure (fail_tool ''U2'' ''boom'')
       (run ba_hooks [start_agent ''A1'', start_tool ''U1'' None] (ba_withAgentTelemetry []))
     = (Inr (HookOutput True),
        run ba_hooks [start_agent ''A1'', start_tool ''U1'' None] (ba_withAgentTelemetry []))"
proof -
  have a: "agent_never_started [start_agent ''A1'', start_tool ''U1'' None] (agent_id (stop_agent ''A2''))"
    by (simp add: agent_never_started_def start_agent_def start_tool_def stop_agent_def no_input_def)
  have t: "tool_never_started [start_agent ''A1'', start_tool ''U1'' None] (tool_use_id (fail_tool ''U2'' ''boom''))"
    by (simp add: tool_never_started_def start_agent_def start_tool_def fail_tool_def no_input_def)
  show ?thesis
    using a t
      C9_unknown_id_no_op [of "[start_agent ''A1'', start_tool ''U1'' None]" "stop_agent ''A2''" "[]" wall_clock]
      C9_unknown_id_no_op [of "[start_agent ''A1'', start_tool ''U1'' None]" "fail_tool ''U2'' ''boom''" "[]" wall_clock]
    by (simp add: Let_def)
qed

section \<open>Handlers that throw\<close>

text \<open>
  Claim C5. The claim asks that every handler returns \<^verbatim>\<open>{ continue: true }\<close> without
  raising, also for payloads with missing fields and payloads that cannot be serialized.
  The handlers guard \<^verbatim>\<open>JSON.stringify\<close> with a \<^verbatim>\<open>try\<close>, but a prompt that is missing
  reaches \<^verbatim>\<open>truncateAttribute\<close> and \<^verbatim>\<open>input.prompt.length\<close> unguarded (lines 45 and 60),
  a missing tool input makes \<^verbatim>\<open>JSON.stringify\<close> return \<^verbatim>\<open>undefined\<close> without throwing, so
  that \<^verbatim>\<open>truncateAttribute\<close> reads the length of \<^verbatim>\<open>undefined\<close> (line 146), and a value on
  which \<^verbatim>\<open>String\<close> throws escapes the \<^verbatim>\<open>catch\<close> block (line 140). In each case the
  handler throws a TypeError, from any tracker state.
\<close>

theorem C5_handlers_throw_on_missing_fields:
  "fst (st_UserPromptSubmit (inp\<lparr>hook_event_name := Some ''UserPromptSubmit'', prompt := None\<rparr>) s)
     = Inl TypeError \<and>
   fst (st_PreToolUse (inp\<lparr>hook_event_name := Some ''PreToolUse'', tool_input := Absent\<rparr>) s)
     = Inl TypeError \<and>
   fst (st_PreToolUse (inp\<lparr>hook_event_name := Some ''PreToolUse'', tool_input := Hostile\<rparr>) s)
     = Inl TypeError"
  by (simp add: st_UserPromptSubmit_def st_PreToolUse_def truncateAttribute_any_def
      toolInputStr_def Let_def startSpan_def split: prod.splits)

section \<open>The parent context of a tool span\<close>

text \<open>
  Claim C4, as stated, fails. The claim resolves the parent as: the explicit agent id when
  it is in the registry, otherwise the current open agent, otherwise the session. In the
  by-agent module an explicit id that is not in the registry sends the tool span to the
  session context although an agent is open; the single-trace module never reads the
  explicit id, so with agents A and B open a tool that names A is parented under B. The
  claim's example fails too when a second agent is involved: in the by-agent module, after
  the starts of A and B and the stop of B, a tool with no explicit id goes to the session
  context although A is open; in the single-trace module, after the starts of A and B, it
  goes under B although A is open.
\<close>

theorem C4_counterexample:
  "span_parent (tracer (snd (ba_PreToolUse (start_tool ''U1'' (Some ''B''))
       (run ba_hooks [start_agent ''A''] (ba_withAgentTelemetry [])))) ! 2)
     \<noteq> ba_spec_parentContext (start_tool ''U1'' (Some ''B''))
          (run ba_hooks [start_agent ''A''] (ba_withAgentTelemetry [])) \<and>
   span_parent (tracer (snd (st_PreToolUse (start_tool ''U1'' (Some ''A''))
       (run st_hooks [start_agent ''A'', start_agent ''B''] (st_withAgentTelemetry [])))) ! 4)
     \<noteq> st_spec_parentContext (start_tool ''U1'' (Some ''A''))
          (run st_hooks [start_agent ''A'', start_agent ''B''] (st_withAgentTelemetry [])) \<and>
   map_option sessionSpanContext
       (Map_get (ba_agentTraces (run ba_hooks [start_agent ''A'', start_agent ''B'', stop_agent ''B'']
                                   (ba_withAgentTelemetry []))) (Some ''A''))
     = Some (SpanContext 1) \<and>
   span_parent (tracer (snd (ba_PreToolUse (start_tool ''U1'' None)
       (run ba_hooks [start_agent ''A'', start_agent ''B'', stop_agent ''B'']
          (ba_withAgentTelemetry [])))) ! 3)
     = SpanContext 0 \<and>
   map_option st_context
       (Map_get (st_agentSpans (run st_hooks [start_agent ''A'', start_agent ''B'']
                                  (st_withAgentTelemetry []))) (Some ''A''))
     = Some (SpanContext 2) \<and>
   span_parent (tracer (snd (st_PreToolUse (start_tool ''U1'' None)
       (run st_hooks [start_agent ''A'', start_agent ''B''] (st_withAgentTelemetry [])))) ! 4)
     = SpanContext 3"
  by code_simp

text \<open>
  Claim C4, amended. In the by-agent module the id that counts is the explicit agent id
  when it is a non-empty string and the current agent id otherwise; the tool span's parent
  is the context registered under that id, and the session context when the id is empty,
  missing or not registered (an unregistered explicit id does not fall back to the current
  agent). In the single-trace module the explicit id is not read: the parent is the
  context of the last entry of the agent registry, and the session context when the
  registry is empty. In particular, from any state of the tracker:

  \<^item> by-agent: once an agent A with a non-empty id has started, and for as long as no
    agent starts and A is not stopped, a tool started with no explicit agent id is
    parented under A's context; once A is then stopped, and for as long as no agent
    starts, such a tool is parented under the session context, whether or not other
    agents are still open;

  \<^item> single-trace: once an agent A has started under an id that was not in the registry,
    and for as long as no agent starts and A is not stopped, every tool started is
    parented under A's context; if moreover no agent was open when A started, then once
    A is stopped, and for as long as no agent starts, every tool started is parented
    under the session context.
\<close>

theorem C4_parent_context_resolution:
  "(hook_event_name inp = Some ''PreToolUse'' \<longrightarrow>
      span_parent (tracer (snd (ba_PreToolUse inp s)) ! length (tracer s)) =
        (let agentId = (if truthy (agent_id inp) then agent_id inp else ba_currentAgentId s)
         in case (if truthy agentId then Map_get (ba_agentTraces s) agentId else None) of
              Some t \<Rightarrow> sessionSpanContext t
            | None \<Rightarrow> ba_sessionSpanContext s)) \<and>
   (hook_event_name inp' = Some ''PreToolUse'' \<longrightarrow>
      span_parent (tracer (snd (st_PreToolUse inp' s')) ! length (tracer s')) =
        (if st_agentSpans s' = [] then st_sessionSpanContext s'
         else st_context (snd (last (st_agentSpans s'))))) \<and>
   (hook_event_name a = Some ''SubagentStart'' \<and> truthy (agent_id a) \<and>
    no_agent_start mid \<and> no_stop_of (agent_id a) mid \<and>
    hook_event_name t = Some ''PreToolUse'' \<and> \<not> truthy (agent_id t) \<and>
    hook_event_name z = Some ''SubagentStop'' \<and> agent_id z = agent_id a \<and>
    no_agent_start mid' \<longrightarrow>
      (let sA = run ba_hooks (a # mid) s;
           sZ = run ba_hooks (z # mid') sA
       in map_option sessionSpanContext (Map_get (ba_agentTraces sA) (agent_id a))
            = Some (SpanContext (length (tracer s))) \<and>
          span_parent (tracer (snd (ba_PreToolUse t sA)) ! length (tracer sA))
            = SpanContext (length (tracer s)) \<and>
          span_parent (tracer (snd (ba_PreToolUse t sZ)) ! length (tracer sZ))
            = ba_sessionSpanContext s)) \<and>
   (hook_event_name a' = Some ''SubagentStart'' \<and>
    Map_get (st_agentSpans s') (agent_id a') = None \<and>
    no_agent_start mid \<and> no_stop_of (agent_id a') mid \<and>
    hook_event_name t' = Some ''PreToolUse'' \<and>
    hook_event_name z' = Some ''SubagentStop'' \<and> agent_id z' = agent_id a' \<and>
    no_agent_start mid' \<longrightarrow>
      (let sA = run st_hooks (a' # mid) s';
           sZ = run st_hooks (z' # mid') sA
       in map_option st_context (Map_get (st_agentSpans sA) (agent_id a'))
            = Some (SpanContext (length (tracer s'))) \<and>
          span_parent (tracer (snd (st_PreToolUse t' sA)) ! length (tracer sA))
            = SpanContext (length (tracer s')) \<and>
          (st_agentSpans s' = [] \<longrightarrow>
             span_parent (tracer (snd (st_PreToolUse t' sZ)) ! length (tracer sZ))
               = st_sessionSpanContext s')))"
proof (intro conjI impI)
  assume "hook_event_name inp = Some ''PreToolUse''"
  then show "span_parent (tracer (snd (ba_PreToolUse inp s)) ! length (tracer s)) =
        (let agentId = (if truthy (agent_id inp) then agent_id inp else ba_currentAgentId s)
         in case (if truthy agentId then Map_get (ba_agentTraces s) agentId else None) of
              Some t \<Rightarrow> sessionSpanContext t
            | None \<Rightarrow> ba_sessionSpanContext s)"
    by (simp add: ba_PreToolUse_parent ba_parentContext_def js_or_def)
next
  assume "hook_event_name inp' = Some ''PreToolUse''"
  then show "span_parent (tracer (snd (st_PreToolUse inp' s')) ! length (tracer s')) =
        (if st_agentSpans s' = [] then st_sessionSpanContext s'
         else st_context (snd (last (st_agentSpans s'))))"
    by (simp add: st_PreToolUse_parent st_parentContext_def Map_values_def Let_def last_map)
next
  assume h: "hook_event_name a = Some ''SubagentStart'' \<and> truthy (agent_id a) \<and>
    no_agent_start mid \<and> no_stop_of (agent_id a) mid \<and>
    hook_event_name t = Some ''PreToolUse'' \<and> \<not> truthy (agent_id t) \<and>
    hook_event_name z = Some ''SubagentStop'' \<and> agent_id z = agent_id a \<and>
    no_agent_start mid'"
  let ?sA = "run ba_hooks (a # mid) s"
  let ?sZ = "run ba_hooks (z # mid') ?sA"
  note r = ba_agent_then_tool [of a mid t z mid' ?sA s ?sZ]
  have "map_option sessionSpanContext (Map_get (ba_agentTraces ?sA) (agent_id a))
            = Some (SpanContext (length (tracer s)))"
    using h r(1) by simp
  moreover have "span_parent (tracer (snd (ba_PreToolUse t ?sA)) ! length (tracer ?sA))
            = SpanContext (length (tracer s))"
    using h r(2) by simp
  moreover have "span_parent (tracer (snd (ba_PreToolUse t ?sZ)) ! length (tracer ?sZ))
            = ba_sessionSpanContext s"
    using h r(3) by simp
  ultimately show "let sA = run ba_hooks (a # mid) s;
           sZ = run ba_hooks (z # mid') sA
       in map_option sessionSpanContext (Map_get (ba_agentTraces sA) (agent_id a))
            = Some (SpanContext (length (tracer s))) \<and>
          span_parent (tracer (snd (ba_PreToolUse t sA)) ! length (tracer sA))
            = SpanContext (length (tracer s)) \<and>
          span_parent (tracer (snd (ba_PreToolUse t sZ)) ! length (tracer sZ))
            = ba_sessionSpanContext s"
    unfolding Let_def by (intro conjI)
next
  assume h: "hook_event_name a' = Some ''SubagentStart'' \<and>
    Map_get (st_agentSpans s') (agent_id a') = None \<and>
    no_agent_start mid \<and> no_stop_of (agent_id a') mid \<and>
    hook_event_name t' = Some ''PreToolUse'' \<and>
    hook_event_name z' = Some ''SubagentStop'' \<and> agent_id z' = agent_id a' \<and>
    no_agent_start mid'"
  let ?sA = "run st_hooks (a' # mid) s'"
  let ?sZ = "run st_hooks (z' # mid') ?sA"
  note r = st_agent_then_tool [of a' s' mid t' z' mid' ?sA ?sZ]
  have "map_option st_context (Map_get (st_agentSpans ?sA) (agent_id a'))
            = Some (SpanContext (length (tracer s')))"
    using h r(1) by simp
  moreover have "span_parent (tracer (snd (st_PreToolUse t' ?sA)) ! length (tracer ?sA))
            = SpanContext (length (tracer s'))"
    using h r(2) by simp
  moreover have "st_agentSpans s' = [] \<longrightarrow>
             span_parent (tracer (snd (st_PreToolUse t' ?sZ)) ! length (tracer ?sZ))
               = st_sessionSpanContext s'"
    using h by (intro impI r(3)) simp_all
  ultimately show "let sA = run st_hooks (a' # mid) s';
           sZ = run st_hooks (z' # mid') sA
       in map_option st_context (Map_get (st_agentSpans sA) (agent_id a'))
            = Some (SpanContext (length (tracer s'))) \<and>
          span_parent (tracer (snd (st_PreToolUse t' sA)) ! length (tracer sA))
            = SpanContext (length (tracer s')) \<and>
          (st_agentSpans s' = [] \<longrightarrow>
             span_parent (tracer (snd (st_PreToolUse t' sZ)) ! length (tracer sZ))
               = st_sessionSpanContext s')"
    unfolding Let_def by (intro conjI)
qed

theorem C4_parent_context_resolution_witness:
  "hook_event_name (start_tool ''U1'' (Some ''B'')) = Some ''PreToolUse'' \<and>
   span_parent (tracer (snd (ba_PreToolUse (start_tool ''U1'' (Some ''B''))
       (run ba_hooks [start_agent ''A''] (ba_withAgentTelemetry [])))) ! 2) = SpanContext 0 \<and>
   span_parent (tracer (snd (st_PreToolUse (start_tool ''U1'' (Some ''A''))
       (run st_hooks [start_agent ''A'', start_agent ''B''] (st_withAgentTelemetry [])))) ! 4)
     = SpanContext 3 \<and>
   hook_event_name (start_agent ''A'') = Some ''SubagentStart'' \<and>
   truthy (agent_id (start_agent ''A'')) \<and>
   no_agent_start [start_tool ''U1'' None] \<and>
   no_stop_of (agent_id (start_agent ''A'')) [start_tool ''U1'' None] \<and>
   hook_event_name (start_tool ''U2'' None) = Some ''PreToolUse'' \<and>
   \<not> truthy (agent_id (start_tool ''U2'' None)) \<and>
   hook_event_name (stop_agent ''A'') = Some ''SubagentStop'' \<and>
   agent_id (stop_agent ''A'') = agent_id (start_agent ''A'') \<and>
   no_agent_start [complete_tool ''U1''] \<and>
   map_option sessionSpanContext
       (Map_get (ba_agentTraces (run ba_hooks [start_agent ''B''] (ba_withAgentTelemetry [])))
          (Some ''B'')) = Some (SpanContext 1) \<and>
   span_parent (tracer (snd (ba_PreToolUse (start_tool ''U2'' None)
       (run ba_hooks [start_agent ''A'', start_tool ''U1'' None]
          (run ba_hooks [start_agent ''B''] (ba_withAgentTelemetry []))))) ! 4)
     = SpanContext 2 \<and>
   span_parent (tracer (snd (ba_PreToolUse (start_tool ''U2'' None)
       (run ba_hooks [stop_agent ''A'', complete_tool ''U1'']
          (run ba_hooks [start_agent ''A'', start_tool ''U1'' None]
             (run ba_hooks [start_agent ''B''] (ba_withAgentTelemetry [])))))) ! 4)
     = SpanContext 0 \<and>
   Map_get (st_agentSpans (run st_hooks [start_agent ''B'', stop_agent ''B'']
                             (st_withAgentTelemetry []))) (agent_id (start_agent ''A'')) = None \<and>
   st_agentSpans (run st_hooks [start_agent ''B'', stop_agent ''B''] (st_withAgentTelemetry [])) = [] \<and>
   span_parent (tracer (snd (st_PreToolUse (start_tool ''U2'' None)
       (run st_hooks [start_agent ''A'', start_tool ''U1'' None]
          (run st_hooks [start_agent ''B'', stop_agent ''B''] (st_withAgentTelemetry []))))) ! 5)
     = SpanContext 3 \<and>
   span_parent (tracer (snd (st_PreToolUse (start_tool ''U2'' None)
       (run st_hooks [stop_agent ''A'', complete_tool ''U1'']
          (run st_hooks [start_agent ''A'', start_tool ''U1'' None]
             (run st_hooks [start_agent ''B'', stop_agent ''B''] (st_withAgentTelemetry [])))))) ! 5)
     = SpanContext 1"
proof -
  let ?sB = "run ba_hooks [start_agent ''A''] (ba_withAgentTelemetry [])"
  let ?sS = "run st_hooks [start_agent ''A'', start_agent ''B''] (st_withAgentTelemetry [])"
  let ?tB = "start_tool ''U1'' (Some ''B'')"
  let ?tA = "start_tool ''U1'' (Some ''A'')"
  let ?a = "start_agent ''A''" and ?z = "stop_agent ''A''" and ?t = "start_tool ''U2'' None"
  let ?mid = "[start_tool ''U1'' None]" and ?mid' = "[complete_tool ''U1'']"
  let ?b = "run ba_hooks [start_agent ''B''] (ba_withAgentTelemetry [])"
  let ?s = "run st_hooks [start_agent ''B'', stop_agent ''B''] (st_withAgentTelemetry [])"
  let ?bA = "run ba_hooks (?a # ?mid) ?b" and ?sA = "run st_hooks (?a # ?mid) ?s"
  let ?bZ = "run ba_hooks (?z # ?mid') ?bA" and ?sZ = "run st_hooks (?z # ?mid') ?sA"
  note T1 = C4_parent_context_resolution
    [where inp = ?tB and s = ?sB and inp' = ?tA and s' = ?sS, THEN conjunct1]
  note T2 = C4_parent_context_resolution
    [where inp = ?tB and s = ?sB and inp' = ?tA and s' = ?sS, THEN conjunct2, THEN conjunct1]
  note T3 = C4_parent_context_resolution
    [where s = ?b and a = ?a and mid = ?mid and t = ?t and z = ?z and mid' = ?mid',
      THEN conjunct2, THEN conjunct2, THEN conjunct1, unfolded Let_def]
  note T4 = C4_parent_context_resolution
    [where s' = ?s and a' = ?a and mid = ?mid and t' = ?t and z' = ?z and mid' = ?mid',
      THEN conjunct2, THEN conjunct2, THEN conjunct2, unfolded Let_def]
  have ev: "hook_event_name (start_tool u x) = Some ''PreToolUse''"
    "hook_event_name (start_agent y) = Some ''SubagentStart''"
    "hook_event_name (stop_agent y) = Some ''SubagentStop''"
    "hook_event_name (complete_tool u) = Some ''PostToolUse''"
    "agent_id (start_tool u x) = x" "agent_id (start_agent y) = Some y"
    "agent_id (stop_agent y) = Some y" for u x y
    by (simp_all add: start_tool_def start_agent_def stop_agent_def complete_tool_def no_input_def)
  have tr: "truthy (Some ''A'')" "\<not> truthy None"
    by (simp_all add: truthy_def)
  have seq: "no_agent_start ?mid" "no_stop_of (Some ''A'') ?mid" "no_agent_start ?mid'"
    by (simp_all add: no_agent_start_def no_stop_of_def ev)
  have lB: "length (tracer ?sB) = 2" and lS: "length (tracer ?sS) = 4"
    by code_simp+
  have r1: "(let agentId = (if truthy (agent_id ?tB) then agent_id ?tB else ba_currentAgentId ?sB)
         in case (if truthy agentId then Map_get (ba_agentTraces ?sB) agentId else None) of
              Some t \<Rightarrow> sessionSpanContext t
            | None \<Rightarrow> ba_sessionSpanContext ?sB) = SpanContext 0"
    by code_simp
  have r2: "(if st_agentSpans ?sS = [] then st_sessionSpanContext ?sS
         else st_context (snd (last (st_agentSpans ?sS)))) = SpanContext 3"
    by code_simp
  have c1: "span_parent (tracer (snd (ba_PreToolUse ?tB ?sB)) ! 2) = SpanContext 0"
    using T1 ev(1) r1 lB by simp
  have c2: "span_parent (tracer (snd (st_PreToolUse ?tA ?sS)) ! 4) = SpanContext 3"
    using T2 ev(1) r2 lS by simp
  have lb: "length (tracer ?b) = 2" "length (tracer ?bA) = 4" "length (tracer ?bZ) = 4"
    "ba_sessionSpanContext ?b = SpanContext 0"
    by code_simp+
  have ls: "length (tracer ?s) = 3" "length (tracer ?sA) = 5" "length (tracer ?sZ) = 5"
    "st_sessionSpanContext ?s = SpanContext 1"
    by code_simp+
  have open_B: "map_option sessionSpanContext (Map_get (ba_agentTraces ?b) (Some ''B''))
                  = Some (SpanContext 1)"
    by code_simp
  have g: "Map_get (st_agentSpans ?s) (agent_id ?a) = None" and e: "st_agentSpans ?s = []"
    by code_simp+
  have c3: "span_parent (tracer (snd (ba_PreToolUse ?t ?bA)) ! 4) = SpanContext 2 \<and>
            span_parent (tracer (snd (ba_PreToolUse ?t ?bZ)) ! 4) = SpanContext 0"
    using T3 seq lb by (simp add: ev tr)
  have c4: "span_parent (tracer (snd (st_PreToolUse ?t ?sA)) ! 5) = SpanContext 3 \<and>
            span_parent (tracer (snd (st_PreToolUse ?t ?sZ)) ! 5) = SpanContext 1"
    using T4 seq g e ls by (simp add: ev)
  show ?thesis
    using c1 c2 c3 c4 seq open_B g e by (simp add: ev tr)
qed


section \<open>The tool failure handler\<close>

text \<open>
  Claim C8, as stated, fails. In the individual-traces module the failure handler does not
  read the error message: for a registered tool use it records no exception and no
  \<^verbatim>\<open>tool.error\<close> attribute.
\<close>

theorem C8_counterexample:
  "Map_get (it_toolSpans (run (it_hooks wall_clock) [start_tool ''U1'' None] (it_withAgentTelemetry [])))
       (tool_use_id (fail_tool ''U1'' ''boom'')) = Some \<lparr>span = 0, startTime = 1000\<rparr> \<and>
   exceptions (tracer (snd (it_PostToolUseFailure wall_clock (fail_tool ''U1'' ''boom'')
       (run (it_hooks wall_clock) [start_tool ''U1'' None] (it_withAgentTelemetry [])))) ! 0) = [] \<and>
   attributes (tracer (snd (it_PostToolUseFailure wall_clock (fail_tool ''U1'' ''boom'')
       (run (it_hooks wall_clock) [start_tool ''U1'' None] (it_withAgentTelemetry [])))) ! 0)
       ''tool.error'' = None"
  by code_simp

text \<open>
  Claim C8, amended. For a post-use-failure event whose tool use id is in the tool
  registry, after any sequence of events, the handler returns \<^verbatim>\<open>{ continue: true }\<close>,
  closes the span and removes the id from the registry. Before closing, the single-trace
  and by-agent modules mark the tool as failed, store the error message capped at 10,000
  characters in \<^verbatim>\<open>tool.error\<close>, record an exception with the message and set status
  ERROR with the message capped at 256 characters, the message being "Unknown error" when
  the event carries none; the individual-traces module records a duration, marks the
  tool as failed and sets status ERROR with the fixed message "Tool execution failed",
  and nothing else.
\<close>

theorem C8_tool_failure_recorded:
  "hook_event_name inp = Some ''PostToolUseFailure'' \<longrightarrow>
     (let s = run st_hooks events (st_withAgentTelemetry tr);
          errorMessage = js_or_str (error inp) ''Unknown error''
      in \<forall>d. Map_get (st_toolSpans s) (tool_use_id inp) = Some d \<longrightarrow>
            fst (st_PostToolUseFailure inp s) = Inr (HookOutput True) \<and>
            calls (tracer (snd (st_PostToolUseFailure inp s)) ! st_span d) =
              calls (tracer s ! st_span d) @
                [SetAttribute ''tool.success'' (ABool False),
                 SetAttribute ''tool.error''
                   (AStr (Some (truncateAttribute errorMessage MAX_ATTRIBUTE_LENGTH))),
                 RecordException errorMessage,
                 SetStatus ERROR (Some (truncateAttribute errorMessage 256)),
                 End] \<and>
            Map_get (st_toolSpans (snd (st_PostToolUseFailure inp s))) (tool_use_id inp) = None) \<and>
     (let s = run ba_hooks events (ba_withAgentTelemetry tr);
          errorMessage = js_or_str (error inp) ''Unknown error''
      in \<forall>d. Map_get (ba_toolSpans s) (tool_use_id inp) = Some d \<longrightarrow>
            fst (ba_PostToolUseFailure inp s) = Inr (HookOutput True) \<and>
            calls (tracer (snd (ba_PostToolUseFailure inp s)) ! ba_span d) =
              calls (tracer s ! ba_span d) @
                [SetAttribute ''tool.success'' (ABool False),
                 SetAttribute ''tool.error''
                   (AStr (Some (truncateAttribute errorMessage MAX_ATTRIBUTE_LENGTH))),
                 RecordException errorMessage,
                 SetStatus ERROR (Some (truncateAttribute errorMessage 256)),
                 End] \<and>
            Map_get (ba_toolSpans (snd (ba_PostToolUseFailure inp s))) (tool_use_id inp) = None) \<and>
     (let s = run (it_hooks clock) events (it_withAgentTelemetry tr)
      in \<forall>d. Map_get (it_toolSpans s) (tool_use_id inp) = Some d \<longrightarrow>
            fst (it_PostToolUseFailure clock inp s) = Inr (HookOutput True) \<and>
            calls (tracer (snd (it_PostToolUseFailure clock inp s)) ! span d) =
              calls (tracer s ! span d) @
                [SetAttribute ''duration_ms'' (ANum (clock (it_now_calls s) - startTime d)),
                 SetAttribute ''tool.success'' (ABool False),
                 SetStatus ERROR (Some ''Tool execution failed''),
                 End] \<and>
            Map_get (it_toolSpans (snd (it_PostToolUseFailure clock inp s))) (tool_use_id inp) = None)"
proof (intro impI conjI)
  assume ev: "hook_event_name inp = Some ''PostToolUseFailure''"
  show "(let s = run st_hooks events (st_withAgentTelemetry tr);
          errorMessage = js_or_str (error inp) ''Unknown error''
      in \<forall>d. Map_get (st_toolSpans s) (tool_use_id inp) = Some d \<longrightarrow>
            fst (st_PostToolUseFailure inp s) = Inr (HookOutput True) \<and>
            calls (tracer (snd (st_PostToolUseFailure inp s)) ! st_span d) =
              calls (tracer s ! st_span d) @
                [SetAttribute ''tool.success'' (ABool False),
                 SetAttribute ''tool.error''
                   (AStr (Some (truncateAttribute errorMessage MAX_ATTRIBUTE_LENGTH))),
                 RecordException errorMessage,
                 SetStatus ERROR (Some (truncateAttribute errorMessage 256)),
                 End] \<and>
            Map_get (st_toolSpans (snd (st_PostToolUseFailure inp s))) (tool_use_id inp) = None)"
    unfolding Let_def
  proof (intro allI impI)
    fix d
    let ?s = "run st_hooks events (st_withAgentTelemetry tr)"
    assume g: "Map_get (st_toolSpans ?s) (tool_use_id inp) = Some d"
    have lt: "st_span d < length (tracer ?s)"
      using st_tool_open(1) [OF st_reachable_inv g] .
    show "fst (st_PostToolUseFailure inp ?s) = Inr (HookOutput True) \<and>
            calls (tracer (snd (st_PostToolUseFailure inp ?s)) ! st_span d) =
              calls (tracer ?s ! st_span d) @
                [SetAttribute ''tool.success'' (ABool False),
                 SetAttribute ''tool.error''
                   (AStr (Some (truncateAttribute (js_or_str (error inp) ''Unknown error'') MAX_ATTRIBUTE_LENGTH))),
                 RecordException (js_or_str (error inp) ''Unknown error''),
                 SetStatus ERROR (Some (truncateAttribute (js_or_str (error inp) ''Unknown error'') 256)),
                 End] \<and>
            Map_get (st_toolSpans (snd (st_PostToolUseFailure inp ?s))) (tool_use_id inp) = None"
      using st_PostToolUseFailure_effect [OF ev g lt] by simp
  qed
  show "(let s = run ba_hooks events (ba_withAgentTelemetry tr);
          errorMessage = js_or_str (error inp) ''Unknown error''
      in \<forall>d. Map_get (ba_toolSpans s) (tool_use_id inp) = Some d \<longrightarrow>
            fst (ba_PostToolUseFailure inp s) = Inr (HookOutput True) \<and>
            calls (tracer (snd (ba_PostToolUseFailure inp s)) ! ba_span d) =
              calls (tracer s ! ba_span d) @
                [SetAttribute ''tool.success'' (ABool False),
                 SetAttribute ''tool.error''
                   (AStr (Some (truncateAttribute errorMessage MAX_ATTRIBUTE_LENGTH))),
                 RecordException errorMessage,
                 SetStatus ERROR (Some (truncateAttribute errorMessage 256)),
                 End] \<and>
            Map_get (ba_toolSpans (snd (ba_PostToolUseFailure inp s))) (tool_use_id inp) = None)"
    unfolding Let_def
  proof (intro allI impI)
    fix d
    let ?s = "run ba_hooks events (ba_withAgentTelemetry tr)"
    assume g: "Map_get (ba_toolSpans ?s) (tool_use_id inp) = Some d"
    have lt: "ba_span d < length (tracer ?s)"
      using ba_tool_open(1) [OF ba_reachable_inv g] .
    show "fst (ba_PostToolUseFailure inp ?s) = Inr (HookOutput True) \<and>
            calls (tracer (snd (ba_PostToolUseFailure inp ?s)) ! ba_span d) =
              calls (tracer ?s ! ba_span d) @
                [SetAttribute ''tool.success'' (ABool False),
                 SetAttribute ''tool.error''
                   (AStr (Some (truncateAttribute (js_or_str (error inp) ''Unknown error'') MAX_ATTRIBUTE_LENGTH))),
                 RecordException (js_or_str (error inp) ''Unknown error''),
                 SetStatus ERROR (Some (truncateAttribute (js_or_str (error inp) ''Unknown error'') 256)),
                 End] \<and>
            Map_get (ba_toolSpans (snd (ba_PostToolUseFailure inp ?s))) (tool_use_id inp) = None"
      using ba_PostToolUseFailure_effect [OF ev g lt] by simp
  qed
  show "(let s = run (it_hooks clock) events (it_withAgentTelemetry tr)
      in \<forall>d. Map_get (it_toolSpans s) (tool_use_id inp) = Some d \<longrightarrow>
            fst (it_PostToolUseFailure clock inp s) = Inr (HookOutput True) \<and>
            calls (tracer (snd (it_PostToolUseFailure clock inp s)) ! span d) =
              calls (tracer s ! span d) @
                [SetAttribute ''duration_ms'' (ANum (clock (it_now_calls s) - startTime d)),
                 SetAttribute ''tool.success'' (ABool False),
                 SetStatus ERROR (Some ''Tool execution failed''),
                 End] \<and>
            Map_get (it_toolSpans (snd (it_PostToolUseFailure clock inp s))) (tool_use_id inp) = None)"
    unfolding Let_def
  proof (intro allI impI)
    fix d
    let ?s = "run (it_hooks clock) events (it_withAgentTelemetry tr)"
    assume g: "Map_get (it_toolSpans ?s) (tool_use_id inp) = Some d"
    have lt: "span d < length (tracer ?s)"
      using it_tool_open(1) [OF it_reachable_inv g] .
    show "fst (it_PostToolUseFailure clock inp ?s) = Inr (HookOutput True) \<and>
            calls (tracer (snd (it_PostToolUseFailure clock inp ?s)) ! span d) =
              calls (tracer ?s ! span d) @
                [SetAttribute ''duration_ms'' (ANum (clock (it_now_calls ?s) - startTime d)),
                 SetAttribute ''tool.success'' (ABool False),
                 SetStatus ERROR (Some ''Tool execution failed''),
                 End] \<and>
            Map_get (it_toolSpans (snd (it_PostToolUseFailure clock inp ?s))) (tool_use_id inp) = None"
      using it_PostToolUseFailure_effect [OF ev g lt, of clock] by simp
  qed
qed

theorem C8_tool_failure_recorded_witness:
  "hook_event_name (fail_tool ''U1'' ''boom'') = Some ''PostToolUseFailure'' \<and>
   Map_get (st_toolSpans (run st_hooks [start_tool ''U1'' None] (st_withAgentTelemetry [])))
       (tool_use_id (fail_tool ''U1'' ''boom''))
     = Some \<lparr>st_span = 2, st_context = SpanContext 2\<rparr> \<and>
   fst (st_PostToolUseFailure (fail_tool ''U1'' ''boom'')
       (run st_hooks [start_tool ''U1'' None] (st_withAgentTelemetry [])))
     = Inr (HookOutput True) \<and>
   calls (tracer (snd (st_PostToolUseFailure (fail_tool ''U1'' ''boom'')
       (run st_hooks [start_tool ''U1'' None] (st_withAgentTelemetry [])))) ! 2)
     = [SetAttribute ''tool.name'' (AStr (Some ''Bash'')),
        SetAttribute ''tool.use_id'' (AStr (Some ''U1'')),
        SetAttribute ''tool.input'' (AStr (Some ''{}'')),
        SetAttribute ''session.id'' (AStr (Some ''S1'')),
        SetAttribute ''tool.success'' (ABool False),
        SetAttribute ''tool.error'' (AStr (Some ''boom'')),
        RecordException ''boom'',
        SetStatus ERROR (Some ''boom''),
        End] \<and>
   Map_get (st_toolSpans (snd (st_PostToolUseFailure (fail_tool ''U1'' ''boom'')
       (run st_hooks [start_tool ''U1'' None] (st_withAgentTelemetry [])))))
       (tool_use_id (fail_tool ''U1'' ''boom'')) = None \<and>
   Map_get (it_toolSpans (run (it_hooks wall_clock) [start_tool ''U1'' None] (it_withAgentTelemetry [])))
       (tool_use_id (fail_tool ''U1'' ''boom''))
     = Some \<lparr>span = 0, startTime = 1000\<rparr> \<and>
   calls (tracer (snd (it_PostToolUseFailure wall_clock (fail_tool ''U1'' ''boom'')
       (run (it_hooks wall_clock) [start_tool ''U1'' None] (it_withAgentTelemetry [])))) ! 0)
     = [SetAttribute ''tool.name'' (AStr (Some ''Bash'')),
        SetAttribute ''tool.use_id'' (AStr (Some ''U1'')),
        SetAttribute ''tool.input'' (AStr (Some ''{}'')),
        SetAttribute ''session.id'' (AStr (Some ''S1'')),
        SetAttribute ''duration_ms'' (ANum 10),
        SetAttribute ''tool.success'' (ABool False),
        SetStatus ERROR (Some ''Tool execution failed''),
        End]"
proof -
  let ?F = "fail_tool ''U1'' ''boom''"
  let ?S = "run st_hooks [start_tool ''U1'' None] (st_withAgentTelemetry [])"
  let ?I = "run (it_hooks wall_clock) [start_tool ''U1'' None] (it_withAgentTelemetry [])"
  note T = C8_tool_failure_recorded [of ?F "[start_tool ''U1'' None]" "[]" wall_clock]
  have ev: "hook_event_name ?F = Some ''PostToolUseFailure''"
    by (simp add: fail_tool_def)
  have g: "Map_get (st_toolSpans ?S) (tool_use_id ?F) = Some \<lparr>st_span = 2, st_context = SpanContext 2\<rparr>"
    by code_simp
  have gi: "Map_get (it_toolSpans ?I) (tool_use_id ?F) = Some \<lparr>span = 0, startTime = 1000\<rparr>"
    by code_simp
  have old: "calls (tracer ?S ! 2) =
       [SetAttribute ''tool.name'' (AStr (Some ''Bash'')),
        SetAttribute ''tool.use_id'' (AStr (Some ''U1'')),
        SetAttribute ''tool.input'' (AStr (Some ''{}'')),
        SetAttribute ''session.id'' (AStr (Some ''S1''))]"
    by code_simp
  have oldi: "calls (tracer ?I ! 0) =
       [SetAttribute ''tool.name'' (AStr (Some ''Bash'')),
        SetAttribute ''tool.use_id'' (AStr (Some ''U1'')),
        SetAttribute ''tool.input'' (AStr (Some ''{}'')),
        SetAttribute ''session.id'' (AStr (Some ''S1''))]"
    by code_simp
  have em: "js_or_str (error ?F) ''Unknown error'' = ''boom''"
    "truncateAttribute ''boom'' MAX_ATTRIBUTE_LENGTH = ''boom''"
    "truncateAttribute ''boom'' 256 = ''boom''"
    by code_simp+
  have now: "wall_clock (it_now_calls ?I) - 1000 = 10"
    by code_simp
  have st: "fst (st_PostToolUseFailure ?F ?S) = Inr (HookOutput True) \<and>
            calls (tracer (snd (st_PostToolUseFailure ?F ?S)) ! 2) =
              calls (tracer ?S ! 2) @
                [SetAttribute ''tool.success'' (ABool False),
                 SetAttribute ''tool.error'' (AStr (Some ''boom'')),
                 RecordException ''boom'',
                 SetStatus ERROR (Some ''boom''),
                 End] \<and>
            Map_get (st_toolSpans (snd (st_PostToolUseFailure ?F ?S))) (tool_use_id ?F) = None"
    using T [THEN mp, OF ev, THEN conjunct1] g by (simp add: Let_def em)
  have it: "calls (tracer (snd (it_PostToolUseFailure wall_clock ?F ?I)) ! 0) =
              calls (tracer ?I ! 0) @
                [SetAttribute ''duration_ms'' (ANum 10),
                 SetAttribute ''tool.success'' (ABool False),
                 SetStatus ERROR (Some ''Tool execution failed''),
                 End]"
    using T [THEN mp, OF ev, THEN conjunct2, THEN conjunct2] gi now by (simp add: Let_def)
  show ?thesis
    using ev g gi st it by (simp add: old oldi)
qed

section \<open>Two caps on one error message\<close>

text \<open>
  Claim C10. In the tool failure path of the single-trace and by-agent modules, for a
  registered tool use and after any sequence of events, the span is closed with status
  ERROR and, as status message, the error message capped at 256 characters (its first 256
  characters and the suffix "... [truncated]" when it is longer), while the
  \<^verbatim>\<open>tool.error\<close> attribute of the same span holds the same message under the
  10,000-character cap.
\<close>

theorem C10_two_caps_on_one_error:
  "hook_event_name inp = Some ''PostToolUseFailure'' \<longrightarrow>
     (let s = run st_hooks events (st_withAgentTelemetry tr);
          s' = snd (st_PostToolUseFailure inp s);
          errorMessage = js_or_str (error inp) ''Unknown error''
      in \<forall>d. Map_get (st_toolSpans s) (tool_use_id inp) = Some d \<longrightarrow>
            closed_with (tracer s' ! st_span d) =
              Some (ERROR, Some (if 256 < length errorMessage
                                 then take 256 errorMessage @ ''... [truncated]''
                                 else errorMessage)) \<and>
            attributes (tracer s' ! st_span d) ''tool.error'' =
              Some (AStr (Some (if 10000 < length errorMessage
                                then take 10000 errorMessage @ ''... [truncated]''
                                else errorMessage)))) \<and>
     (let s = run ba_hooks events (ba_withAgentTelemetry tr);
          s' = snd (ba_PostToolUseFailure inp s);
          errorMessage = js_or_str (error inp) ''Unknown error''
      in \<forall>d. Map_get (ba_toolSpans s) (tool_use_id inp) = Some d \<longrightarrow>
            closed_with (tracer s' ! ba_span d) =
              Some (ERROR, Some (if 256 < length errorMessage
                                 then take 256 errorMessage @ ''... [truncated]''
                                 else errorMessage)) \<and>
            attributes (tracer s' ! ba_span d) ''tool.error'' =
              Some (AStr (Some (if 10000 < length errorMessage
                                then take 10000 errorMessage @ ''... [truncated]''
                                else errorMessage))))"
proof (intro impI conjI)
  assume ev: "hook_event_name inp = Some ''PostToolUseFailure''"
  let ?em = "js_or_str (error inp) ''Unknown error''"
  let ?pre = "[SetAttribute ''tool.success'' (ABool False),
               SetAttribute ''tool.error'' (AStr (Some (truncateAttribute ?em MAX_ATTRIBUTE_LENGTH))),
               RecordException ?em]"
  show "let s = run st_hooks events (st_withAgentTelemetry tr);
          s' = snd (st_PostToolUseFailure inp s);
          errorMessage = js_or_str (error inp) ''Unknown error''
      in \<forall>d. Map_get (st_toolSpans s) (tool_use_id inp) = Some d \<longrightarrow>
            closed_with (tracer s' ! st_span d) =
              Some (ERROR, Some (if 256 < length errorMessage
                                 then take 256 errorMessage @ ''... [truncated]''
                                 else errorMessage)) \<and>
            attributes (tracer s' ! st_span d) ''tool.error'' =
              Some (AStr (Some (if 10000 < length errorMessage
                                then take 10000 errorMessage @ ''... [truncated]''
                                else errorMessage)))"
    unfolding Let_def
  proof (intro allI impI)
    fix d
    let ?s = "run st_hooks events (st_withAgentTelemetry tr)"
    let ?s' = "snd (st_PostToolUseFailure inp ?s)"
    assume g: "Map_get (st_toolSpans ?s) (tool_use_id inp) = Some d"
    note o = st_tool_open [OF st_reachable_inv g]
    note e = st_PostToolUseFailure_effect(2) [OF ev g o(1)]
    have "closes (tracer ?s) (tracer ?s') (st_span d) (ERROR, Some (truncateAttribute ?em 256))"
      using o e by (intro closes_by_calls [where xs = ?pre]) simp_all
    then have "closed_with (tracer ?s' ! st_span d) = Some (ERROR, Some (truncateAttribute ?em 256))"
      by (rule closes_closed_with)
    moreover have "attributes (tracer ?s' ! st_span d) ''tool.error'' =
        Some (AStr (Some (truncateAttribute ?em MAX_ATTRIBUTE_LENGTH)))"
      using e by (rule failure_calls_read)
    ultimately show "closed_with (tracer ?s' ! st_span d) =
              Some (ERROR, Some (if 256 < length ?em then take 256 ?em @ ''... [truncated]'' else ?em)) \<and>
            attributes (tracer ?s' ! st_span d) ''tool.error'' =
              Some (AStr (Some (if 10000 < length ?em then take 10000 ?em @ ''... [truncated]'' else ?em)))"
      by (simp add: truncateAttribute_cases MAX_ATTRIBUTE_LENGTH_def)
  qed
  show "let s = run ba_hooks events (ba_withAgentTelemetry tr);
          s' = snd (ba_PostToolUseFailure inp s);
          errorMessage = js_or_str (error inp) ''Unknown error''
      in \<forall>d. Map_get (ba_toolSpans s) (tool_use_id inp) = Some d \<longrightarrow>
            closed_with (tracer s' ! ba_span d) =
              Some (ERROR, Some (if 256 < length errorMessage
                                 then take 256 errorMessage @ ''... [truncated]''
                                 else errorMessage)) \<and>
            attributes (tracer s' ! ba_span d) ''tool.error'' =
              Some (AStr (Some (if 10000 < length errorMessage
                                then take 10000 errorMessage @ ''... [truncated]''
                                else errorMessage)))"
    unfolding Let_def
  proof (intro allI impI)
    fix d
    let ?s = "run ba_hooks events (ba_withAgentTelemetry tr)"
    let ?s' = "snd (ba_PostToolUseFailure inp ?s)"
    assume g: "Map_get (ba_toolSpans ?s) (tool_use_id inp) = Some d"
    note o = ba_tool_open [OF ba_reachable_inv g]
    note e = ba_PostToolUseFailure_effect(2) [OF ev g o(1)]
    have "closes (tracer ?s) (tracer ?s') (ba_span d) (ERROR, Some (truncateAttribute ?em 256))"
      using o e by (intro closes_by_calls [where xs = ?pre]) simp_all
    then have "closed_with (tracer ?s' ! ba_span d) = Some (ERROR, Some (truncateAttribute ?em 256))"
      by (rule closes_closed_with)
    moreover have "attributes (tracer ?s' ! ba_span d) ''tool.error'' =
        Some (AStr (Some (truncateAttribute ?em MAX_ATTRIBUTE_LENGTH)))"
      using e by (rule failure_calls_read)
    ultimately show "closed_with (tracer ?s' ! ba_span d) =
              Some (ERROR, Some (if 256 < length ?em then take 256 ?em @ ''... [truncated]'' else ?em)) \<and>
            attributes (tracer ?s' ! ba_span d) ''tool.error'' =
              Some (AStr (Some (if 10000 < length ?em then take 10000 ?em @ ''... [truncated]'' else ?em)))"
      by (simp add: truncateAttribute_cases MAX_ATTRIBUTE_LENGTH_def)
  qed
qed

theorem C10_two_caps_on_one_error_witness:
  "hook_event_name (fail_tool ''U1'' (replicate 300 CHR ''e'')) = Some ''PostToolUseFailure'' \<and>
   Map_get (st_toolSpans (run st_hooks [start_tool ''U1'' None] (st_withAgentTelemetry [])))
       (tool_use_id (fail_tool ''U1'' (replicate 300 CHR ''e'')))
     = Some \<lparr>st_span = 2, st_context = SpanContext 2\<rparr> \<and>
   closed_with (tracer (snd (st_PostToolUseFailure (fail_tool ''U1'' (replicate 300 CHR ''e''))
       (run st_hooks [start_tool ''U1'' None] (st_withAgentTelemetry [])))) ! 2)
     = Some (ERROR, Some (replicate 256 CHR ''e'' @ ''... [truncated]'')) \<and>
   attributes (tracer (snd (st_PostToolUseFailure (fail_tool ''U1'' (replicate 300 CHR ''e''))
       (run st_hooks [start_tool ''U1'' None] (st_withAgentTelemetry [])))) ! 2) ''tool.error''
     = Some (AStr (Some (replicate 300 CHR ''e'')))"
proof -
  let ?F = "fail_tool ''U1'' (replicate 300 CHR ''e'')"
  let ?S = "run st_hooks [start_tool ''U1'' None] (st_withAgentTelemetry [])"
  note T = C10_two_caps_on_one_error [of ?F "[start_tool ''U1'' None]" "[]"]
  have ev: "hook_event_name ?F = Some ''PostToolUseFailure''"
    by (simp add: fail_tool_def)
  have g: "Map_get (st_toolSpans ?S) (tool_use_id ?F) = Some \<lparr>st_span = 2, st_context = SpanContext 2\<rparr>"
    by code_simp
  have em: "js_or_str (error ?F) ''Unknown error'' = replicate 300 CHR ''e''"
    by (simp add: fail_tool_def js_or_str_def)
  show ?thesis
    using T [THEN mp, OF ev, THEN conjunct1] ev g by (simp add: Let_def em min_def)
qed

section \<open>Orphaned spans\<close>

text \<open>
  Claim C3, as stated, fails, in both halves. In the by-agent module the sweep closes an
  agent span left in the registry with the message "Orphaned agent trace", not "Orphaned
  span": after an agent start and a tool start under it, cleanup marks the tool span
  "Orphaned span" and the agent span "Orphaned agent trace". And in the single-trace and
  by-agent modules the status message of a failed tool is the error text of the event, so
  a span closed by its own failure event carries "Orphaned span" when that is the text.
\<close>

theorem C3_counterexample:
  "map (rootSpan \<circ> snd)
     (ba_agentTraces (run ba_hooks [start_agent ''A1'', start_tool ''U1'' (Some ''A1'')]
                        (ba_withAgentTelemetry []))) = [1] \<and>
   closed_with (tracer (ba_cleanup (run ba_hooks [start_agent ''A1'', start_tool ''U1'' (Some ''A1'')]
                                      (ba_withAgentTelemetry []))) ! 1)
     = Some (ERROR, Some ''Orphaned agent trace'') \<and>
   map (st_span \<circ> snd)
     (st_toolSpans (run st_hooks [start_tool ''U1'' None] (st_withAgentTelemetry []))) = [2] \<and>
   st_toolSpans (run st_hooks [start_tool ''U1'' None, fail_tool ''U1'' ''Orphaned span'']
                   (st_withAgentTelemetry [])) = [] \<and>
   closed_with (tracer (run st_hooks [start_tool ''U1'' None, fail_tool ''U1'' ''Orphaned span'']
                          (st_withAgentTelemetry [])) ! 2)
     = Some (ERROR, Some ''Orphaned span'')"
  by code_simp

text \<open>
  Claim C3, amended. After any sequence of events, in each module: every span still in a
  registry when cleanup runs was open and is closed by cleanup, once, with status ERROR;
  the message is "Orphaned span", except for the agent spans of the by-agent module,
  whose message is "Orphaned agent trace". A span closed by its matching event is closed
  once, with status OK and no message by an agent stop or a tool completion that
  returns, and with status ERROR by a tool failure, the message being the error text
  capped at 256 characters ("Unknown error" when absent) in the single-trace and
  by-agent modules and "Tool execution failed" in the individual-traces module; and
  whatever events follow, neither they nor cleanup record anything more on that span.
\<close>

theorem C3_orphans_and_normal_closes:
  "(let s = run st_hooks events (st_withAgentTelemetry tr) in
     (\<forall>e\<in>set (st_toolSpans s) \<union> set (st_agentSpans s).
          closes (tracer s) (tracer (st_cleanup s)) (st_span (snd e)) (ERROR, Some ''Orphaned span'')) \<and>
     (\<forall>d. hook_event_name inp = Some ''SubagentStop'' \<and>
            Map_get (st_agentSpans s) (agent_id inp) = Some d \<longrightarrow>
          closes (tracer s) (tracer (snd (st_SubagentStop inp s))) (st_span d) (OK, None) \<and>
          calls (tracer (st_cleanup (run st_hooks later (snd (st_SubagentStop inp s)))) ! st_span d) =
            calls (tracer (snd (st_SubagentStop inp s)) ! st_span d)) \<and>
     (\<forall>d. hook_event_name inp = Some ''PostToolUse'' \<and>
            Map_get (st_toolSpans s) (tool_use_id inp) = Some d \<and>
            fst (st_PostToolUse inp s) = Inr (HookOutput True) \<longrightarrow>
          closes (tracer s) (tracer (snd (st_PostToolUse inp s))) (st_span d) (OK, None) \<and>
          calls (tracer (st_cleanup (run st_hooks later (snd (st_PostToolUse inp s)))) ! st_span d) =
            calls (tracer (snd (st_PostToolUse inp s)) ! st_span d)) \<and>
     (\<forall>d. hook_event_name inp = Some ''PostToolUseFailure'' \<and>
            Map_get (st_toolSpans s) (tool_use_id inp) = Some d \<longrightarrow>
          closes (tracer s) (tracer (snd (st_PostToolUseFailure inp s))) (st_span d) (ERROR, Some (truncateAttribute (js_or_str (error inp) ''Unknown error'') 256)) \<and>
          calls (tracer (st_cleanup (run st_hooks later (snd (st_PostToolUseFailure inp s)))) ! st_span d) =
            calls (tracer (snd (st_PostToolUseFailure inp s)) ! st_span d))) \<and>
  (let s = run ba_hooks events (ba_withAgentTelemetry tr) in
     (\<forall>e\<in>set (ba_toolSpans s).
          closes (tracer s) (tracer (ba_cleanup s)) (ba_span (snd e)) (ERROR, Some ''Orphaned span'')) \<and>
     (\<forall>e\<in>set (ba_agentTraces s).
          closes (tracer s) (tracer (ba_cleanup s)) (rootSpan (snd e)) (ERROR, Some ''Orphaned agent trace'')) \<and>
     (\<forall>d. hook_event_name inp = Some ''SubagentStop'' \<and>
            Map_get (ba_agentTraces s) (agent_id inp) = Some d \<longrightarrow>
          closes (tracer s) (tracer (snd (ba_SubagentStop inp s))) (rootSpan d) (OK, None) \<and>
          calls (tracer (ba_cleanup (run ba_hooks later (snd (ba_SubagentStop inp s)))) ! rootSpan d) =
            calls (tracer (snd (ba_SubagentStop inp s)) ! rootSpan d)) \<and>
     (\<forall>d. hook_event_name inp = Some ''PostToolUse'' \<and>
            Map_get (ba_toolSpans s) (tool_use_id inp) = Some d \<and>
            fst (ba_PostToolUse inp s) = Inr (HookOutput True) \<longrightarrow>
          closes (tracer s) (tracer (snd (ba_PostToolUse inp s))) (ba_span d) (OK, None) \<and>
          calls (tracer (ba_cleanup (run ba_hooks later (snd (ba_PostToolUse inp s)))) ! ba_span d) =
            calls (tracer (snd (ba_PostToolUse inp s)) ! ba_span d)) \<and>
     (\<forall>d. hook_event_name inp = Some ''PostToolUseFailure'' \<and>
            Map_get (ba_toolSpans s) (tool_use_id inp) = Some d \<longrightarrow>
          closes (tracer s) (tracer (snd (ba_PostToolUseFailure inp s))) (ba_span d) (ERROR, Some (truncateAttribute (js_or_str (error inp) ''Unknown error'') 256)) \<and>
          calls (tracer (ba_cleanup (run ba_hooks later (snd (ba_PostToolUseFailure inp s)))) ! ba_span d) =
            calls (tracer (snd (ba_PostToolUseFailure inp s)) ! ba_span d))) \<and>
  (let s = run (it_hooks clock) events (it_withAgentTelemetry tr) in
     (\<forall>e\<in>set (it_toolSpans s) \<union> set (it_agentSpans s).
          closes (tracer s) (tracer (it_cleanup clock s)) (span (snd e)) (ERROR, Some ''Orphaned span'')) \<and>
     (\<forall>d. hook_event_name inp = Some ''SubagentStop'' \<and>
            Map_get (it_agentSpans s) (agent_id inp) = Some d \<longrightarrow>
          closes (tracer s) (tracer (snd (it_SubagentStop clock inp s))) (span d) (OK, None) \<and>
          calls (tracer (it_cleanup clock (run (it_hooks clock) later (snd (it_SubagentStop clock inp s)))) ! span d) =
            calls (tracer (snd (it_SubagentStop clock inp s)) ! span d)) \<and>
     (\<forall>d. hook_event_name inp = Some ''PostToolUse'' \<and>
            Map_get (it_toolSpans s) (tool_use_id inp) = Some d \<and>
            fst (it_PostToolUse clock inp s) = Inr (HookOutput True) \<longrightarrow>
          closes (tracer s) (tracer (snd (it_PostToolUse clock inp s))) (span d) (OK, None) \<and>
          calls (tracer (it_cleanup clock (run (it_hooks clock) later (snd (it_PostToolUse clock inp s)))) ! span d) =
            calls (tracer (snd (it_PostToolUse clock inp s)) ! span d)) \<and>
     (\<forall>d. hook_event_name inp = Some ''PostToolUseFailure'' \<and>
            Map_get (it_toolSpans s) (tool_use_id inp) = Some d \<longrightarrow>
          closes (tracer s) (tracer (snd (it_PostToolUseFailure clock inp s))) (span d) (ERROR, Some (''Tool execution failed'')) \<and>
          calls (tracer (it_cleanup clock (run (it_hooks clock) later (snd (it_PostToolUseFailure clock inp s)))) ! span d) =
            calls (tracer (snd (it_PostToolUseFailure clock inp s)) ! span d)))"
  unfolding Let_def
  using st_orphans_and_normal_closes [OF refl, of events tr inp later]
    ba_orphans_and_normal_closes [OF refl, of events tr inp later]
    it_orphans_and_normal_closes [OF refl, of clock events tr inp later]
  by (intro conjI) (elim conjE, assumption)+

theorem C3_orphans_and_normal_closes_witness:
  "(Some ''U1'', \<lparr>st_span = 3, st_context = SpanContext 3\<rparr>)
     \<in> set (st_toolSpans (run st_hooks [start_agent ''A1'', start_tool ''U1'' (Some ''A1'')]
                             (st_withAgentTelemetry []))) \<union>
       set (st_agentSpans (run st_hooks [start_agent ''A1'', start_tool ''U1'' (Some ''A1'')]
                             (st_withAgentTelemetry []))) \<and>
   closes (tracer (run st_hooks [start_agent ''A1'', start_tool ''U1'' (Some ''A1'')]
                     (st_withAgentTelemetry [])))
     (tracer (st_cleanup (run st_hooks [start_agent ''A1'', start_tool ''U1'' (Some ''A1'')]
                            (st_withAgentTelemetry []))))
     3 (ERROR, Some ''Orphaned span'') \<and>
   hook_event_name (stop_agent ''A1'') = Some ''SubagentStop'' \<and>
   Map_get (st_agentSpans (run st_hooks [start_agent ''A1'', start_tool ''U1'' (Some ''A1'')]
                             (st_withAgentTelemetry [])))
     (agent_id (stop_agent ''A1'')) = Some \<lparr>st_span = 2, st_context = SpanContext 2\<rparr> \<and>
   closes (tracer (run st_hooks [start_agent ''A1'', start_tool ''U1'' (Some ''A1'')]
                     (st_withAgentTelemetry [])))
     (tracer (snd (st_SubagentStop (stop_agent ''A1'')
        (run st_hooks [start_agent ''A1'', start_tool ''U1'' (Some ''A1'')]
           (st_withAgentTelemetry [])))))
     2 (OK, None) \<and>
   calls (tracer (st_cleanup (run st_hooks [start_tool ''U2'' None]
        (snd (st_SubagentStop (stop_agent ''A1'')
           (run st_hooks [start_agent ''A1'', start_tool ''U1'' (Some ''A1'')]
              (st_withAgentTelemetry [])))))) ! 2) =
     calls (tracer (snd (st_SubagentStop (stop_agent ''A1'')
        (run st_hooks [start_agent ''A1'', start_tool ''U1'' (Some ''A1'')]
           (st_withAgentTelemetry [])))) ! 2) \<and>
   hook_event_name (complete_tool ''U1'') = Some ''PostToolUse'' \<and>
   Map_get (ba_toolSpans (run ba_hooks [start_agent ''A1'', start_tool ''U1'' (Some ''A1'')]
                            (ba_withAgentTelemetry [])))
     (tool_use_id (complete_tool ''U1''))
     = Some \<lparr>ba_span = 2, ba_context = SpanContext 2, ba_agentId = Some ''A1''\<rparr> \<and>
   fst (ba_PostToolUse (complete_tool ''U1'')
      (run ba_hooks [start_agent ''A1'', start_tool ''U1'' (Some ''A1'')]
         (ba_withAgentTelemetry []))) = Inr (HookOutput True) \<and>
   closes (tracer (run ba_hooks [start_agent ''A1'', start_tool ''U1'' (Some ''A1'')]
                     (ba_withAgentTelemetry [])))
     (tracer (snd (ba_PostToolUse (complete_tool ''U1'')
        (run ba_hooks [start_agent ''A1'', start_tool ''U1'' (Some ''A1'')]
           (ba_withAgentTelemetry [])))))
     2 (OK, None) \<and>
   (Some ''A1'', \<lparr>rootSpan = 1, sessionSpanContext = SpanContext 1, agentId = Some ''A1'',
                   agentType = Some ''code-reviewer''\<rparr>)
     \<in> set (ba_agentTraces (run ba_hooks [start_agent ''A1'', start_tool ''U1'' (Some ''A1'')]
                               (ba_withAgentTelemetry []))) \<and>
   closes (tracer (run ba_hooks [start_agent ''A1'', start_tool ''U1'' (Some ''A1'')]
                     (ba_withAgentTelemetry [])))
     (tracer (ba_cleanup (run ba_hooks [start_agent ''A1'', start_tool ''U1'' (Some ''A1'')]
                            (ba_withAgentTelemetry []))))
     1 (ERROR, Some ''Orphaned agent trace'') \<and>
   (Some ''U1'', \<lparr>ba_span = 2, ba_context = SpanContext 2, ba_agentId = Some ''A1''\<rparr>)
     \<in> set (ba_toolSpans (run ba_hooks [start_agent ''A1'', start_tool ''U1'' (Some ''A1'')]
                             (ba_withAgentTelemetry []))) \<and>
   closes (tracer (run ba_hooks [start_agent ''A1'', start_tool ''U1'' (Some ''A1'')]
                     (ba_withAgentTelemetry [])))
     (tracer (ba_cleanup (run ba_hooks [start_agent ''A1'', start_tool ''U1'' (Some ''A1'')]
                            (ba_withAgentTelemetry []))))
     2 (ERROR, Some ''Orphaned span'') \<and>
   hook_event_name (fail_tool ''U1'' ''boom'') = Some ''PostToolUseFailure'' \<and>
   Map_get (it_toolSpans (run (it_hooks wall_clock) [start_agent ''A1'', start_tool ''U1'' (Some ''A1'')]
                            (it_withAgentTelemetry [])))
     (tool_use_id (fail_tool ''U1'' ''boom'')) = Some \<lparr>span = 1, startTime = 1010\<rparr> \<and>
   closes (tracer (run (it_hooks wall_clock) [start_agent ''A1'', start_tool ''U1'' (Some ''A1'')]
                     (it_withAgentTelemetry [])))
     (tracer (snd (it_PostToolUseFailure wall_clock (fail_tool ''U1'' ''boom'')
        (run (it_hooks wall_clock) [start_agent ''A1'', start_tool ''U1'' (Some ''A1'')]
           (it_withAgentTelemetry [])))))
     1 (ERROR, Some ''Tool execution failed'') \<and>
   (Some ''A1'', \<lparr>span = 0, startTime = 1000\<rparr>)
     \<in> set (it_toolSpans (run (it_hooks wall_clock) [start_agent ''A1'', start_tool ''U1'' (Some ''A1'')]
                             (it_withAgentTelemetry []))) \<union>
       set (it_agentSpans (run (it_hooks wall_clock) [start_agent ''A1'', start_tool ''U1'' (Some ''A1'')]
                             (it_withAgentTelemetry []))) \<and>
   closes (tracer (run (it_hooks wall_clock) [start_agent ''A1'', start_tool ''U1'' (Some ''A1'')]
                     (it_withAgentTelemetry [])))
     (tracer (it_cleanup wall_clock
        (run (it_hooks wall_clock) [start_agent ''A1'', start_tool ''U1'' (Some ''A1'')]
           (it_withAgentTelemetry []))))
     0 (ERROR, Some ''Orphaned span'')"
proof -
  let ?E = "[start_agent ''A1'', start_tool ''U1'' (Some ''A1'')]"
  let ?L = "[start_tool ''U2'' None]"
  let ?S = "run st_hooks ?E (st_withAgentTelemetry [])"
  let ?B = "run ba_hooks ?E (ba_withAgentTelemetry [])"
  let ?I = "run (it_hooks wall_clock) ?E (it_withAgentTelemetry [])"
  let ?stop = "stop_agent ''A1''"
  let ?done = "complete_tool ''U1''"
  let ?fail = "fail_tool ''U1'' ''boom''"
  note T1 = C3_orphans_and_normal_closes
    [where events = ?E and tr = "[]" and inp = ?stop and later = ?L and clock = wall_clock,
      unfolded Let_def]
  note T2 = C3_orphans_and_normal_closes
    [where events = ?E and tr = "[]" and inp = ?done and later = ?L and clock = wall_clock,
      unfolded Let_def]
  note T3 = C3_orphans_and_normal_closes
    [where events = ?E and tr = "[]" and inp = ?fail and later = ?L and clock = wall_clock,
      unfolded Let_def]
  note st = T1 [THEN conjunct1]
  note ba = T2 [THEN conjunct2, THEN conjunct1]
  note it = T3 [THEN conjunct2, THEN conjunct2]
  have m1: "(Some ''U1'', \<lparr>st_span = 3, st_context = SpanContext 3\<rparr>)
              \<in> set (st_toolSpans ?S) \<union> set (st_agentSpans ?S)"
    by code_simp
  have c1: "closes (tracer ?S) (tracer (st_cleanup ?S)) 3 (ERROR, Some ''Orphaned span'')"
    using bspec [OF st [THEN conjunct1] m1] by simp
  have e2: "hook_event_name ?stop = Some ''SubagentStop''"
    by (simp add: stop_agent_def)
  have g2: "Map_get (st_agentSpans ?S) (agent_id ?stop)
              = Some \<lparr>st_span = 2, st_context = SpanContext 2\<rparr>"
    by code_simp
  have c2: "closes (tracer ?S) (tracer (snd (st_SubagentStop ?stop ?S))) 2 (OK, None) \<and>
            calls (tracer (st_cleanup (run st_hooks ?L (snd (st_SubagentStop ?stop ?S)))) ! 2) =
              calls (tracer (snd (st_SubagentStop ?stop ?S)) ! 2)"
    using st [THEN conjunct2, THEN conjunct1, THEN spec, THEN mp, OF conjI, OF e2 g2] by simp
  have e3: "hook_event_name ?done = Some ''PostToolUse''"
    by (simp add: complete_tool_def)
  have g3: "Map_get (ba_toolSpans ?B) (tool_use_id ?done)
              = Some \<lparr>ba_span = 2, ba_context = SpanContext 2, ba_agentId = Some ''A1''\<rparr>"
    by code_simp
  have r3: "fst (ba_PostToolUse ?done ?B) = Inr (HookOutput True)"
    by code_simp
  have c3: "closes (tracer ?B) (tracer (snd (ba_PostToolUse ?done ?B))) 2 (OK, None)"
    using ba [THEN conjunct2, THEN conjunct2, THEN conjunct2, THEN conjunct1, THEN spec, THEN mp,
        OF conjI, OF e3 conjI, OF g3 r3]
    by simp
  have m4: "(Some ''A1'', \<lparr>rootSpan = 1, sessionSpanContext = SpanContext 1, agentId = Some ''A1'',
                   agentType = Some ''code-reviewer''\<rparr>) \<in> set (ba_agentTraces ?B)"
    by code_simp
  have c4: "closes (tracer ?B) (tracer (ba_cleanup ?B)) 1 (ERROR, Some ''Orphaned agent trace'')"
    using bspec [OF ba [THEN conjunct2, THEN conjunct1] m4] by simp
  have m5: "(Some ''U1'', \<lparr>ba_span = 2, ba_context = SpanContext 2, ba_agentId = Some ''A1''\<rparr>)
              \<in> set (ba_toolSpans ?B)"
    by code_simp
  have c5: "closes (tracer ?B) (tracer (ba_cleanup ?B)) 2 (ERROR, Some ''Orphaned span'')"
    using bspec [OF ba [THEN conjunct1] m5] by simp
  have e6: "hook_event_name ?fail = Some ''PostToolUseFailure''"
    by (simp add: fail_tool_def)
  have g6: "Map_get (it_toolSpans ?I) (tool_use_id ?fail) = Some \<lparr>span = 1, startTime = 1010\<rparr>"
    by code_simp
  have c6: "closes (tracer ?I) (tracer (snd (it_PostToolUseFailure wall_clock ?fail ?I))) 1
              (ERROR, Some ''Tool execution failed'')"
    using it [THEN conjunct2, THEN conjunct2, THEN conjunct2, THEN spec, THEN mp,
        OF conjI, OF e6 g6]
    by simp
  have m7: "(Some ''A1'', \<lparr>span = 0, startTime = 1000\<rparr>)
              \<in> set (it_toolSpans ?I) \<union> set (it_agentSpans ?I)"
    by code_simp
  have c7: "closes (tracer ?I) (tracer (it_cleanup wall_clock ?I)) 0 (ERROR, Some ''Orphaned span'')"
    using bspec [OF it [THEN conjunct1] m7] by simp
  show ?thesis
    using m1 c1 e2 g2 c2 e3 g3 r3 c3 m4 c4 m5 c5 e6 g6 c6 m7 c7 by blast
qed

end
